(* ===== verification/Prelude.thy ===== *)
theory Prelude
  imports Main "HOL-Library.Word"
begin

text \<open>
  Shared vocabulary of the development: machine integers and pointers at the width of the
  LP64 targets, the flat memory the C code reads, the list of bytes found at an address,
  and the word and list facts the component theories use.

  A pointer is a 64-bit word, and pointer arithmetic and comparison are the word
  operations, so that \<open>p == end\<close> and \<open>end - p < value\<close> of the source are kept as they are
  written, wrap-around included.
\<close>

unbundle bit_operations_syntax

type_synonym u8 = "8 word"
type_synonym u32 = "32 word"
type_synonym i32 = "32 word"
type_synonym u64 = "64 word"
type_synonym i64 = "64 word"
type_synonym ptr = "64 word"
type_synonym memory = "ptr \<Rightarrow> u8"

section \<open>Bytes in memory\<close>

text \<open>The \<open>n\<close> bytes found at address \<open>p\<close>.\<close>

primrec peek :: "memory \<Rightarrow> ptr \<Rightarrow> nat \<Rightarrow> u8 list" where
  "peek m p 0 = []"
| "peek m p (Suc n) = m p # peek m (p + 1) n"

lemma length_peek [simp]: "length (peek m p n) = n"
  by (induction n arbitrary: p) auto

lemma peek_eq_Nil [simp]: "peek m p n = [] \<longleftrightarrow> n = 0"
  by (cases n) auto

lemma peek_add: "peek m p (a + b) = peek m p a @ peek m (p + of_nat a) b"
  by (induction a arbitrary: p) (auto simp: algebra_simps)

lemma take_peek: "k \<le> n \<Longrightarrow> take k (peek m p n) = peek m p k"
  using peek_add [of m p k "n - k"] by simp

lemma drop_peek: "k \<le> n \<Longrightarrow> drop k (peek m p n) = peek m (p + of_nat k) (n - k)"
  using peek_add [of m p k "n - k"] by simp

lemma nth_peek: "i < n \<Longrightarrow> peek m p n ! i = m (p + of_nat i)"
proof (induction n arbitrary: p i)
  case 0
  then show ?case by simp
next
  case (Suc n)
  then show ?case by (cases i) (auto simp: algebra_simps)
qed

text \<open>A memory holding the given bytes from address \<open>b\<close> on, used for concrete inputs.\<close>

definition mem_of :: "ptr \<Rightarrow> u8 list \<Rightarrow> memory" where
  "mem_of b bs a = (let i = unat (a - b) in if i < length bs then bs ! i else 0)"

lemma mem_of_nth: "i < length bs \<Longrightarrow> length bs \<le> 2 ^ 64 \<Longrightarrow> mem_of b bs (b + of_nat i) = bs ! i"
  by (simp add: mem_of_def unat_of_nat)

lemma peek_mem_of:
  assumes "length bs \<le> 2 ^ 64"
  shows "peek (mem_of b bs) b (length bs) = bs"
  using assms by (intro nth_equalityI) (auto simp: nth_peek mem_of_nth)

section \<open>Distances between pointers\<close>

lemma unat_ptr_less: "unat (p :: ptr) < 2 ^ 64"
proof -
  have "unat p < 2 ^ LENGTH(64)" by (rule unsigned_less)
  then show ?thesis by simp
qed

lemma unat_of_nat_ptr [simp]: "k < 2 ^ 64 \<Longrightarrow> unat (of_nat k :: ptr) = k"
  by (simp add: unat_of_nat)

lemma unat_dist_step: "p \<noteq> e \<Longrightarrow> unat (e - (p + 1)) = unat (e - p) - 1" for p :: ptr
proof -
  assume "p \<noteq> e"
  then have "e - p \<noteq> 0" by simp
  then have "unat (e - p - 1) = unat (e - p) - 1" by (rule unat_minus_one)
  then show ?thesis by (simp add: algebra_simps)
qed

lemma unat_dist_pos: "p \<noteq> e \<Longrightarrow> 0 < unat (e - p)" for p :: ptr
  by (simp add: unat_gt_0)

lemma unat_dist_jump:
  "v \<le> e - p \<Longrightarrow> unat (e - (p + v)) = unat (e - p) - unat v" for p :: ptr
  using unat_sub [of v "e - p"] by (simp add: algebra_simps)

lemma unat_dist_offset:
  "k \<le> unat (e - p) \<Longrightarrow> unat (e - (p + of_nat k)) = unat (e - p) - k" for p :: ptr
proof -
  assume k: "k \<le> unat (e - p)"
  then have "k < 2 ^ 64" by (rule le_less_trans) (rule unat_ptr_less)
  then have u: "unat (of_nat k :: ptr) = k" by simp
  then have "of_nat k \<le> e - p" using k by (simp add: word_le_nat_alt)
  from unat_dist_jump [OF this] show ?thesis by (simp add: u)
qed

lemma unat_add_exact: "unat a + unat b < 2 ^ 64 \<Longrightarrow> unat (a + b) = unat a + unat b" for a b :: ptr
  by (simp add: unat_word_ariths)

section \<open>Narrow integers\<close>

lemma ucast_i32_eq: "(ucast c :: u64) = v" if "unat c = unat v" for c :: i32
proof -
  have "unat (ucast c :: u64) = take_bit 64 (unat c)" by (simp only: unsigned_ucast_eq) simp
  also have "\<dots> = unat v" using that unat_ptr_less [of v] by (simp only: take_bit_nat_eq_self)
  finally show ?thesis by (simp only: word_unat_eq_iff)
qed

lemma sint_i32: "sint c = int (unat c)" if "unat c < 2 ^ 31" for c :: i32
proof -
  have "int (unat c) < int (2 ^ 31)" using that by (simp only: of_nat_less_iff)
  then have u: "uint c < 2 ^ 31" by simp
  have "0 \<le> uint c" by simp
  then have n: "- (2 ^ 31) \<le> uint c" by (rule order_trans [rotated]) simp
  have "signed_take_bit 31 (uint c) = uint c" by (rule signed_take_bit_int_eq_self) (use u n in auto)
  then show ?thesis by (simp add: sint_uint)
qed

lemma unat_ucast_i32: "unat v < 2 ^ 31 \<Longrightarrow> unat (ucast v :: i32) = unat v" for v :: u64
  by (simp add: unsigned_ucast_eq take_bit_nat_eq_self)

lemma sint_i32_range: "- (2 ^ 31) \<le> sint r" "sint r < 2 ^ 31" for r :: i32
  using sint_ge [of r] sint_lt [of r] by simp_all

lemma sint_scast_i32: "sint (scast r :: u64) = sint r" for r :: i32
  by (rule sint_up_scast) (simp add: is_up_def source_size_def target_size_def word_size)

lemma sint_ucast_i32: "sint (ucast v :: i32) = signed_take_bit 31 (sint v)" for v :: u64
proof -
  have "sint (ucast v :: i32) = signed_take_bit 31 (uint v)" by (simp add: signed_ucast_eq)
  also have "\<dots> = signed_take_bit 31 (sint v)"
    by (rule signed_take_bit_eq_iff_take_bit_eq [THEN iffD2])
      (simp add: sint_uint take_bit_signed_take_bit)
  finally show ?thesis .
qed

text \<open>
  Which 64-bit values survive the conversion to \<^verbatim>\<open>int\<close> and back, and what they are then: the
  value is that of the 64 bits read as a signed number.
\<close>

lemma i32_value: "- (2 ^ 31) \<le> sint v \<Longrightarrow> sint v < 2 ^ 31 \<Longrightarrow> sint (ucast v :: i32) = sint v" for v :: u64
  unfolding sint_ucast_i32 by (intro signed_take_bit_int_eq_self) auto

lemma i32_round_trip:
  "(scast (ucast v :: i32) :: u64) = v \<longleftrightarrow> - (2 ^ 31) \<le> sint v \<and> sint v < 2 ^ 31" (is "?l \<longleftrightarrow> ?r")
  for v :: u64
proof
  assume ?l
  then have "sint v = sint (ucast v :: i32)" using sint_scast_i32 [of "ucast v"] by simp
  then show ?r using sint_i32_range [of "ucast v"] by simp
next
  assume ?r
  then have "sint (ucast v :: i32) = sint v" by (intro i32_value) auto
  then have "sint (scast (ucast v :: i32) :: u64) = sint v" by (simp only: sint_scast_i32)
  then show ?l by (rule signed_word_eqI)
qed

lemma not_ucast: "(ucast (NOT v) :: i32) = NOT (ucast v)" for v :: u64
  by (rule bit_word_eqI) (simp add: bit_simps)

lemma sint_not_i32: "sint (NOT r) = - 1 - sint r" for r :: i32
proof -
  have "NOT (sint r) = - 1 - sint r" by (simp add: not_int_def)
  moreover have "signed_take_bit 32 (- 1 - sint r) = - 1 - sint r"
    using sint_i32_range [of r] by (intro signed_take_bit_int_eq_self) auto
  ultimately show ?thesis by (simp add: signed_not_eq)
qed

lemma sint_of_nat: "sint (of_nat n :: u64) = int n" if "n < 2 ^ 63"
proof -
  have "sint (of_nat n :: u64) = signed_take_bit 63 (int n)" by (simp add: signed_of_nat)
  also have "\<dots> = int n"
  proof (rule signed_take_bit_int_eq_self)
    have "int n < int (2 ^ 63)" using that by (simp only: of_nat_less_iff)
    then show "int n < 2 ^ 63" by simp
  qed simp
  finally show ?thesis .
qed

lemma sint_of_nat_cases:
  assumes "n < 2 ^ 64"
  shows "sint (of_nat n :: u64) = (if n < 2 ^ 63 then int n else int n - 2 ^ 64)"
proof (cases "n < 2 ^ 63")
  case False
  have "(of_nat n :: u64) = of_int (int n - 2 ^ 64)" by simp
  then have "sint (of_nat n :: u64) = signed_take_bit 63 (int n - 2 ^ 64)"
    by (simp only: signed_of_int) simp
  also have "\<dots> = int n - 2 ^ 64"
    using assms False by (intro signed_take_bit_int_eq_self) auto
  finally show ?thesis using False by simp
qed (simp add: sint_of_nat)

lemma ucast_of_nat_i32: "(ucast (of_nat n :: u64) :: i32) = of_nat n"
  by (rule bit_word_eqI) (simp add: bit_simps)

lemma unat_ucast_u32: "unat (ucast x :: u64) = unat x" for x :: u32
proof -
  have "unat x < 2 ^ 32" using unsigned_less [of x, where 'a = nat] by simp
  then have "unat x < 2 ^ 64" by simp
  then show ?thesis by (simp add: unsigned_ucast_eq take_bit_nat_eq_self)
qed

end
