(* ===== verification/Tcbor.thy ===== *)
theory Tcbor
  imports Prelude
begin

text \<open>
  The CBOR reader of \<^verbatim>\<open>lib/include/teecbor.h\<close> and \<^verbatim>\<open>lib/cbor/teecbor.c\<close>: byte ranges, the
  reader of one item head, skipping of whole items, decoding contexts and the typed
  readers. A function of the source that reads through a pointer takes the memory as its
  first argument; one that updates a context returns the new context beside its result,
  \<open>None\<close> standing for the result \<open>false\<close> (the destination is then not written).
\<close>

unbundle bit_operations_syntax

section \<open>Byte ranges\<close>

record tcbor_range =
  rbegin :: ptr
  rend :: ptr

definition tcbor_range_null :: tcbor_range where
  "tcbor_range_null = \<lparr>rbegin = 0, rend = 0\<rparr>"

definition tcbor_range_is_null :: "tcbor_range \<Rightarrow> bool" where
  "tcbor_range_is_null r = (rbegin r = 0)"

text \<open>Number of bytes between the two pointers, and the bytes themselves.\<close>

definition span :: "tcbor_range \<Rightarrow> nat" where
  "span r = unat (rend r - rbegin r)"

definition bytes_of :: "memory \<Rightarrow> tcbor_range \<Rightarrow> u8 list" where
  "bytes_of m r = peek m (rbegin r) (span r)"

definition tcbor_range_equal :: "memory \<Rightarrow> tcbor_range \<Rightarrow> tcbor_range \<Rightarrow> bool" where
  "tcbor_range_equal m x y =
     (if tcbor_range_is_null x \<or> tcbor_range_is_null y
      then tcbor_range_is_null x = tcbor_range_is_null y
      else if rend x - rbegin x \<noteq> rend y - rbegin y then False
      else peek m (rbegin x) (unat (rend x - rbegin x)) = peek m (rbegin y) (unat (rend x - rbegin x)))"

section \<open>Item heads\<close>

datatype tcbor_error =
    tcbor_OK
  | tcbor_MALFORMED
  | tcbor_NEED_DATA
  | tcbor_NOT_SUPPORTED
  | tcbor_NOT_MATCH
  | tcbor_END_OF_CONTEXT
  | tcbor_OVERFLOW

text \<open>The union of \<open>tcbor_any\<close>: \<open>value\<close> overlaps the first pointer of \<open>bytes\<close>.\<close>

datatype any_payload = AnyValue u64 | AnyBytes tcbor_range

record tcbor_any =
  header :: u8
  payload :: any_payload

definition any_value :: "tcbor_any \<Rightarrow> u64" where
  "any_value a = (case payload a of AnyValue v \<Rightarrow> v | AnyBytes r \<Rightarrow> rbegin r)"

definition any_bytes :: "tcbor_any \<Rightarrow> tcbor_range" where
  "any_bytes a = (case payload a of AnyValue v \<Rightarrow> \<lparr>rbegin = v, rend = 0\<rparr> | AnyBytes r \<Rightarrow> r)"

definition major :: "tcbor_any \<Rightarrow> u8" where
  "major a = drop_bit 5 (header a)"

definition tcbor_is_uint :: "tcbor_any \<Rightarrow> bool" where
  "tcbor_is_uint a = (major a = 0)"

definition tcbor_is_nint :: "tcbor_any \<Rightarrow> bool" where
  "tcbor_is_nint a = (major a = 1)"

definition tcbor_is_bstr :: "tcbor_any \<Rightarrow> bool" where
  "tcbor_is_bstr a = (major a = 2)"

definition tcbor_is_tstr :: "tcbor_any \<Rightarrow> bool" where
  "tcbor_is_tstr a = (major a = 3)"

definition tcbor_is_array :: "tcbor_any \<Rightarrow> bool" where
  "tcbor_is_array a = (major a = 4)"

definition tcbor_is_map :: "tcbor_any \<Rightarrow> bool" where
  "tcbor_is_map a = (major a = 5)"

definition tcbor_is_tag :: "tcbor_any \<Rightarrow> bool" where
  "tcbor_is_tag a = (major a = 6)"

definition tcbor_is_simple :: "tcbor_any \<Rightarrow> bool" where
  "tcbor_is_simple a = (major a = 7 \<and> header a AND 0x1F \<le> 24)"

definition tcbor_is_false :: "tcbor_any \<Rightarrow> bool" where
  "tcbor_is_false a = (tcbor_is_simple a \<and> any_value a = 20)"

definition tcbor_is_true :: "tcbor_any \<Rightarrow> bool" where
  "tcbor_is_true a = (tcbor_is_simple a \<and> any_value a = 21)"

definition tcbor_is_bool :: "tcbor_any \<Rightarrow> bool" where
  "tcbor_is_bool a = (tcbor_is_false a \<or> tcbor_is_true a)"

definition tcbor_is_null :: "tcbor_any \<Rightarrow> bool" where
  "tcbor_is_null a = (tcbor_is_simple a \<and> any_value a = 22)"

definition tcbor_is_undefined :: "tcbor_any \<Rightarrow> bool" where
  "tcbor_is_undefined a = (tcbor_is_simple a \<and> any_value a = 23)"

text \<open>
  The loop that collects the argument bytes of a head: \<open>n\<close> bytes are still to be read at
  \<open>p\<close>, \<open>e\<close> is the end of the input. \<open>None\<close> is the jump to \<^verbatim>\<open>need_data\<close>.
\<close>

fun read_argument :: "memory \<Rightarrow> ptr \<Rightarrow> nat \<Rightarrow> u64 \<Rightarrow> ptr \<Rightarrow> (u64 \<times> ptr) option" where
  "read_argument m e 0 value p = Some (value, p)"
| "read_argument m e (Suc n) value p =
     (if p = e then None
      else read_argument m e n (push_bit 8 value OR ucast (m p)) (p + 1))"

text \<open>Result: the item and the advanced range (\<open>None\<close> for \<open>false\<close>), and the error stored.\<close>

definition tcbor_primitive_read_any ::
    "memory \<Rightarrow> tcbor_range \<Rightarrow> (tcbor_any \<times> tcbor_range) option \<times> tcbor_error" where
  "tcbor_primitive_read_any m r =
     (let p = rbegin r in
      if p = rend r then (None, tcbor_NEED_DATA)
      else
        let hdr = m p; p = p + 1; mt = drop_bit 5 hdr; ai = hdr AND 0x1F in
        if ai = 28 \<or> ai = 29 \<or> ai = 30 then (None, tcbor_MALFORMED)
        else if ai = 31 then (None, tcbor_NOT_SUPPORTED)
        else
          case (if 24 \<le> ai then read_argument m (rend r) (2 ^ (unat ai - 24)) 0 p
                else Some (ucast ai, p)) of
            None \<Rightarrow> (None, tcbor_NEED_DATA)
          | Some (value, p) \<Rightarrow>
              if mt = 7 \<and> ai = 24 \<and> value < 32 then (None, tcbor_MALFORMED)
              else if mt = 2 \<or> mt = 3 then
                if rend r - p < value then (None, tcbor_NEED_DATA)
                else (Some (\<lparr>header = hdr, payload = AnyBytes \<lparr>rbegin = p, rend = p + value\<rparr>\<rparr>,
                            r\<lparr>rbegin := p + value\<rparr>), tcbor_OK)
              else (Some (\<lparr>header = hdr, payload = AnyValue value\<rparr>, r\<lparr>rbegin := p\<rparr>), tcbor_OK))"

section \<open>What reading a head consumes\<close>

text \<open>\<open>r'\<close> is \<open>r\<close> with some bytes at its front consumed.\<close>

definition advances :: "tcbor_range \<Rightarrow> tcbor_range \<Rightarrow> bool" where
  "advances r r' \<longleftrightarrow> rend r' = rend r \<and> span r' \<le> span r"

text \<open>\<open>r'\<close> lies inside \<open>r\<close>: it starts at an offset and ends no later.\<close>

definition inside :: "tcbor_range \<Rightarrow> tcbor_range \<Rightarrow> bool" where
  "inside r' r \<longleftrightarrow> unat (rbegin r' - rbegin r) + span r' \<le> span r"

lemma advances_refl [simp]: "advances r r"
  by (simp add: advances_def)

lemma advances_trans [trans]: "advances r s \<Longrightarrow> advances s t \<Longrightarrow> advances r t"
  by (simp add: advances_def)

lemma inside_refl [simp]: "inside r r"
  by (simp add: inside_def)

lemma inside_span: "inside r s \<Longrightarrow> span r \<le> span s"
  by (simp add: inside_def)

lemma unat_add_le: "unat (a + b) \<le> unat a + unat b" for a b :: ptr
  by (simp add: unat_word_ariths)

lemma inside_trans [trans]:
  assumes "inside r s" and "inside s t"
  shows "inside r t"
proof -
  have "rbegin r - rbegin t = (rbegin r - rbegin s) + (rbegin s - rbegin t)" by simp
  then have "unat (rbegin r - rbegin t) \<le> unat (rbegin r - rbegin s) + unat (rbegin s - rbegin t)"
    by (simp only: unat_add_le)
  with assms show ?thesis by (simp add: inside_def)
qed

lemma advances_offset:
  assumes "advances r r'"
  shows "unat (rbegin r' - rbegin r) = span r - span r'"
proof -
  have le: "rend r - rbegin r' \<le> rend r - rbegin r"
    using assms by (auto simp: advances_def span_def word_le_nat_alt)
  have "rbegin r' - rbegin r = (rend r - rbegin r) - (rend r - rbegin r')" by simp
  then have "unat (rbegin r' - rbegin r) = unat (rend r - rbegin r) - unat (rend r - rbegin r')"
    by (simp only: unat_sub [OF le])
  then show ?thesis
    using assms by (auto simp: advances_def span_def)
qed

lemma advances_inside: "advances r r' \<Longrightarrow> inside r' r"
  using advances_offset [of r r'] by (simp add: inside_def advances_def)

lemma inside_jump:
  assumes "v \<le> e - p" and "k \<le> unat (e - b)" and "p = b + of_nat k"
  shows "inside \<lparr>rbegin = p, rend = p + v\<rparr> \<lparr>rbegin = b, rend = e\<rparr>"
proof -
  have "unat (e - p) = unat (e - b) - k"
    using assms(2,3) by (simp add: unat_dist_offset)
  moreover have "unat v \<le> unat (e - p)" using assms(1) by (simp add: word_le_nat_alt)
  moreover have "k < 2 ^ 64" using assms(2) unat_ptr_less by (rule le_less_trans)
  ultimately show ?thesis using assms(2,3) by (simp add: inside_def span_def)
qed

text \<open>The bytes collected by the argument loop, most significant first.\<close>

definition be_fold :: "u64 \<Rightarrow> u8 list \<Rightarrow> u64" where
  "be_fold = foldl (\<lambda>a b. push_bit 8 a OR ucast b)"

lemma read_argument_eq:
  "read_argument m e n v p =
     (if n \<le> unat (e - p) then Some (be_fold v (peek m p n), p + of_nat n) else None)"
proof (induction n arbitrary: v p)
  case 0
  then show ?case by (simp add: be_fold_def)
next
  case (Suc n)
  show ?case
  proof (cases "p = e")
    case False
    then have pos: "0 < unat (e - p)" and step: "unat (e - (p + 1)) = unat (e - p) - 1"
      by (auto simp: unat_dist_pos unat_dist_step)
    then have "n \<le> unat (e - (p + 1)) \<longleftrightarrow> Suc n \<le> unat (e - p)" by arith
    then show ?thesis
      using Suc False by (simp add: be_fold_def add.assoc)
  qed simp
qed

text \<open>
  The head reader in one equation: what it returns is decided by the first byte and by
  how many bytes there are.
\<close>

definition argument_length :: "u8 \<Rightarrow> nat" where
  "argument_length ai = (if 24 \<le> ai then 2 ^ (unat ai - 24) else 0)"

lemma argument_eq:
  "(if 24 \<le> ai then read_argument m e (2 ^ (unat ai - 24)) 0 p else Some (ucast ai, p)) =
   (if argument_length ai \<le> unat (e - p)
    then Some (if 24 \<le> ai then be_fold 0 (peek m p (argument_length ai)) else ucast ai,
               p + of_nat (argument_length ai))
    else None)"
  by (auto simp: argument_length_def read_argument_eq)

lemma read_any_Some:
  assumes "tcbor_primitive_read_any m r = (Some (a, r'), e)"
  shows "e = tcbor_OK" and "rend r' = rend r" and "span r' < span r"
    and "header a = m (rbegin r)"
    and "tcbor_is_bstr a \<or> tcbor_is_tstr a \<Longrightarrow> inside (any_bytes a) r \<and> span (any_bytes a) < span r"
proof -
  obtain b e0 where r: "r = \<lparr>rbegin = b, rend = e0\<rparr>" by (cases r)
  let ?ai = "m b AND 0x1F" and ?mt = "drop_bit 5 (m b)"
  let ?n = "argument_length ?ai"
  let ?p = "b + 1 + of_nat ?n"
  from assms have ne: "b \<noteq> e0" and en: "?n \<le> unat (e0 - (b + 1))"
    by (auto simp: tcbor_primitive_read_any_def Let_def argument_eq r split: if_splits)
  then have d: "unat (e0 - (b + 1)) = unat (e0 - b) - 1" and pos: "0 < unat (e0 - b)"
    by (auto simp: unat_dist_step unat_dist_pos)
  have dp: "unat (e0 - ?p) = unat (e0 - b) - 1 - ?n"
    using unat_dist_offset [OF en] d by simp
  have in0: "v \<le> e0 - ?p \<Longrightarrow> inside \<lparr>rbegin = ?p, rend = ?p + v\<rparr> \<lparr>rbegin = b, rend = e0\<rparr>" for v
    by (rule inside_jump [where k = "Suc ?n"]) (use en d pos in \<open>auto simp: algebra_simps\<close>)
  have sp: "v \<le> e0 - ?p \<Longrightarrow> span \<lparr>rbegin = ?p, rend = ?p + v\<rparr> < unat (e0 - b)" for v
    using dp pos by (simp add: span_def word_le_nat_alt)
  have jump: "v \<le> e0 - ?p \<Longrightarrow> unat (e0 - (?p + v)) < unat (e0 - b)" for v
    using dp pos by (simp add: unat_dist_jump)
  show "e = tcbor_OK" and "rend r' = rend r" and "header a = m (rbegin r)"
    using assms ne en by (auto simp: tcbor_primitive_read_any_def Let_def argument_eq r split: if_splits)
  show "span r' < span r"
    using assms ne en jump dp pos
    by (auto simp: tcbor_primitive_read_any_def Let_def argument_eq r span_def not_less
        split: if_splits)
  show "inside (any_bytes a) r \<and> span (any_bytes a) < span r" if "tcbor_is_bstr a \<or> tcbor_is_tstr a"
    using assms ne en that in0 sp
    by (auto simp: tcbor_primitive_read_any_def Let_def argument_eq r any_bytes_def
        tcbor_is_bstr_def tcbor_is_tstr_def major_def not_less span_def split: if_splits)
qed

lemma read_any_None:
  "tcbor_primitive_read_any m r = (None, e) \<Longrightarrow> e \<in> {tcbor_NEED_DATA, tcbor_MALFORMED, tcbor_NOT_SUPPORTED}"
  by (auto simp: tcbor_primitive_read_any_def Let_def split: if_splits option.splits)

lemma read_any_empty: "span r = 0 \<Longrightarrow> tcbor_primitive_read_any m r = (None, tcbor_NEED_DATA)"
  by (auto simp: tcbor_primitive_read_any_def span_def unat_eq_zero)

section \<open>Skipping whole items\<close>

text \<open>
  \<open>count\<close> items are still to be skipped from the front of \<open>s\<close>; \<open>e\<close> is the error stored so
  far (a skip of no item stores none). A tag consumes bytes and leaves the count.
\<close>

function (sequential) tcbor_primitive_skip ::
    "memory \<Rightarrow> tcbor_range \<Rightarrow> u64 \<Rightarrow> tcbor_error \<Rightarrow> tcbor_range option \<times> tcbor_error" where
  "tcbor_primitive_skip m s count e =
     (if count = 0 then (Some s, e)
      else
        case tcbor_primitive_read_any m s of
          (None, e) \<Rightarrow> (None, e)
        | (Some (any, s), e) \<Rightarrow>
            if tcbor_is_tag any then tcbor_primitive_skip m s count e
            else
              let count = count - 1 in
              if tcbor_is_array any then
                let c = any_value any in
                if count + c < count then (None, tcbor_OVERFLOW)
                else tcbor_primitive_skip m s (count + c) e
              else if tcbor_is_map any then
                let c = any_value any in
                if count + c < count then (None, tcbor_OVERFLOW)
                else
                  let count = count + c in
                  if count + c < count then (None, tcbor_OVERFLOW)
                  else tcbor_primitive_skip m s (count + c) e
              else tcbor_primitive_skip m s count e)"
  by pat_completeness auto
termination
  by (relation "measure (\<lambda>(m, s, count, e). span s)") (auto dest: read_any_Some(3) [OF sym])

declare tcbor_primitive_skip.simps [simp del]

lemma skip_advances:
  "tcbor_primitive_skip m s count e = (Some s', e') \<Longrightarrow>
     advances s s' \<and> (count \<noteq> 0 \<longrightarrow> span s' < span s \<and> e' = tcbor_OK)"
proof (induction m s count e rule: tcbor_primitive_skip.induct)
  case (1 m s count e)
  show ?case
  proof (cases "count = 0")
    case True
    with "1.prems" show ?thesis by (simp add: tcbor_primitive_skip.simps)
  next
    case False
    with "1.prems" obtain any t e1 where rd: "tcbor_primitive_read_any m s = (Some (any, t), e1)"
      by (auto simp: tcbor_primitive_skip.simps [of m s] split: prod.splits option.splits)
    obtain n where rec: "tcbor_primitive_skip m t n e1 = (Some s', e')"
      and IH: "advances t s' \<and> (n \<noteq> 0 \<longrightarrow> span s' < span t \<and> e' = tcbor_OK)"
      using "1.prems" False rd "1.IH"
      by (simp add: tcbor_primitive_skip.simps [of m s] Let_def split: if_splits)
    have "n = 0 \<Longrightarrow> e' = e1"
      using rec by (simp add: tcbor_primitive_skip.simps)
    with IH read_any_Some(1-3) [OF rd] show ?thesis
      by (auto simp: advances_def)
  qed
qed

section \<open>Decoding contexts\<close>

record tcbor_context =
  ctx_r :: tcbor_range
  ctx_index :: u64
  ctx_count :: u64
  ctx_error :: tcbor_error

definition tcbor_fail :: "tcbor_context \<Rightarrow> tcbor_context \<Rightarrow> tcbor_context" where
  "tcbor_fail ctx saved =
     ctx\<lparr>ctx_r := ctx_r saved, ctx_index := ctx_index saved, ctx_count := ctx_count saved\<rparr>"

definition tcbor_is_end_of_context :: "tcbor_context \<Rightarrow> bool" where
  "tcbor_is_end_of_context c = (ctx_index c = ctx_count c)"

definition tcbor_toplevel :: "tcbor_range \<Rightarrow> tcbor_context" where
  "tcbor_toplevel r = \<lparr>ctx_r = r, ctx_index = 0, ctx_count = 1, ctx_error = tcbor_OK\<rparr>"

definition tcbor_open :: "tcbor_context \<Rightarrow> u64 \<Rightarrow> tcbor_context" where
  "tcbor_open parent count =
     \<lparr>ctx_r = ctx_r parent, ctx_index = 0, ctx_count = count, ctx_error = tcbor_OK\<rparr>"

definition tcbor_close :: "tcbor_context \<Rightarrow> tcbor_context \<Rightarrow> bool \<times> tcbor_context" where
  "tcbor_close parent child =
     (if \<not> tcbor_is_end_of_context child
      then (False, parent\<lparr>ctx_error := tcbor_END_OF_CONTEXT\<rparr>)
      else (True, parent\<lparr>ctx_r := ctx_r child\<rparr>))"

definition tcbor_read_any :: "memory \<Rightarrow> tcbor_context \<Rightarrow> tcbor_any option \<times> tcbor_context" where
  "tcbor_read_any m ctx =
     (if tcbor_is_end_of_context ctx then (None, ctx\<lparr>ctx_error := tcbor_END_OF_CONTEXT\<rparr>)
      else
        case tcbor_primitive_read_any m (ctx_r ctx) of
          (None, e) \<Rightarrow> (None, ctx\<lparr>ctx_error := e\<rparr>)
        | (Some (any, r), e) \<Rightarrow>
            (Some any,
             ctx\<lparr>ctx_r := r, ctx_error := e,
                 ctx_index := (if tcbor_is_tag any then ctx_index ctx else ctx_index ctx + 1)\<rparr>))"

definition tcbor_skip :: "memory \<Rightarrow> tcbor_context \<Rightarrow> u64 \<Rightarrow> bool \<times> tcbor_context" where
  "tcbor_skip m ctx count =
     (if ctx_count ctx - ctx_index ctx < count
      then (False, ctx\<lparr>ctx_error := tcbor_END_OF_CONTEXT\<rparr>)
      else
        case tcbor_primitive_skip m (ctx_r ctx) count (ctx_error ctx) of
          (None, e) \<Rightarrow> (False, ctx\<lparr>ctx_error := e\<rparr>)
        | (Some r, e) \<Rightarrow>
            (True, ctx\<lparr>ctx_r := r, ctx_error := e, ctx_index := ctx_index ctx + count\<rparr>))"

definition tcbor_skip_all :: "memory \<Rightarrow> tcbor_context \<Rightarrow> bool \<times> tcbor_context" where
  "tcbor_skip_all m ctx = tcbor_skip m ctx (ctx_count ctx - ctx_index ctx)"

definition tcbor_read_subobject :: "memory \<Rightarrow> tcbor_context \<Rightarrow> tcbor_range option \<times> tcbor_context" where
  "tcbor_read_subobject m ctx =
     (case tcbor_skip m ctx 1 of
        (False, c) \<Rightarrow> (None, c)
      | (True, c) \<Rightarrow> (Some \<lparr>rbegin = rbegin (ctx_r ctx), rend = rbegin (ctx_r c)\<rparr>, c))"

section \<open>Typed readers\<close>

text \<open>
  The body every typed reader of \<^verbatim>\<open>teecbor.h\<close> has: read one head; \<open>goto err\<close> when there is
  none, \<open>goto mismatch\<close> when it has another type, both restoring the position.
\<close>

definition read_matching ::
    "(tcbor_any \<Rightarrow> bool) \<Rightarrow> (tcbor_any \<Rightarrow> 'a) \<Rightarrow> memory \<Rightarrow> tcbor_context \<Rightarrow> 'a option \<times> tcbor_context"
where
  "read_matching is_type conv m ctx =
     (case tcbor_read_any m ctx of
        (None, c) \<Rightarrow> (None, tcbor_fail c ctx)
      | (Some any, c) \<Rightarrow>
          if \<not> is_type any then (None, tcbor_fail (c\<lparr>ctx_error := tcbor_NOT_MATCH\<rparr>) ctx)
          else (Some (conv any), c))"

definition tcbor_read_uint :: "memory \<Rightarrow> tcbor_context \<Rightarrow> u64 option \<times> tcbor_context" where
  "tcbor_read_uint = read_matching tcbor_is_uint any_value"

definition tcbor_read_nint :: "memory \<Rightarrow> tcbor_context \<Rightarrow> u64 option \<times> tcbor_context" where
  "tcbor_read_nint = read_matching tcbor_is_nint any_value"

text \<open>\<open>(int)v\<close> keeps the low 32 bits; converting back extends the sign.\<close>

definition tcbor_read_int :: "memory \<Rightarrow> tcbor_context \<Rightarrow> i32 option \<times> tcbor_context" where
  "tcbor_read_int m ctx =
     (case tcbor_read_uint m ctx of
        (Some v, c) \<Rightarrow>
          let r = (ucast v :: i32) in
          if (scast r :: u64) \<noteq> v then (None, tcbor_fail c ctx) else (Some r, c)
      | (None, c) \<Rightarrow>
          case tcbor_read_nint m c of
            (Some v, c) \<Rightarrow>
              let r = (ucast (NOT v) :: i32) in
              if (scast (NOT r) :: u64) \<noteq> v then (None, tcbor_fail c ctx) else (Some r, c)
          | (None, c) \<Rightarrow> (None, tcbor_fail (c\<lparr>ctx_error := tcbor_NOT_MATCH\<rparr>) ctx))"

definition tcbor_read_bstr :: "memory \<Rightarrow> tcbor_context \<Rightarrow> tcbor_range option \<times> tcbor_context" where
  "tcbor_read_bstr = read_matching tcbor_is_bstr any_bytes"

definition tcbor_read_tstr :: "memory \<Rightarrow> tcbor_context \<Rightarrow> tcbor_range option \<times> tcbor_context" where
  "tcbor_read_tstr = read_matching tcbor_is_tstr any_bytes"

text \<open>Reading an array or a map opens a child context at the position after the head.\<close>

definition tcbor_read_array :: "memory \<Rightarrow> tcbor_context \<Rightarrow> tcbor_context option \<times> tcbor_context" where
  "tcbor_read_array m ctx =
     (case read_matching tcbor_is_array any_value m ctx of
        (None, c) \<Rightarrow> (None, c)
      | (Some n, c) \<Rightarrow> (Some (tcbor_open c n), c))"

definition tcbor_read_map :: "memory \<Rightarrow> tcbor_context \<Rightarrow> tcbor_context option \<times> tcbor_context" where
  "tcbor_read_map m ctx =
     (case read_matching tcbor_is_map any_value m ctx of
        (None, c) \<Rightarrow> (None, c)
      | (Some n, c) \<Rightarrow>
          if n + n < n then (None, tcbor_fail (c\<lparr>ctx_error := tcbor_OVERFLOW\<rparr>) ctx)
          else (Some (tcbor_open c (n + n)), c))"

definition tcbor_read_null :: "memory \<Rightarrow> tcbor_context \<Rightarrow> unit option \<times> tcbor_context" where
  "tcbor_read_null = read_matching tcbor_is_null (\<lambda>_. ())"

definition tcbor_read_bool :: "memory \<Rightarrow> tcbor_context \<Rightarrow> bool option \<times> tcbor_context" where
  "tcbor_read_bool = read_matching tcbor_is_bool tcbor_is_true"

definition tcbor_read_tag :: "memory \<Rightarrow> tcbor_context \<Rightarrow> u64 option \<times> tcbor_context" where
  "tcbor_read_tag = read_matching tcbor_is_tag any_value"

section \<open>What the readers depend on\<close>

text \<open>
  Two memories that hold the same bytes in a range. A reader that cannot tell them apart
  never looks outside of its range.
\<close>

definition agree :: "memory \<Rightarrow> memory \<Rightarrow> tcbor_range \<Rightarrow> bool" where
  "agree m m' r \<longleftrightarrow> bytes_of m r = bytes_of m' r"

lemma length_bytes_of [simp]: "length (bytes_of m r) = span r"
  by (simp add: bytes_of_def)

lemma bytes_of_inside:
  assumes "inside r' r"
  shows "bytes_of m r' = take (span r') (drop (unat (rbegin r' - rbegin r)) (bytes_of m r))"
proof -
  let ?k = "unat (rbegin r' - rbegin r)"
  have le: "?k \<le> span r" "span r' \<le> span r - ?k" using assms by (auto simp: inside_def)
  have "rbegin r + of_nat ?k = rbegin r'" by simp
  then show ?thesis
    using le by (simp add: bytes_of_def drop_peek take_peek)
qed

lemma agree_inside: "agree m m' r \<Longrightarrow> inside r' r \<Longrightarrow> agree m m' r'"
  by (simp add: agree_def bytes_of_inside)

lemma agree_advances: "agree m m' r \<Longrightarrow> advances r r' \<Longrightarrow> agree m m' r'"
  by (blast intro: agree_inside advances_inside)

lemma bytes_of_advances:
  "advances r r' \<Longrightarrow> bytes_of m r' = drop (span r - span r') (bytes_of m r)"
  using bytes_of_inside [OF advances_inside, of r r' m] advances_offset [of r r']
  by (simp add: advances_def)

lemma agree_first: "agree m m' r \<Longrightarrow> rbegin r \<noteq> rend r \<Longrightarrow> m (rbegin r) = m' (rbegin r)"
  using unat_dist_pos [of "rbegin r" "rend r"]
  by (cases "span r") (auto simp: agree_def bytes_of_def span_def)

lemma agree_peek:
  "agree m m' \<lparr>rbegin = b, rend = e\<rparr> \<Longrightarrow> k + n \<le> unat (e - b) \<Longrightarrow>
     peek m (b + of_nat k) n = peek m' (b + of_nat k) n"
proof -
  assume "agree m m' \<lparr>rbegin = b, rend = e\<rparr>" and le: "k + n \<le> unat (e - b)"
  then have "take n (drop k (peek m b (unat (e - b)))) = take n (drop k (peek m' b (unat (e - b))))"
    by (simp add: agree_def bytes_of_def span_def)
  with le show ?thesis by (simp add: drop_peek take_peek)
qed

lemma read_primitive_local:
  assumes "agree m m' r"
  shows "tcbor_primitive_read_any m r = tcbor_primitive_read_any m' r"
proof (cases "rbegin r = rend r")
  case True
  then show ?thesis by (simp add: tcbor_primitive_read_any_def)
next
  case False
  obtain b e where r: "r = \<lparr>rbegin = b, rend = e\<rparr>" by (cases r)
  have hd: "m b = m' b" using agree_first [OF assms False] by (simp add: r)
  have "unat (e - (b + 1)) = unat (e - b) - 1" using False r by (simp add: unat_dist_step)
  then have pk: "n \<le> unat (e - (b + 1)) \<Longrightarrow> peek m (b + 1) n = peek m' (b + 1) n" for n
    using agree_peek [of m m' b e 1 n] assms unat_dist_pos [of b e] False by (simp add: r)
  then have "read_argument m e n 0 (b + 1) = read_argument m' e n 0 (b + 1)" for n
    by (simp add: read_argument_eq)
  then show ?thesis
    unfolding tcbor_primitive_read_any_def Let_def r tcbor_range.simps by (simp only: hd)
qed

lemma read_primitive_advances:
  "tcbor_primitive_read_any m r = (Some (a, r'), e) \<Longrightarrow> advances r r'"
  by (auto simp: advances_def dest: read_any_Some)

lemma skip_primitive_local:
  "agree m m' s \<Longrightarrow> tcbor_primitive_skip m s count e = tcbor_primitive_skip m' s count e"
proof (induction m s count e rule: tcbor_primitive_skip.induct)
  case (1 m s count e)
  show ?case
  proof (cases "tcbor_primitive_read_any m s")
    case (Pair x e1)
    show ?thesis
    proof (cases x)
      case None
      then show ?thesis
        using Pair read_primitive_local [OF "1.prems"]
        by (simp add: tcbor_primitive_skip.simps [of m s] tcbor_primitive_skip.simps [of m' s])
    next
      case (Some ar)
      obtain a t where ar: "ar = (a, t)" by (cases ar)
      have rd: "tcbor_primitive_read_any m s = (Some (a, t), e1)" using Pair Some ar by simp
      then have rd': "tcbor_primitive_read_any m' s = (Some (a, t), e1)"
        using read_primitive_local [OF "1.prems"] by simp
      have "agree m m' t"
        using "1.prems" rd by (blast intro: agree_advances read_primitive_advances)
      then show ?thesis
        unfolding tcbor_primitive_skip.simps [of m s] tcbor_primitive_skip.simps [of m' s]
        using "1.IH" rd rd' by (simp add: Let_def)
    qed
  qed
qed

section \<open>The contract of the readers\<close>

text \<open>
  What a client of \<^verbatim>\<open>teecbor.h\<close> relies on. A reader that fails leaves the position where it
  was. One that succeeds moves it forward by at least one byte, keeps the end of the input
  and the item count, and stores no error. It reads no byte outside of the context's range.
\<close>

locale item_reader =
  fixes rd :: "memory \<Rightarrow> tcbor_context \<Rightarrow> 'a option \<times> tcbor_context"
  assumes restores: "rd m c = (None, c') \<Longrightarrow>
      ctx_r c' = ctx_r c \<and> ctx_index c' = ctx_index c \<and> ctx_count c' = ctx_count c"
    and consumes: "rd m c = (Some v, c') \<Longrightarrow>
      rend (ctx_r c') = rend (ctx_r c) \<and> span (ctx_r c') < span (ctx_r c) \<and>
      ctx_count c' = ctx_count c \<and> ctx_error c' = tcbor_OK"
    and local: "agree m m' (ctx_r c) \<Longrightarrow> rd m c = rd m' c"
begin

lemma moves: "rd m c = (x, c') \<Longrightarrow> advances (ctx_r c) (ctx_r c') \<and> ctx_count c' = ctx_count c"
  using restores [of m c c'] consumes [of m c _ c'] by (cases x) (auto simp: advances_def)

lemma advances: "rd m c = (x, c') \<Longrightarrow> advances (ctx_r c) (ctx_r c')"
  and same_count: "rd m c = (x, c') \<Longrightarrow> ctx_count c' = ctx_count c"
  using moves by blast+

lemma shrinks: "rd m c = (Some v, c') \<Longrightarrow> span (ctx_r c') < span (ctx_r c)"
  using consumes by blast

lemma span_le: "rd m c = (x, c') \<Longrightarrow> span (ctx_r c') \<le> span (ctx_r c)"
  using advances by (auto simp: advances_def)

lemma agree_after: "rd m c = (x, c') \<Longrightarrow> agree m1 m2 (ctx_r c) \<Longrightarrow> agree m1 m2 (ctx_r c')"
  using advances agree_advances by blast

end

text \<open>Readers of a whole item also count it, and only when the context has one left.\<close>

definition ctx_wf :: "tcbor_context \<Rightarrow> bool" where
  "ctx_wf c \<longleftrightarrow> ctx_index c \<le> ctx_count c"

locale counted_reader = item_reader +
  assumes counts: "rd m c = (Some v, c') \<Longrightarrow>
      ctx_index c \<noteq> ctx_count c \<and> ctx_index c' = ctx_index c + 1"
begin

lemma keeps_wf: "rd m c = (x, c') \<Longrightarrow> ctx_wf c \<Longrightarrow> ctx_wf c'"
proof (cases x)
  case None
  assume "rd m c = (x, c')" and "ctx_wf c"
  then show "ctx_wf c'" using None restores by (auto simp: ctx_wf_def)
next
  case (Some v)
  assume "rd m c = (x, c')" and wf: "ctx_wf c"
  then have "ctx_index c < ctx_count c" "ctx_index c' = ctx_index c + 1" "ctx_count c' = ctx_count c"
    using Some counts consumes by (auto simp: ctx_wf_def order_less_le)
  then show "ctx_wf c'" by (simp add: ctx_wf_def inc_le)
qed

end

text \<open>Readers that return a range of the input, and readers that open a child context.\<close>

locale range_reader = counted_reader rd
  for rd :: "memory \<Rightarrow> tcbor_context \<Rightarrow> tcbor_range option \<times> tcbor_context" +
  assumes inside: "rd m c = (Some r, c') \<Longrightarrow> inside r (ctx_r c)"
begin

lemma inside_input: "rd m c = (Some r, c') \<Longrightarrow> inside (ctx_r c) b \<Longrightarrow> inside r b"
  using inside inside_trans by blast

end

locale container_reader = counted_reader rd
  for rd :: "memory \<Rightarrow> tcbor_context \<Rightarrow> tcbor_context option \<times> tcbor_context" +
  assumes opens: "rd m c = (Some child, c') \<Longrightarrow>
      ctx_r child = ctx_r c' \<and> ctx_index child = 0 \<and> ctx_error child = tcbor_OK"
begin

lemma child_wf: "rd m c = (Some child, c') \<Longrightarrow> ctx_wf child"
  using opens by (simp add: ctx_wf_def)

lemma child_advances: "rd m c = (Some child, c') \<Longrightarrow> advances (ctx_r c) (ctx_r child)"
  using opens advances by metis

end

section \<open>The readers meet the contract\<close>

lemma read_any_cases:
  assumes "tcbor_read_any m c = (x, c')"
  obtains (Fail) e where "x = None" "c' = c\<lparr>ctx_error := e\<rparr>"
  | (Ok) a r where "x = Some a" "ctx_index c \<noteq> ctx_count c"
      "tcbor_primitive_read_any m (ctx_r c) = (Some (a, r), tcbor_OK)"
      "c' = c\<lparr>ctx_r := r, ctx_error := tcbor_OK,
              ctx_index := (if tcbor_is_tag a then ctx_index c else ctx_index c + 1)\<rparr>"
  using assms
  by (auto simp: tcbor_read_any_def tcbor_is_end_of_context_def split: if_splits prod.splits option.splits
      dest: read_any_Some(1))

interpretation any: item_reader tcbor_read_any
proof
  fix m c c' x v m'
  show "tcbor_read_any m c = (None, c') \<Longrightarrow>
      ctx_r c' = ctx_r c \<and> ctx_index c' = ctx_index c \<and> ctx_count c' = ctx_count c"
    by (erule read_any_cases) auto
  show "tcbor_read_any m c = (Some v, c') \<Longrightarrow>
      rend (ctx_r c') = rend (ctx_r c) \<and> span (ctx_r c') < span (ctx_r c) \<and>
      ctx_count c' = ctx_count c \<and> ctx_error c' = tcbor_OK"
    by (erule read_any_cases) (auto dest: read_any_Some)
  show "agree m m' (ctx_r c) \<Longrightarrow> tcbor_read_any m c = tcbor_read_any m' c"
    by (simp add: tcbor_read_any_def read_primitive_local)
qed

lemma read_any_counts:
  "tcbor_read_any m c = (Some a, c') \<Longrightarrow> \<not> tcbor_is_tag a \<Longrightarrow>
     ctx_index c \<noteq> ctx_count c \<and> ctx_index c' = ctx_index c + 1"
  by (erule read_any_cases) auto

lemma read_any_wf: "tcbor_read_any m c = (x, c') \<Longrightarrow> ctx_wf c \<Longrightarrow> ctx_wf c'"
  by (erule read_any_cases) (auto simp: ctx_wf_def order_less_le inc_le)

lemma read_any_inside:
  "tcbor_read_any m c = (Some a, c') \<Longrightarrow> tcbor_is_bstr a \<or> tcbor_is_tstr a \<Longrightarrow>
     inside (any_bytes a) (ctx_r c)"
  by (erule read_any_cases) (auto dest: read_any_Some)

lemma read_matching_cases:
  assumes "read_matching is_type conv m c = (x, c')"
  obtains (Fail) "x = None" "ctx_r c' = ctx_r c" "ctx_index c' = ctx_index c" "ctx_count c' = ctx_count c"
  | (Ok) a where "x = Some (conv a)" "is_type a" "tcbor_read_any m c = (Some a, c')"
  using assms by (auto simp: read_matching_def tcbor_fail_def split: prod.splits option.splits if_splits)

lemma read_matching_item: "item_reader (read_matching is_type conv)"
proof
  fix m c c' v m'
  show "read_matching is_type conv m c = (None, c') \<Longrightarrow>
      ctx_r c' = ctx_r c \<and> ctx_index c' = ctx_index c \<and> ctx_count c' = ctx_count c"
    by (erule read_matching_cases) auto
  show "read_matching is_type conv m c = (Some v, c') \<Longrightarrow>
      rend (ctx_r c') = rend (ctx_r c) \<and> span (ctx_r c') < span (ctx_r c) \<and>
      ctx_count c' = ctx_count c \<and> ctx_error c' = tcbor_OK"
    by (erule read_matching_cases) (auto dest: any.consumes)
  show "agree m m' (ctx_r c) \<Longrightarrow> read_matching is_type conv m c = read_matching is_type conv m' c"
    using any.local [of m m' c] by (simp add: read_matching_def)
qed

lemma read_matching_counted:
  assumes "\<And>a. is_type a \<Longrightarrow> \<not> tcbor_is_tag a"
  shows "counted_reader (read_matching is_type conv)"
  by (intro counted_reader.intro counted_reader_axioms.intro read_matching_item)
    (use assms in \<open>auto elim!: read_matching_cases dest: read_any_counts\<close>)

lemmas major_defs = tcbor_is_uint_def tcbor_is_nint_def tcbor_is_bstr_def tcbor_is_tstr_def
  tcbor_is_array_def tcbor_is_map_def tcbor_is_tag_def tcbor_is_simple_def tcbor_is_false_def
  tcbor_is_true_def tcbor_is_bool_def tcbor_is_null_def

interpretation uint: counted_reader tcbor_read_uint
  unfolding tcbor_read_uint_def by (rule read_matching_counted) (simp add: major_defs)

interpretation nint: counted_reader tcbor_read_nint
  unfolding tcbor_read_nint_def by (rule read_matching_counted) (simp add: major_defs)

interpretation null: counted_reader tcbor_read_null
  unfolding tcbor_read_null_def by (rule read_matching_counted) (auto simp: major_defs)

interpretation bool: counted_reader tcbor_read_bool
  unfolding tcbor_read_bool_def by (rule read_matching_counted) (auto simp: major_defs)

interpretation tag: item_reader tcbor_read_tag
  unfolding tcbor_read_tag_def by (rule read_matching_item)

interpretation bstr: range_reader tcbor_read_bstr
  unfolding tcbor_read_bstr_def
  by (intro range_reader.intro range_reader_axioms.intro read_matching_counted)
    (auto simp: major_defs elim!: read_matching_cases dest: read_any_inside)

interpretation tstr: range_reader tcbor_read_tstr
  unfolding tcbor_read_tstr_def
  by (intro range_reader.intro range_reader_axioms.intro read_matching_counted)
    (auto simp: major_defs elim!: read_matching_cases dest: read_any_inside)

text \<open>The two container readers, whose bodies go on after the head is read.\<close>

lemma array_head: "counted_reader (read_matching tcbor_is_array any_value)"
  by (rule read_matching_counted) (simp add: major_defs)

lemma map_head: "counted_reader (read_matching tcbor_is_map any_value)"
  by (rule read_matching_counted) (simp add: major_defs)

lemma read_array_cases:
  assumes "tcbor_read_array m c = (x, c')"
  obtains (Fail) "x = None" "read_matching tcbor_is_array any_value m c = (None, c')"
  | (Ok) n where "x = Some (tcbor_open c' n)" "read_matching tcbor_is_array any_value m c = (Some n, c')"
  using assms by (auto simp: tcbor_read_array_def split: prod.splits option.splits)

lemma read_map_cases:
  assumes "tcbor_read_map m c = (x, c')"
  obtains (Fail) "x = None" "ctx_r c' = ctx_r c" "ctx_index c' = ctx_index c" "ctx_count c' = ctx_count c"
  | (Ok) n where "x = Some (tcbor_open c' (n + n))" "read_matching tcbor_is_map any_value m c = (Some n, c')"
      "n \<le> n + n"
  using assms item_reader.restores [OF read_matching_item, of tcbor_is_map any_value m c]
  by (auto simp: tcbor_read_map_def tcbor_fail_def split: prod.splits option.splits if_splits)

interpretation array: container_reader tcbor_read_array
proof -
  note H = array_head [unfolded counted_reader_def counted_reader_axioms_def item_reader_def]
  show "container_reader tcbor_read_array"
    unfolding container_reader_def counted_reader_def counted_reader_axioms_def item_reader_def
      container_reader_axioms_def
    using H by (auto simp: tcbor_read_array_def tcbor_open_def split: prod.splits option.splits)
qed

interpretation map: container_reader tcbor_read_map
proof
  fix m c c' v m'
  show "tcbor_read_map m c = (None, c') \<Longrightarrow>
      ctx_r c' = ctx_r c \<and> ctx_index c' = ctx_index c \<and> ctx_count c' = ctx_count c"
    by (erule read_map_cases) auto
  show "tcbor_read_map m c = (Some v, c') \<Longrightarrow>
      rend (ctx_r c') = rend (ctx_r c) \<and> span (ctx_r c') < span (ctx_r c) \<and>
      ctx_count c' = ctx_count c \<and> ctx_error c' = tcbor_OK"
    by (erule read_map_cases) (auto dest: item_reader.consumes [OF read_matching_item])
  show "agree m m' (ctx_r c) \<Longrightarrow> tcbor_read_map m c = tcbor_read_map m' c"
    by (simp add: tcbor_read_map_def item_reader.local [OF read_matching_item, of m m'])
  show "tcbor_read_map m c = (Some v, c') \<Longrightarrow> ctx_index c \<noteq> ctx_count c \<and> ctx_index c' = ctx_index c + 1"
    by (erule read_map_cases) (auto dest: counted_reader.counts [OF map_head])
  show "tcbor_read_map m c = (Some v, c') \<Longrightarrow>
      ctx_r v = ctx_r c' \<and> ctx_index v = 0 \<and> ctx_error v = tcbor_OK"
    by (erule read_map_cases) (auto simp: tcbor_open_def)
qed

text \<open>\<open>tcbor_read_int\<close> tries the two integer types in turn.\<close>

lemma read_int_cases:
  assumes "tcbor_read_int m c = (x, c')"
  obtains (Fail) "x = None" "ctx_r c' = ctx_r c" "ctx_index c' = ctx_index c" "ctx_count c' = ctx_count c"
  | (Uint) v where "x = Some (ucast v)" "(scast (ucast v :: i32) :: u64) = v"
      "tcbor_read_uint m c = (Some v, c')"
  | (Nint) v d where "x = Some (ucast (NOT v))" "(scast (NOT (ucast (NOT v) :: i32)) :: u64) = v"
      "tcbor_read_uint m c = (None, d)" "tcbor_read_nint m d = (Some v, c')"
  using assms by (auto simp: tcbor_read_int_def tcbor_fail_def Let_def split: prod.splits option.splits if_splits)

interpretation int: counted_reader tcbor_read_int
proof
  fix m c c' v m'
  show "tcbor_read_int m c = (None, c') \<Longrightarrow>
      ctx_r c' = ctx_r c \<and> ctx_index c' = ctx_index c \<and> ctx_count c' = ctx_count c"
    by (erule read_int_cases) auto
  show "tcbor_read_int m c = (Some v, c') \<Longrightarrow>
      rend (ctx_r c') = rend (ctx_r c) \<and> span (ctx_r c') < span (ctx_r c) \<and>
      ctx_count c' = ctx_count c \<and> ctx_error c' = tcbor_OK"
    by (erule read_int_cases) (auto dest!: uint.consumes nint.consumes uint.restores)
  show "tcbor_read_int m c = (Some v, c') \<Longrightarrow> ctx_index c \<noteq> ctx_count c \<and> ctx_index c' = ctx_index c + 1"
    by (erule read_int_cases) (auto dest!: uint.counts nint.counts uint.restores)
  assume ag: "agree m m' (ctx_r c)"
  obtain x d where u: "tcbor_read_uint m c = (x, d)" by (cases "tcbor_read_uint m c")
  then have "tcbor_read_uint m' c = (x, d)" "tcbor_read_nint m d = tcbor_read_nint m' d"
    using uint.local [OF ag] nint.local uint.agree_after [OF u ag] by auto
  with u show "tcbor_read_int m c = tcbor_read_int m' c"
    by (cases x) (simp_all add: tcbor_read_int_def)
qed

section \<open>Skipping in a context, and whole subobjects\<close>

lemma skip_cases:
  assumes "tcbor_skip m c n = (b, c')"
  obtains (Fail) e where "\<not> b" "c' = c\<lparr>ctx_error := e\<rparr>"
  | (Ok) r e where "b" "n \<le> ctx_count c - ctx_index c"
      "tcbor_primitive_skip m (ctx_r c) n (ctx_error c) = (Some r, e)"
      "c' = c\<lparr>ctx_r := r, ctx_error := e, ctx_index := ctx_index c + n\<rparr>"
  using assms by (auto simp: tcbor_skip_def not_less split: if_splits prod.splits option.splits)

lemma skip_moves: "tcbor_skip m c n = (b, c') \<Longrightarrow> advances (ctx_r c) (ctx_r c') \<and> ctx_count c' = ctx_count c"
  by (erule skip_cases) (auto dest: skip_advances)

lemma skip_wf: "tcbor_skip m c n = (b, c') \<Longrightarrow> ctx_wf c \<Longrightarrow> ctx_wf c'"
proof (erule skip_cases)
  fix r e assume "ctx_wf c" "n \<le> ctx_count c - ctx_index c"
    "c' = c\<lparr>ctx_r := r, ctx_error := e, ctx_index := ctx_index c + n\<rparr>"
  then show "ctx_wf c'" by (auto simp: ctx_wf_def word_le_nat_alt unat_sub unat_plus_if')
qed (simp add: ctx_wf_def)

lemma skip_shrinks: "tcbor_skip m c n = (True, c') \<Longrightarrow> n \<noteq> 0 \<Longrightarrow> span (ctx_r c') < span (ctx_r c)"
  by (erule skip_cases) (auto dest: skip_advances)

lemma skip_local: "agree m m' (ctx_r c) \<Longrightarrow> tcbor_skip m c n = tcbor_skip m' c n"
  by (simp add: tcbor_skip_def skip_primitive_local [of m m'])

lemma skip_all_end: "tcbor_skip_all m c = (True, c') \<Longrightarrow> tcbor_is_end_of_context c'"
  unfolding tcbor_skip_all_def
  by (erule skip_cases) (auto simp: tcbor_is_end_of_context_def)

lemma subobject_cases:
  assumes "tcbor_read_subobject m c = (x, c')"
  obtains (Fail) "x = None" "tcbor_skip m c 1 = (False, c')"
  | (Ok) "x = Some \<lparr>rbegin = rbegin (ctx_r c), rend = rbegin (ctx_r c')\<rparr>" "tcbor_skip m c 1 = (True, c')"
  using assms by (auto simp: tcbor_read_subobject_def split: prod.splits bool.splits)

lemma inside_prefix:
  assumes "advances r r'"
  shows "inside \<lparr>rbegin = rbegin r, rend = rbegin r'\<rparr> r"
    and "span \<lparr>rbegin = rbegin r, rend = rbegin r'\<rparr> = span r - span r'"
  using advances_offset [OF assms] by (auto simp: inside_def span_def)

interpretation subobject: range_reader tcbor_read_subobject
proof
  fix m c c' v m' r
  show "tcbor_read_subobject m c = (None, c') \<Longrightarrow>
      ctx_r c' = ctx_r c \<and> ctx_index c' = ctx_index c \<and> ctx_count c' = ctx_count c"
    by (erule subobject_cases) (auto elim: skip_cases)
  show "tcbor_read_subobject m c = (Some v, c') \<Longrightarrow>
      rend (ctx_r c') = rend (ctx_r c) \<and> span (ctx_r c') < span (ctx_r c) \<and>
      ctx_count c' = ctx_count c \<and> ctx_error c' = tcbor_OK"
    by (erule subobject_cases) (auto elim!: skip_cases dest: skip_advances simp: advances_def)
  show "agree m m' (ctx_r c) \<Longrightarrow> tcbor_read_subobject m c = tcbor_read_subobject m' c"
    by (simp add: tcbor_read_subobject_def skip_local [of m m'])
  show "tcbor_read_subobject m c = (Some v, c') \<Longrightarrow>
      ctx_index c \<noteq> ctx_count c \<and> ctx_index c' = ctx_index c + 1"
    by (erule subobject_cases) (auto elim!: skip_cases)
  show "tcbor_read_subobject m c = (Some r, c') \<Longrightarrow> inside r (ctx_r c)"
    by (erule subobject_cases) (auto dest: skip_moves inside_prefix)
qed

end
