(* ===== verification/Suit_Manifest.thy ===== *)
theory Suit_Manifest
  imports Tcbor
begin

text \<open>
  The SUIT data model of \<^verbatim>\<open>lib/include/teesuit.h\<close> and the manifest parser of
  \<^verbatim>\<open>lib/suit/lib/suit-parser.c\<close>. Output structures are passed in and returned, on failure too,
  because the code has then already written part of them.
\<close>

unbundle bit_operations_syntax

section \<open>Labels\<close>

abbreviation (input) SUIT_DELEGATION :: u64 where "SUIT_DELEGATION \<equiv> 1"
abbreviation (input) SUIT_AUTHENTICATION_WRAPPER :: u64 where "SUIT_AUTHENTICATION_WRAPPER \<equiv> 2"
abbreviation (input) SUIT_MANIFEST :: u64 where "SUIT_MANIFEST \<equiv> 3"
abbreviation (input) SUIT_MANIFEST_VERSION :: u64 where "SUIT_MANIFEST_VERSION \<equiv> 1"
abbreviation (input) SUIT_MANIFEST_SEQUENCE_NUMBER :: u64 where "SUIT_MANIFEST_SEQUENCE_NUMBER \<equiv> 2"
abbreviation (input) SUIT_COMMON :: u64 where "SUIT_COMMON \<equiv> 3"
abbreviation (input) SUIT_REFERENCE_URI :: u64 where "SUIT_REFERENCE_URI \<equiv> 4"
abbreviation (input) SUIT_DEPENDENCY_RESOLUTION :: u64 where "SUIT_DEPENDENCY_RESOLUTION \<equiv> 7"
abbreviation (input) SUIT_PAYLOAD_FETCH :: u64 where "SUIT_PAYLOAD_FETCH \<equiv> 8"
abbreviation (input) SUIT_INSTALL :: u64 where "SUIT_INSTALL \<equiv> 9"
abbreviation (input) SUIT_VALIDATE :: u64 where "SUIT_VALIDATE \<equiv> 10"
abbreviation (input) SUIT_LOAD :: u64 where "SUIT_LOAD \<equiv> 11"
abbreviation (input) SUIT_RUN :: u64 where "SUIT_RUN \<equiv> 12"
abbreviation (input) SUIT_TEXT :: u64 where "SUIT_TEXT \<equiv> 13"
abbreviation (input) SUIT_COSWID :: u64 where "SUIT_COSWID \<equiv> 14"
abbreviation (input) SUIT_DEPENDENCIES :: u64 where "SUIT_DEPENDENCIES \<equiv> 1"
abbreviation (input) SUIT_COMPONENTS :: u64 where "SUIT_COMPONENTS \<equiv> 2"
abbreviation (input) SUIT_COMMON_SEQUENCE :: u64 where "SUIT_COMMON_SEQUENCE \<equiv> 4"

definition SUIT_COMPONENT_MAX :: nat where "SUIT_COMPONENT_MAX = 8"
definition SUIT_DEPENDENCY_MAX :: nat where "SUIT_DEPENDENCY_MAX = 8"
definition SUIT_COMPONENT_ID_LEN :: nat where "SUIT_COMPONENT_ID_LEN = 8"

lemmas suit_limits = SUIT_COMPONENT_MAX_def SUIT_DEPENDENCY_MAX_def

section \<open>Structures\<close>

record suit_digest =
  algorithm_id :: i32
  digest_bytes :: tcbor_range

text \<open>
  The union of \<open>suit_severable\<close> is kept as the three machine words it occupies (LP64, little
  endian): \<open>body\<close> is words 0 and 1; \<open>digest\<close> has \<open>algorithm_id\<close> in the low half of word 0 and
  its bytes in words 1 and 2. The code reads \<open>body\<close> without looking at \<open>severed\<close>, so the
  overlap is visible.
\<close>

record suit_severable =
  has_value :: bool
  severed :: bool
  u_word0 :: u64
  u_word1 :: u64
  u_word2 :: u64

definition sev_body :: "suit_severable \<Rightarrow> tcbor_range" where
  "sev_body s = \<lparr>rbegin = u_word0 s, rend = u_word1 s\<rparr>"

definition sev_put_body :: "tcbor_range \<Rightarrow> suit_severable \<Rightarrow> suit_severable" where
  "sev_put_body r s = s\<lparr>u_word0 := rbegin r, u_word1 := rend r\<rparr>"

definition sev_digest :: "suit_severable \<Rightarrow> suit_digest" where
  "sev_digest s =
     \<lparr>algorithm_id = ucast (u_word0 s), digest_bytes = \<lparr>rbegin = u_word1 s, rend = u_word2 s\<rparr>\<rparr>"

definition sev_put_digest :: "suit_digest \<Rightarrow> suit_severable \<Rightarrow> suit_severable" where
  "sev_put_digest d s =
     s\<lparr>u_word0 := (u_word0 s AND NOT 0xFFFFFFFF) OR ucast (algorithm_id d),
       u_word1 := rbegin (digest_bytes d), u_word2 := rend (digest_bytes d)\<rparr>"

record suit_component =
  id_cbor :: tcbor_range

record suit_dependency =
  dep_digest :: suit_digest
  prefix_len :: nat
  dep_prefix :: "tcbor_range list"

record suit_common =
  n_dependencies :: nat
  dependencies :: "suit_dependency list"
  n_components :: nat
  components :: "suit_component list"
  command_sequence :: tcbor_range

record suit_manifest =
  man_envelope_bstr :: tcbor_range
  man_binary :: tcbor_range
  man_version :: u64
  man_sequence_number :: u64
  man_common_bstr :: tcbor_range
  man_common :: suit_common
  man_reference_uri :: tcbor_range
  man_dependency_resolution :: suit_severable
  man_payload_fetch :: suit_severable
  man_install :: suit_severable
  man_text :: suit_severable
  man_coswid :: suit_severable
  man_validate :: tcbor_range
  man_load :: tcbor_range
  man_run :: tcbor_range

text \<open>All bytes zero, as \<open>memset\<close> leaves them.\<close>

definition zero_severable :: suit_severable where
  "zero_severable = \<lparr>has_value = False, severed = False, u_word0 = 0, u_word1 = 0, u_word2 = 0\<rparr>"

definition zero_common :: suit_common where
  "zero_common =
     \<lparr>n_dependencies = 0,
      dependencies = replicate SUIT_DEPENDENCY_MAX
        \<lparr>dep_digest = \<lparr>algorithm_id = 0, digest_bytes = tcbor_range_null\<rparr>, prefix_len = 0,
         dep_prefix = replicate SUIT_COMPONENT_ID_LEN tcbor_range_null\<rparr>,
      n_components = 0, components = replicate SUIT_COMPONENT_MAX \<lparr>id_cbor = tcbor_range_null\<rparr>,
      command_sequence = tcbor_range_null\<rparr>"

definition zero_manifest :: suit_manifest where
  "zero_manifest =
     \<lparr>man_envelope_bstr = tcbor_range_null, man_binary = tcbor_range_null, man_version = 0,
      man_sequence_number = 0, man_common_bstr = tcbor_range_null, man_common = zero_common,
      man_reference_uri = tcbor_range_null, man_dependency_resolution = zero_severable,
      man_payload_fetch = zero_severable, man_install = zero_severable, man_text = zero_severable,
      man_coswid = zero_severable, man_validate = tcbor_range_null, man_load = tcbor_range_null,
      man_run = tcbor_range_null\<rparr>"

section \<open>Pieces of a manifest\<close>

definition match_key :: "memory \<Rightarrow> tcbor_context \<Rightarrow> u64 \<Rightarrow> bool \<times> tcbor_context" where
  "match_key m ctx key =
     (case tcbor_read_uint m ctx of
        (None, c) \<Rightarrow> (False, tcbor_fail c ctx)
      | (Some k, c) \<Rightarrow> if k \<noteq> key then (False, tcbor_fail c ctx) else (True, c))"

definition read_key_and_uint :: "memory \<Rightarrow> u64 \<Rightarrow> tcbor_context \<Rightarrow> u64 option \<times> tcbor_context" where
  "read_key_and_uint m key ctx =
     (case match_key m ctx key of
        (False, c) \<Rightarrow> (None, tcbor_fail c ctx)
      | (True, c) \<Rightarrow>
          case tcbor_read_uint m c of
            (None, c) \<Rightarrow> (None, tcbor_fail c ctx)
          | (Some v, c) \<Rightarrow> (Some v, c))"

definition read_key_and_bstr :: "memory \<Rightarrow> u64 \<Rightarrow> tcbor_context \<Rightarrow> tcbor_range option \<times> tcbor_context" where
  "read_key_and_bstr m key ctx =
     (case match_key m ctx key of
        (False, c) \<Rightarrow> (None, tcbor_fail c ctx)
      | (True, c) \<Rightarrow>
          case tcbor_read_bstr m c of
            (None, c) \<Rightarrow> (None, tcbor_fail c ctx)
          | (Some v, c) \<Rightarrow> (Some v, c))"

definition read_digest ::
    "memory \<Rightarrow> tcbor_context \<Rightarrow> suit_digest \<Rightarrow> bool \<times> tcbor_context \<times> suit_digest" where
  "read_digest m ctx d =
     (case tcbor_read_array m ctx of
        (None, c) \<Rightarrow> (False, c, d)
      | (Some array, c) \<Rightarrow>
          case tcbor_read_int m array of
            (None, array) \<Rightarrow> (False, c, d)
          | (Some alg, array) \<Rightarrow>
              let d = d\<lparr>algorithm_id := alg\<rparr> in
              case tcbor_read_bstr m array of
                (None, array) \<Rightarrow> (False, c, d)
              | (Some bs, array) \<Rightarrow>
                  let d = d\<lparr>digest_bytes := bs\<rparr> in
                  case tcbor_skip_all m array of
                    (False, array) \<Rightarrow> (False, c, d)
                  | (True, array) \<Rightarrow>
                      case tcbor_close c array of (ok, c) \<Rightarrow> (ok, c, d))"

definition read_severed ::
    "memory \<Rightarrow> tcbor_context \<Rightarrow> suit_severable \<Rightarrow> bool \<times> tcbor_context \<times> suit_severable" where
  "read_severed m ctx s =
     (case tcbor_read_bstr m ctx of
        (Some body, c) \<Rightarrow> (True, c, (sev_put_body body s)\<lparr>has_value := True, severed := False\<rparr>)
      | (None, c) \<Rightarrow>
          case read_digest m c (sev_digest s) of
            (True, c, d) \<Rightarrow> (True, c, (sev_put_digest d s)\<lparr>has_value := True, severed := True\<rparr>)
          | (False, c, d) \<Rightarrow> (False, c, sev_put_digest d s))"

definition read_component ::
    "memory \<Rightarrow> tcbor_context \<Rightarrow> suit_component \<Rightarrow> bool \<times> tcbor_context \<times> suit_component" where
  "read_component m ctx cp =
     (case tcbor_read_subobject m ctx of
        (None, c) \<Rightarrow> (False, c, cp)
      | (Some r, c) \<Rightarrow> (True, c, cp\<lparr>id_cbor := r\<rparr>))"

text \<open>The dependency itself is only skipped; the structure it should fill is left alone.\<close>

definition read_dependency :: "memory \<Rightarrow> tcbor_context \<Rightarrow> bool \<times> tcbor_context" where
  "read_dependency m ctx =
     (case tcbor_read_map m ctx of
        (None, c) \<Rightarrow> (False, c)
      | (Some mp, c) \<Rightarrow>
          case tcbor_skip_all m mp of
            (False, mp) \<Rightarrow> (False, c)
          | (True, mp) \<Rightarrow> tcbor_close c mp)"

section \<open>What the pieces consume\<close>

lemma match_key_cases:
  assumes "match_key m c key = (b, c')"
  obtains (Fail) "\<not> b" "ctx_r c' = ctx_r c" "ctx_index c' = ctx_index c" "ctx_count c' = ctx_count c"
  | (Ok) "b" "tcbor_read_uint m c = (Some key, c')"
  using assms by (auto simp: match_key_def tcbor_fail_def split: prod.splits option.splits if_splits)

lemma read_digest_cases:
  assumes "read_digest m c d = (b, c', d')"
  obtains (Fail) "\<not> b" "advances (ctx_r c) (ctx_r c')" "ctx_count c' = ctx_count c"
  | (Ok) array c1 array1 array2 array3 alg bs where
      "b" "tcbor_read_array m c = (Some array, c1)" "tcbor_read_int m array = (Some alg, array1)"
      "tcbor_read_bstr m array1 = (Some bs, array2)" "tcbor_skip_all m array2 = (True, array3)"
      "c' = c1\<lparr>ctx_r := ctx_r array3\<rparr>" "d' = \<lparr>algorithm_id = alg, digest_bytes = bs\<rparr>"
  using assms
  by (cases d) (auto simp: read_digest_def Let_def tcbor_close_def dest: array.moves skip_all_end
      split: prod.splits option.splits bool.splits if_splits)

lemma skip_all_moves:
  "tcbor_skip_all m c = (b, c') \<Longrightarrow> advances (ctx_r c) (ctx_r c') \<and> ctx_count c' = ctx_count c"
  unfolding tcbor_skip_all_def by (rule skip_moves)

lemma read_digest_moves:
  assumes "read_digest m c d = (b, c', d')"
  shows "advances (ctx_r c) (ctx_r c') \<and> ctx_count c' = ctx_count c"
  using assms
proof (cases rule: read_digest_cases)
  case (Ok array c1 array1 array2 array3 alg bs)
  have n: "ctx_count c1 = ctx_count c" using Ok(2) by (auto dest: array.moves)
  have "advances (ctx_r c) (ctx_r array)" using Ok(2) by (rule array.child_advances)
  also have "advances (ctx_r array) (ctx_r array1)" using Ok(3) by (rule int.advances)
  also have "advances (ctx_r array1) (ctx_r array2)" using Ok(4) by (rule bstr.advances)
  also have "advances (ctx_r array2) (ctx_r array3)" using Ok(5) by (auto dest: skip_all_moves)
  finally show ?thesis using Ok(6) n by simp
qed simp

lemma read_digest_inside:
  assumes "read_digest m c d = (True, c', d')"
  shows "inside (digest_bytes d') (ctx_r c)"
  using assms
proof (cases rule: read_digest_cases)
  case (Ok array c1 array1 array2 array3 alg bs)
  have "inside bs (ctx_r array1)" using Ok(4) by (rule bstr.inside)
  also have "inside (ctx_r array1) (ctx_r array)" using Ok(3) by (intro advances_inside int.advances)
  also have "inside (ctx_r array) (ctx_r c)" using Ok(2) by (intro advances_inside array.child_advances)
  finally show ?thesis using Ok(7) by simp
qed simp

lemma read_digest_local:
  assumes ag: "agree m m' (ctx_r c)"
  shows "read_digest m c d = read_digest m' c d"
proof (cases "tcbor_read_array m c")
  case (Pair x c1)
  have r: "tcbor_read_array m' c = (x, c1)" using array.local [OF ag] Pair by simp
  show ?thesis
  proof (cases x)
    case None
    then show ?thesis using Pair r by (simp add: read_digest_def)
  next
    case (Some arr)
    have aa: "agree m m' (ctx_r arr)"
      using ag array.child_advances [of m c arr c1] Pair Some by (blast intro: agree_advances)
    obtain y arr1 where int: "tcbor_read_int m arr = (y, arr1)" by (cases "tcbor_read_int m arr")
    have a1: "agree m m' (ctx_r arr1)" using int.agree_after [OF int aa] .
    obtain z arr2 where bs: "tcbor_read_bstr m arr1 = (z, arr2)" by (cases "tcbor_read_bstr m arr1")
    have a2: "agree m m' (ctx_r arr2)" using bstr.agree_after [OF bs a1] .
    have "tcbor_read_int m' arr = (y, arr1)" "tcbor_read_bstr m' arr1 = (z, arr2)"
      "tcbor_skip_all m' arr2 = tcbor_skip_all m arr2"
      using int.local [OF aa] bstr.local [OF a1] skip_local [OF a2] int bs by (simp_all add: tcbor_skip_all_def)
    then show ?thesis
      using Pair r Some int bs by (simp add: read_digest_def Let_def split: option.splits)
  qed
qed

lemma read_severed_cases:
  assumes "read_severed m c s = (b, c', s')"
  obtains (Body) body where "b" "tcbor_read_bstr m c = (Some body, c')"
      "s' = (sev_put_body body s)\<lparr>has_value := True, severed := False\<rparr>"
  | (Digest) c1 d where "b" "tcbor_read_bstr m c = (None, c1)"
      "read_digest m c1 (sev_digest s) = (True, c', d)"
      "s' = (sev_put_digest d s)\<lparr>has_value := True, severed := True\<rparr>"
  | (Fail) c1 d where "\<not> b" "tcbor_read_bstr m c = (None, c1)"
      "read_digest m c1 (sev_digest s) = (False, c', d)" "s' = sev_put_digest d s"
  using assms by (auto simp: read_severed_def split: prod.splits option.splits bool.splits)

lemma read_severed_moves:
  assumes "read_severed m c s = (b, c', s')"
  shows "advances (ctx_r c) (ctx_r c') \<and> ctx_count c' = ctx_count c"
  using assms
proof (cases rule: read_severed_cases)
  case (Body body)
  then show ?thesis by (simp add: bstr.moves)
next
  case (Digest c1 d)
  show ?thesis using bstr.moves [OF Digest(2)] read_digest_moves [OF Digest(3)] by (auto intro: advances_trans)
next
  case (Fail c1 d)
  show ?thesis using bstr.moves [OF Fail(2)] read_digest_moves [OF Fail(3)] by (auto intro: advances_trans)
qed

lemma read_severed_local:
  assumes ag: "agree m m' (ctx_r c)"
  shows "read_severed m c s = read_severed m' c s"
proof -
  obtain x c1 where bs: "tcbor_read_bstr m c = (x, c1)" by (cases "tcbor_read_bstr m c")
  have "tcbor_read_bstr m' c = (x, c1)" and a1: "agree m m' (ctx_r c1)"
    using bstr.local [OF ag] bstr.agree_after [OF bs ag] bs by simp_all
  then show ?thesis using bs read_digest_local [OF a1] by (simp add: read_severed_def split: option.splits)
qed

text \<open>The overlap of the union: writing one member and reading it back gives it again.\<close>

lemma sev_body_put [simp]: "sev_body (sev_put_body r s) = r"
  by (simp add: sev_body_def sev_put_body_def)

lemma low_half: "(ucast ((w AND NOT 0xFFFFFFFF) OR ucast a) :: i32) = a" for w :: u64 and a :: i32
proof (rule bit_word_eqI)
  fix n assume n: "n < LENGTH(32)"
  have "bit (0xFFFFFFFF :: u64) n"
  proof -
    have e: "(0xFFFFFFFF :: u64) = mask 32" by (simp add: mask_eq_exp_minus_1)
    show ?thesis using n by (simp only: e bit_mask_iff) simp
  qed
  then show "bit (ucast ((w AND NOT 0xFFFFFFFF) OR ucast a) :: i32) n \<longleftrightarrow> bit a n"
    using n by (simp add: bit_simps)
qed

lemma sev_digest_put [simp]: "sev_digest (sev_put_digest d s) = d"
  by (simp add: sev_digest_def sev_put_digest_def low_half [simplified])

lemma sev_update_simps [simp]:
  "sev_body (s\<lparr>has_value := h\<rparr>) = sev_body s" "sev_body (s\<lparr>severed := v\<rparr>) = sev_body s"
  "sev_digest (s\<lparr>has_value := h\<rparr>) = sev_digest s" "sev_digest (s\<lparr>severed := v\<rparr>) = sev_digest s"
  by (simp_all add: sev_body_def sev_digest_def)

text \<open>The elements of the two arrays of \<open>suit_common\<close>: each takes at least one byte.\<close>

lemma read_dependency_moves:
  assumes "read_dependency m c = (b, c')"
  shows "advances (ctx_r c) (ctx_r c') \<and> ctx_count c' = ctx_count c \<and>
    (b \<longrightarrow> span (ctx_r c') < span (ctx_r c))"
proof -
  obtain x c1 where mp: "tcbor_read_map m c = (x, c1)" by (cases "tcbor_read_map m c")
  show ?thesis
  proof (cases x)
    case None
    then show ?thesis using assms mp map.moves [OF mp] by (simp add: read_dependency_def)
  next
    case (Some child)
    obtain ok child1 where sk: "tcbor_skip_all m child = (ok, child1)" by (cases "tcbor_skip_all m child")
    have "ctx_r child = ctx_r c1" and sh: "span (ctx_r c1) < span (ctx_r c)"
      using map.opens map.shrinks mp Some by blast+
    then have "advances (ctx_r c1) (ctx_r child1)" using skip_all_moves [OF sk] by simp
    then have "advances (ctx_r c) (ctx_r child1)" "span (ctx_r child1) < span (ctx_r c)"
      using map.advances [OF mp] sh by (auto intro: advances_trans simp: advances_def)
    then show ?thesis
      using assms mp Some sk map.moves [OF mp]
      by (auto simp: read_dependency_def tcbor_close_def split: bool.splits if_splits)
  qed
qed

lemma read_dependency_local:
  assumes ag: "agree m m' (ctx_r c)"
  shows "read_dependency m c = read_dependency m' c"
proof -
  obtain x c1 where mp: "tcbor_read_map m c = (x, c1)" by (cases "tcbor_read_map m c")
  have "tcbor_read_map m' c = (x, c1)" using map.local [OF ag] mp by simp
  moreover have "tcbor_skip_all m child = tcbor_skip_all m' child" if s: "x = Some child" for child
    using ag map.child_advances [of m c child c1] mp s
    by (auto simp: tcbor_skip_all_def intro!: skip_local elim: agree_advances)
  ultimately show ?thesis using mp by (simp add: read_dependency_def split: option.splits)
qed

lemma read_component_cases:
  assumes "read_component m c cp = (b, c', cp')"
  obtains (Fail) "\<not> b" "tcbor_read_subobject m c = (None, c')" "cp' = cp"
  | (Ok) r where "b" "tcbor_read_subobject m c = (Some r, c')" "cp' = cp\<lparr>id_cbor := r\<rparr>"
  using assms by (auto simp: read_component_def split: prod.splits option.splits)

lemma read_component_moves:
  "read_component m c cp = (b, c', cp') \<Longrightarrow>
     advances (ctx_r c) (ctx_r c') \<and> ctx_count c' = ctx_count c \<and>
     (b \<longrightarrow> span (ctx_r c') < span (ctx_r c))"
  by (erule read_component_cases) (auto dest: subobject.moves subobject.shrinks)

end
