(* ===== verification/Suit_Parser.thy ===== *)
theory Suit_Parser
  imports Suit_Manifest
begin

text \<open>
  The loops of \<^verbatim>\<open>lib/suit/lib/suit-parser.c\<close>: the common block, the manifest, the authentication
  wrapper, the fields of an envelope, and the command reader. Every loop over a map has the same
  shape, so its body is a definition of its own and the locale \<open>entry_loop\<close> proves, once for all
  of them, what the loop consumes, reads and preserves.
\<close>

unbundle bit_operations_syntax

section \<open>The common block\<close>

function parse_dependencies ::
    "memory \<Rightarrow> tcbor_context \<Rightarrow> suit_common \<Rightarrow> bool \<times> tcbor_context \<times> suit_common" where
  "parse_dependencies m array ret =
     (if tcbor_is_end_of_context array then (True, array, ret)
      else if n_dependencies ret = SUIT_DEPENDENCY_MAX then (False, array, ret)
      else
        case read_dependency m array of
          (False, array) \<Rightarrow> (False, array, ret)
        | (True, array) \<Rightarrow>
            parse_dependencies m array (ret\<lparr>n_dependencies := n_dependencies ret + 1\<rparr>))"
  by pat_completeness auto
termination
  by (relation "measure (\<lambda>(m, array, ret). span (ctx_r array))")
    (auto dest: read_dependency_moves [OF sym])

function parse_components ::
    "memory \<Rightarrow> tcbor_context \<Rightarrow> suit_common \<Rightarrow> bool \<times> tcbor_context \<times> suit_common" where
  "parse_components m array ret =
     (if tcbor_is_end_of_context array then (True, array, ret)
      else if n_components ret = SUIT_COMPONENT_MAX then (False, array, ret)
      else
        case read_component m array (components ret ! n_components ret) of
          (False, array, cp) \<Rightarrow> (False, array, ret)
        | (True, array, cp) \<Rightarrow>
            parse_components m array
              (ret\<lparr>components := (components ret)[n_components ret := cp],
                   n_components := n_components ret + 1\<rparr>))"
  by pat_completeness auto
termination
  by (relation "measure (\<lambda>(m, array, ret). span (ctx_r array))")
    (auto dest: read_component_moves [OF sym])

declare parse_dependencies.simps [simp del] parse_components.simps [simp del]

text \<open>The local variables of the loop over the common map.\<close>

record common_state =
  cs_ret :: suit_common
  dependencies_seen :: bool
  components_seen :: bool

text \<open>The three cases of the switch over the keys, and the switch.\<close>

definition common_dependencies ::
    "memory \<Rightarrow> tcbor_context \<Rightarrow> common_state \<Rightarrow> bool \<times> tcbor_context \<times> common_state" where
  "common_dependencies m mp s =
     (if dependencies_seen s then (False, mp, s)
      else
        let s = s\<lparr>dependencies_seen := True\<rparr> in
        case tcbor_read_array m mp of
          (None, mp) \<Rightarrow> (False, mp, s)
        | (Some array, mp) \<Rightarrow>
            case parse_dependencies m array (cs_ret s) of
              (False, array, ret) \<Rightarrow> (False, mp, s\<lparr>cs_ret := ret\<rparr>)
            | (True, array, ret) \<Rightarrow>
                case tcbor_close mp array of (ok, mp) \<Rightarrow> (ok, mp, s\<lparr>cs_ret := ret\<rparr>))"

definition common_components ::
    "memory \<Rightarrow> tcbor_context \<Rightarrow> common_state \<Rightarrow> bool \<times> tcbor_context \<times> common_state" where
  "common_components m mp s =
     (if components_seen s then (False, mp, s)
      else
        let s = s\<lparr>components_seen := True\<rparr> in
        case tcbor_read_array m mp of
          (None, mp) \<Rightarrow> (False, mp, s)
        | (Some array, mp) \<Rightarrow>
            case parse_components m array (cs_ret s) of
              (False, array, ret) \<Rightarrow> (False, mp, s\<lparr>cs_ret := ret\<rparr>)
            | (True, array, ret) \<Rightarrow>
                case tcbor_close mp array of (ok, mp) \<Rightarrow> (ok, mp, s\<lparr>cs_ret := ret\<rparr>))"

definition common_sequence ::
    "memory \<Rightarrow> tcbor_context \<Rightarrow> common_state \<Rightarrow> bool \<times> tcbor_context \<times> common_state" where
  "common_sequence m mp s =
     (if \<not> tcbor_range_is_null (command_sequence (cs_ret s)) then (False, mp, s)
      else
        case tcbor_read_bstr m mp of
          (None, mp) \<Rightarrow> (False, mp, s)
        | (Some r, mp) \<Rightarrow> (True, mp, s\<lparr>cs_ret := (cs_ret s)\<lparr>command_sequence := r\<rparr>\<rparr>))"

definition common_entry ::
    "memory \<Rightarrow> tcbor_any \<Rightarrow> tcbor_context \<Rightarrow> common_state \<Rightarrow> bool \<times> tcbor_context \<times> common_state" where
  "common_entry m key mp s =
     (if tcbor_is_uint key then
        if any_value key = SUIT_DEPENDENCIES then common_dependencies m mp s
        else if any_value key = SUIT_COMPONENTS then common_components m mp s
        else if any_value key = SUIT_COMMON_SEQUENCE then common_sequence m mp s
        else (False, mp, s)
      else (False, mp, s))"

lemma parse_dependencies_step:
  assumes "parse_dependencies m a ret = (b, a', ret')"
  obtains (End) "tcbor_is_end_of_context a" "b" "a' = a" "ret' = ret"
  | (Fail) "\<not> b" "advances (ctx_r a) (ctx_r a')" "ctx_count a' = ctx_count a" "ret' = ret"
  | (More) a1 where "n_dependencies ret \<noteq> SUIT_DEPENDENCY_MAX" "read_dependency m a = (True, a1)"
      "\<not> tcbor_is_end_of_context a"
      "parse_dependencies m a1 (ret\<lparr>n_dependencies := n_dependencies ret + 1\<rparr>) = (b, a', ret')"
  using assms
  by (subst (asm) parse_dependencies.simps)
    (auto dest: read_dependency_moves split: if_splits prod.splits bool.splits)

lemma parse_components_step:
  assumes "parse_components m a ret = (b, a', ret')"
  obtains (End) "tcbor_is_end_of_context a" "b" "a' = a" "ret' = ret"
  | (Fail) "\<not> b" "advances (ctx_r a) (ctx_r a')" "ctx_count a' = ctx_count a" "ret' = ret"
  | (More) a1 r where "n_components ret \<noteq> SUIT_COMPONENT_MAX"
      "tcbor_read_subobject m a = (Some r, a1)" "\<not> tcbor_is_end_of_context a"
      "parse_components m a1
         (ret\<lparr>components := (components ret)[n_components ret := (components ret ! n_components ret)\<lparr>id_cbor := r\<rparr>],
              n_components := n_components ret + 1\<rparr>) = (b, a', ret')"
  using assms
  by (subst (asm) parse_components.simps)
    (auto dest: read_component_moves elim: read_component_cases split: if_splits prod.splits bool.splits)

text \<open>Both loops only move forward, end at the end of their array, and stop at the limit.\<close>

lemma parse_dependencies_moves:
  "parse_dependencies m a ret = (b, a', ret') \<Longrightarrow>
     advances (ctx_r a) (ctx_r a') \<and> ctx_count a' = ctx_count a \<and>
     (\<exists>n. ret' = ret\<lparr>n_dependencies := n\<rparr> \<and>
       (n_dependencies ret \<le> SUIT_DEPENDENCY_MAX \<longrightarrow> n \<le> SUIT_DEPENDENCY_MAX))"
proof (induction m a ret rule: parse_dependencies.induct)
  case (1 m a ret)
  from "1.prems" show ?case
  proof (cases rule: parse_dependencies_step)
    case End
    then show ?thesis by (auto intro!: exI [of _ "n_dependencies ret"])
  next
    case Fail
    then show ?thesis by (auto intro!: exI [of _ "n_dependencies ret"])
  next
    case (More a1)
    from "1.IH" [OF More(3,1) More(2) [symmetric] refl More(4)]
    obtain n where "advances (ctx_r a1) (ctx_r a')" "ctx_count a' = ctx_count a1"
      "ret' = ret\<lparr>n_dependencies := n\<rparr>"
      "n_dependencies ret + 1 \<le> SUIT_DEPENDENCY_MAX \<longrightarrow> n \<le> SUIT_DEPENDENCY_MAX"
      by auto
    with read_dependency_moves [OF More(2)] More(1) show ?thesis
      by (auto intro: advances_trans intro!: exI [of _ n])
  qed
qed

text \<open>The components read so far: the array keeps its size, and each one lies in the input.\<close>

definition components_in :: "tcbor_range \<Rightarrow> suit_common \<Rightarrow> bool" where
  "components_in b ret \<longleftrightarrow>
     n_components ret \<le> SUIT_COMPONENT_MAX \<and> length (components ret) = SUIT_COMPONENT_MAX \<and>
     (\<forall>i < n_components ret. inside (id_cbor (components ret ! i)) b)"

lemma parse_components_moves:
  "parse_components m a ret = (b, a', ret') \<Longrightarrow>
     advances (ctx_r a) (ctx_r a') \<and> ctx_count a' = ctx_count a \<and>
     n_dependencies ret' = n_dependencies ret \<and> command_sequence ret' = command_sequence ret \<and>
     (inside (ctx_r a) bnd \<and> components_in bnd ret \<longrightarrow> components_in bnd ret')"
proof (induction m a ret rule: parse_components.induct)
  case (1 m a ret)
  from "1.prems" show ?case
  proof (cases rule: parse_components_step)
    case (More a1 r)
    let ?ret = "ret\<lparr>components := (components ret)[n_components ret := (components ret ! n_components ret)\<lparr>id_cbor := r\<rparr>],
              n_components := n_components ret + 1\<rparr>"
    have rc: "read_component m a (components ret ! n_components ret) = (True, a1, (components ret ! n_components ret)\<lparr>id_cbor := r\<rparr>)"
      using More(2) by (simp add: read_component_def)
    have IH: "advances (ctx_r a1) (ctx_r a') \<and> ctx_count a' = ctx_count a1 \<and>
        n_dependencies ret' = n_dependencies ?ret \<and> command_sequence ret' = command_sequence ?ret \<and>
        (inside (ctx_r a1) bnd \<and> components_in bnd ?ret \<longrightarrow> components_in bnd ret')"
      using "1.IH" [OF More(3,1) rc [symmetric]] More(4) by auto
    have ad: "advances (ctx_r a) (ctx_r a1)" and ins: "inside r (ctx_r a)"
      using subobject.advances [OF More(2)] subobject.inside [OF More(2)] .
    have "components_in bnd ?ret" if "inside (ctx_r a) bnd" "components_in bnd ret"
    proof -
      have "inside r bnd" using ins that(1) by (rule inside_trans)
      then show ?thesis
        using that(2) More(1) by (auto simp: components_in_def less_Suc_eq nth_list_update)
    qed
    moreover have "inside (ctx_r a1) bnd" if "inside (ctx_r a) bnd"
      using inside_trans [OF advances_inside [OF ad] that] .
    ultimately show ?thesis
      using IH ad subobject.moves [OF More(2)] by (auto intro: advances_trans)
  qed auto
qed

lemma parse_dependencies_end:
  "parse_dependencies m a ret = (True, a', ret') \<Longrightarrow> tcbor_is_end_of_context a'"
proof (induction m a ret rule: parse_dependencies.induct)
  case (1 m a ret)
  from "1.prems" show ?case
  proof (cases rule: parse_dependencies_step)
    case (More a1)
    then show ?thesis using "1.IH" [OF More(3,1) More(2) [symmetric]] by auto
  qed auto
qed

lemma parse_components_end:
  "parse_components m a ret = (True, a', ret') \<Longrightarrow> tcbor_is_end_of_context a'"
proof (induction m a ret rule: parse_components.induct)
  case (1 m a ret)
  from "1.prems" show ?case
  proof (cases rule: parse_components_step)
    case (More a1 r)
    have "read_component m a (components ret ! n_components ret) =
        (True, a1, (components ret ! n_components ret)\<lparr>id_cbor := r\<rparr>)"
      using More(2) by (simp add: read_component_def)
    then show ?thesis using "1.IH" [OF More(3,1)] More(4) by auto
  qed auto
qed

lemma array_body_moves:
  assumes "tcbor_read_array m c = (Some a, c1)" and "advances (ctx_r a) (ctx_r a')"
  shows "advances (ctx_r c) (ctx_r a')" and "advances (ctx_r c) (ctx_r c1)" and "ctx_count c1 = ctx_count c"
  using array.child_advances [OF assms(1)] array.moves [OF assms(1)] assms(2)
  by (auto intro: advances_trans)

lemma common_dependencies_cases:
  assumes "common_dependencies m mp s = (b, mp', s')"
  obtains (Twice) "\<not> b" "mp' = mp" "s' = s"
  | (No_array) "\<not> b" "tcbor_read_array m mp = (None, mp')" "s' = s\<lparr>dependencies_seen := True\<rparr>"
  | (Array) array mp1 array' ret where "\<not> dependencies_seen s"
      "tcbor_read_array m mp = (Some array, mp1)"
      "parse_dependencies m array (cs_ret s) = (b, array', ret)"
      "mp' = (if b then mp1\<lparr>ctx_r := ctx_r array'\<rparr> else mp1)"
      "s' = s\<lparr>dependencies_seen := True, cs_ret := ret\<rparr>"
  using assms
  by (auto simp: common_dependencies_def tcbor_close_def Let_def parse_dependencies_end
      split: if_splits prod.splits option.splits bool.splits)

lemma common_components_cases:
  assumes "common_components m mp s = (b, mp', s')"
  obtains (Twice) "\<not> b" "mp' = mp" "s' = s"
  | (No_array) "\<not> b" "tcbor_read_array m mp = (None, mp')" "s' = s\<lparr>components_seen := True\<rparr>"
  | (Array) array mp1 array' ret where "\<not> components_seen s"
      "tcbor_read_array m mp = (Some array, mp1)"
      "parse_components m array (cs_ret s) = (b, array', ret)"
      "mp' = (if b then mp1\<lparr>ctx_r := ctx_r array'\<rparr> else mp1)"
      "s' = s\<lparr>components_seen := True, cs_ret := ret\<rparr>"
  using assms
  by (auto simp: common_components_def tcbor_close_def Let_def parse_components_end
      split: if_splits prod.splits option.splits bool.splits)

lemma common_sequence_cases:
  assumes "common_sequence m mp s = (b, mp', s')"
  obtains (Twice) "\<not> b" "mp' = mp" "s' = s"
  | (No_bstr) "\<not> b" "tcbor_read_bstr m mp = (None, mp')" "s' = s"
  | (Bstr) r where "b" "tcbor_read_bstr m mp = (Some r, mp')"
      "tcbor_range_is_null (command_sequence (cs_ret s))"
      "s' = s\<lparr>cs_ret := (cs_ret s)\<lparr>command_sequence := r\<rparr>\<rparr>"
  using assms by (auto simp: common_sequence_def split: if_splits prod.splits option.splits)

lemma common_entry_dispatch:
  assumes "common_entry m key mp s = (b, mp', s')"
  shows "\<not> b \<and> mp' = mp \<and> s' = s \<or> common_dependencies m mp s = (b, mp', s') \<or>
    common_components m mp s = (b, mp', s') \<or> common_sequence m mp s = (b, mp', s')"
proof (cases "tcbor_is_uint key \<and> any_value key \<in> {1, 2, 4}")
  case True
  then show ?thesis using assms
    by (simp only: common_entry_def if_True simp_thms split: if_split_asm) auto
next
  case False
  then have "common_entry m key mp s = (False, mp, s)" by (auto simp: common_entry_def)
  then show ?thesis using assms by simp
qed

lemma common_dependencies_moves:
  assumes "common_dependencies m mp s = (b, mp', s')"
  shows "advances (ctx_r mp) (ctx_r mp') \<and> ctx_count mp' = ctx_count mp"
  using assms
proof (cases rule: common_dependencies_cases)
  case (Array array mp1 array' ret)
  have "advances (ctx_r array) (ctx_r array')" using parse_dependencies_moves [OF Array(3)] by blast
  from array_body_moves [OF Array(2) this] Array(4) show ?thesis by simp
qed (simp_all add: array.moves)

lemma common_components_moves:
  assumes "common_components m mp s = (b, mp', s')"
  shows "advances (ctx_r mp) (ctx_r mp') \<and> ctx_count mp' = ctx_count mp"
  using assms
proof (cases rule: common_components_cases)
  case (Array array mp1 array' ret)
  have "advances (ctx_r array) (ctx_r array')" using parse_components_moves [OF Array(3)] by blast
  from array_body_moves [OF Array(2) this] Array(4) show ?thesis by simp
qed (simp_all add: array.moves)

lemma common_sequence_moves:
  assumes "common_sequence m mp s = (b, mp', s')"
  shows "advances (ctx_r mp) (ctx_r mp') \<and> ctx_count mp' = ctx_count mp"
  using assms by (cases rule: common_sequence_cases) (simp_all add: bstr.moves)

lemma common_entry_moves:
  assumes "common_entry m key mp s = (b, mp', s')"
  shows "advances (ctx_r mp) (ctx_r mp') \<and> ctx_count mp' = ctx_count mp"
  using common_entry_dispatch [OF assms]
  by (elim disjE)
    (simp_all add: common_dependencies_moves common_components_moves common_sequence_moves)

function common_loop ::
    "memory \<Rightarrow> tcbor_context \<Rightarrow> common_state \<Rightarrow> bool \<times> tcbor_context \<times> common_state" where
  "common_loop m mp s =
     (if tcbor_is_end_of_context mp then (True, mp, s)
      else
        case tcbor_read_any m mp of
          (None, mp) \<Rightarrow> (False, mp, s)
        | (Some key, mp) \<Rightarrow>
            if tcbor_is_tag key then (False, mp, s)
            else
              case common_entry m key mp s of
                (False, mp, s) \<Rightarrow> (False, mp, s)
              | (True, mp, s) \<Rightarrow> common_loop m mp s)"
  by pat_completeness auto
termination
  by (relation "measure (\<lambda>(m, mp, s). span (ctx_r mp))")
    (auto dest!: any.shrinks [OF sym] common_entry_moves [OF sym] simp: advances_def)

declare common_loop.simps [simp del]

section \<open>Loops over the entries of a map\<close>

text \<open>
  \<open>loop\<close> reads the keys of a map one after the other and hands each to \<open>body\<close>, which reads the
  value. The body may only move forward, and may only look at bytes of the key and of what is
  left. \<open>same\<close> is what two memories must share outside of the input.
\<close>

locale entry_loop =
  fixes same :: "memory \<Rightarrow> memory \<Rightarrow> bool"
    and body :: "memory \<Rightarrow> tcbor_any \<Rightarrow> tcbor_context \<Rightarrow> 's \<Rightarrow> bool \<times> tcbor_context \<times> 's"
    and loop :: "memory \<Rightarrow> tcbor_context \<Rightarrow> 's \<Rightarrow> bool \<times> tcbor_context \<times> 's"
  assumes loop_eq: "loop m c s =
      (if tcbor_is_end_of_context c then (True, c, s)
       else
         case tcbor_read_any m c of
           (None, c) \<Rightarrow> (False, c, s)
         | (Some key, c) \<Rightarrow>
             if tcbor_is_tag key then (False, c, s)
             else
               case body m key c s of
                 (False, c, s) \<Rightarrow> (False, c, s)
               | (True, c, s) \<Rightarrow> loop m c s)"
    and body_moves: "body m key c s = (b, c', s') \<Longrightarrow>
      advances (ctx_r c) (ctx_r c') \<and> ctx_count c' = ctx_count c"
    and body_local: "same m m' \<Longrightarrow> agree m m' bnd \<Longrightarrow> inside (ctx_r c) bnd \<Longrightarrow>
      (tcbor_is_tstr key \<Longrightarrow> inside (any_bytes key) bnd) \<Longrightarrow> body m key c s = body m' key c s"
begin

lemma loop_cases:
  assumes "loop m c s = (b, c', s')"
  obtains (End) "tcbor_is_end_of_context c" "b" "c' = c" "s' = s"
  | (No_key) "\<not> tcbor_is_end_of_context c" "\<not> b" "tcbor_read_any m c = (None, c')" "s' = s"
  | (Tag) key where "\<not> b" "tcbor_read_any m c = (Some key, c')" "tcbor_is_tag key" "s' = s"
  | (Stop) key c1 where "\<not> b" "tcbor_read_any m c = (Some key, c1)" "\<not> tcbor_is_tag key"
      "body m key c1 s = (False, c', s')"
  | (Next) key c1 c2 s2 where "\<not> tcbor_is_end_of_context c" "tcbor_read_any m c = (Some key, c1)"
      "\<not> tcbor_is_tag key" "body m key c1 s = (True, c2, s2)" "loop m c2 s2 = (b, c', s')"
  using assms
  by (subst (asm) loop_eq) (auto split: if_splits prod.splits option.splits bool.splits)

text \<open>A step of the loop leaves fewer bytes, so it can be reasoned about by the bytes left.\<close>

lemma next_shrinks:
  assumes "tcbor_read_any m c = (Some key, c1)" and "body m key c1 s = (ok, c2, s2)"
  shows "advances (ctx_r c) (ctx_r c2)" and "span (ctx_r c2) < span (ctx_r c)"
    and "ctx_count c2 = ctx_count c"
  using any.moves [OF assms(1)] any.shrinks [OF assms(1)] body_moves [OF assms(2)]
  by (auto intro: advances_trans simp: advances_def)

lemma loop_invariant:
  assumes step: "\<And>key c s c' s'. body m key c s = (True, c', s') \<Longrightarrow> inside (ctx_r c) bnd \<Longrightarrow>
      (tcbor_is_bstr key \<or> tcbor_is_tstr key \<Longrightarrow> inside (any_bytes key) bnd) \<Longrightarrow> good s \<Longrightarrow> good s'"
  shows "loop m c s = (True, c', s') \<Longrightarrow> inside (ctx_r c) bnd \<Longrightarrow> good s \<Longrightarrow> good s'"
proof (induction "span (ctx_r c)" arbitrary: c s rule: less_induct)
  case less
  from less.prems(1) show ?case
  proof (cases rule: loop_cases)
    case (Next key c1 c2 s2)
    have "inside (ctx_r c1) bnd"
      using inside_trans [OF advances_inside [OF any.advances [OF Next(2)]] less.prems(2)] .
    moreover have "inside (any_bytes key) bnd" if "tcbor_is_bstr key \<or> tcbor_is_tstr key"
      using inside_trans [OF read_any_inside [OF Next(2) that] less.prems(2)] .
    ultimately have "good s2" by (rule step [OF Next(4) _ _ less.prems(3)])
    moreover have "inside (ctx_r c2) bnd"
      using inside_trans [OF advances_inside [OF next_shrinks(1) [OF Next(2,4)]] less.prems(2)] .
    ultimately show ?thesis
      by (rule less.hyps [OF next_shrinks(2) [OF Next(2,4)] Next(5), rotated 1])
  qed (use less.prems in auto)
qed

text \<open>What every body call keeps, the loop keeps, also when it is given up.\<close>

lemma loop_frame:
  assumes step: "\<And>key c s b c' s'. body m key c s = (b, c', s') \<Longrightarrow> good s \<Longrightarrow> good s'"
  shows "loop m c s = (b, c', s') \<Longrightarrow> good s \<Longrightarrow> good s'"
proof (induction "span (ctx_r c)" arbitrary: c s rule: less_induct)
  case less
  from less.prems(1) show ?case
  proof (cases rule: loop_cases)
    case (Stop key c1)
    from step [OF Stop(4) less.prems(2)] show ?thesis .
  next
    case (Next key c1 c2 s2)
    from less.hyps [OF next_shrinks(2) [OF Next(2,4)] Next(5) step [OF Next(4) less.prems(2)]]
    show ?thesis .
  qed (use less.prems in auto)
qed

lemma loop_moves:
  "loop m c s = (b, c', s') \<Longrightarrow>
     advances (ctx_r c) (ctx_r c') \<and> ctx_count c' = ctx_count c \<and>
     (b \<longrightarrow> tcbor_is_end_of_context c')"
proof (induction "span (ctx_r c)" arbitrary: c s rule: less_induct)
  case less
  from less.prems(1) show ?case
  proof (cases rule: loop_cases)
    case (Stop key c1)
    then show ?thesis using next_shrinks [OF Stop(2,4)] by simp
  next
    case (Next key c1 c2 s2)
    from less.hyps [OF next_shrinks(2) [OF Next(2,4)] Next(5)] next_shrinks [OF Next(2,4)]
    show ?thesis by (auto intro: advances_trans)
  qed (auto dest: any.moves)
qed

lemma loop_local:
  "same m m' \<Longrightarrow> agree m m' (ctx_r c) \<Longrightarrow> loop m c s = loop m' c s"
proof (induction "span (ctx_r c)" arbitrary: c s rule: less_induct)
  case less
  obtain x c1 where rd: "tcbor_read_any m c = (x, c1)" by (cases "tcbor_read_any m c")
  then have rd': "tcbor_read_any m' c = (x, c1)" using any.local [OF less.prems(2)] by simp
  show ?case
  proof (cases x)
    case None
    then show ?thesis using rd rd' loop_eq [of m c s] loop_eq [of m' c s] by simp
  next
    case (Some key)
    have "inside (any_bytes key) (ctx_r c)" if "tcbor_is_tstr key"
      using read_any_inside rd Some that by blast
    then have bd: "body m key c1 s = body m' key c1 s"
      using less.prems advances_inside [OF any.advances [OF rd]] by (intro body_local)
    obtain b c2 s2 where b: "body m key c1 s = (b, c2, s2)" by (cases "body m key c1 s")
    have "span (ctx_r c2) < span (ctx_r c)" "agree m m' (ctx_r c2)"
      using next_shrinks [of m c key c1] rd Some b less.prems(2) by (auto elim: agree_advances)
    then have "loop m c2 s2 = loop m' c2 s2" using less.hyps less.prems(1) by blast
    moreover have "body m' key c1 s = (b, c2, s2)" using bd b by simp
    ultimately show ?thesis
      using rd rd' Some b loop_eq [of m c s] loop_eq [of m' c s] by (simp split: bool.split)
  qed
qed

end

section \<open>The common block as a whole\<close>

lemma read_component_local:
  "agree m m' (ctx_r c) \<Longrightarrow> read_component m c cp = read_component m' c cp"
  by (simp add: read_component_def subobject.local [of m m'])

lemma parse_dependencies_local:
  "agree m m' (ctx_r a) \<Longrightarrow> parse_dependencies m a ret = parse_dependencies m' a ret"
proof (induction m a ret rule: parse_dependencies.induct)
  case (1 m a ret)
  obtain ok a1 where rd: "read_dependency m a = (ok, a1)" by (cases "read_dependency m a")
  have rd': "read_dependency m' a = (ok, a1)" using read_dependency_local [OF "1.prems"] rd by simp
  have ag: "agree m m' (ctx_r a1)"
    using "1.prems" read_dependency_moves [OF rd] by (blast intro: agree_advances)
  have IH: "parse_dependencies m a1 (ret\<lparr>n_dependencies := n_dependencies ret + 1\<rparr>) =
      parse_dependencies m' a1 (ret\<lparr>n_dependencies := n_dependencies ret + 1\<rparr>)"
    if "\<not> tcbor_is_end_of_context a" "n_dependencies ret \<noteq> SUIT_DEPENDENCY_MAX" "ok"
    using "1.IH" [OF that(1,2) rd [symmetric] _ ag] that(3) by simp
  then show ?case
    using rd rd' IH by (simp add: parse_dependencies.simps [of _ a] split: bool.split)
qed

lemma parse_components_local:
  "agree m m' (ctx_r a) \<Longrightarrow> parse_components m a ret = parse_components m' a ret"
proof (induction m a ret rule: parse_components.induct)
  case (1 m a ret)
  let ?cp = "components ret ! n_components ret"
  obtain ok a1 cp where rd: "read_component m a ?cp = (ok, a1, cp)" by (cases "read_component m a ?cp")
  have rd': "read_component m' a ?cp = (ok, a1, cp)" using read_component_local [OF "1.prems"] rd by simp
  let ?ret = "ret\<lparr>components := (components ret)[n_components ret := cp],
                   n_components := n_components ret + 1\<rparr>"
  have ag: "agree m m' (ctx_r a1)"
    using "1.prems" read_component_moves [OF rd] by (blast intro: agree_advances)
  have IH: "parse_components m a1 ?ret = parse_components m' a1 ?ret"
    if "\<not> tcbor_is_end_of_context a" "n_components ret \<noteq> SUIT_COMPONENT_MAX" "ok"
    using "1.IH" [OF that(1,2) rd [symmetric] _ refl ag] that(3) by simp
  then show ?case
    using rd rd' IH by (simp add: parse_components.simps [of _ a] split: bool.split)
qed

lemma array_child_local:
  assumes "agree m m' (ctx_r mp)" and "tcbor_read_array m mp = (x, c1)"
  shows "tcbor_read_array m' mp = (x, c1)" and "x = Some a \<Longrightarrow> agree m m' (ctx_r a)"
  using assms array.local [OF assms(1)] agree_advances [OF assms(1) array.child_advances] by auto

lemma common_dependencies_local:
  assumes "agree m m' (ctx_r mp)"
  shows "common_dependencies m mp s = common_dependencies m' mp s"
proof -
  obtain x c1 where rd: "tcbor_read_array m mp = (x, c1)" by (cases "tcbor_read_array m mp")
  note rd' = array_child_local [OF assms rd]
  show ?thesis
    using rd rd'(1) parse_dependencies_local [OF rd'(2)]
    by (cases x) (simp_all add: common_dependencies_def)
qed

lemma common_components_local:
  assumes "agree m m' (ctx_r mp)"
  shows "common_components m mp s = common_components m' mp s"
proof -
  obtain x c1 where rd: "tcbor_read_array m mp = (x, c1)" by (cases "tcbor_read_array m mp")
  note rd' = array_child_local [OF assms rd]
  show ?thesis
    using rd rd'(1) parse_components_local [OF rd'(2)]
    by (cases x) (simp_all add: common_components_def)
qed

lemma common_entry_local:
  assumes "agree m m' (ctx_r mp)"
  shows "common_entry m key mp s = common_entry m' key mp s"
proof -
  have "common_sequence m mp s = common_sequence m' mp s"
    by (simp add: common_sequence_def bstr.local [OF assms])
  then show ?thesis
    by (simp only: common_entry_def common_dependencies_local [OF assms] common_components_local [OF assms])
qed

interpretation common: entry_loop "\<lambda>_ _. True" common_entry common_loop
  by (rule entry_loop.intro)
    (rule common_loop.simps, erule common_entry_moves, erule (1) common_entry_local [OF agree_inside])

text \<open>The result: whether the block is accepted, and what has been stored by then.\<close>

definition suit_parse_common :: "memory \<Rightarrow> tcbor_range \<Rightarrow> suit_common \<Rightarrow> bool \<times> suit_common" where
  "suit_parse_common m common_bstr ret =
     (let ret = ret\<lparr>n_dependencies := 0, n_components := 0, command_sequence := tcbor_range_null\<rparr>;
          ctx = tcbor_toplevel common_bstr in
      case tcbor_read_map m ctx of
        (None, ctx) \<Rightarrow> (False, ret)
      | (Some mp, ctx) \<Rightarrow>
          case common_loop m mp
                 \<lparr>cs_ret = ret, dependencies_seen = False, components_seen = False\<rparr> of
            (False, mp, s) \<Rightarrow> (False, cs_ret s)
          | (True, mp, s) \<Rightarrow>
              case tcbor_close ctx mp of (ok, ctx) \<Rightarrow> (ok, cs_ret s))"

definition null_or_inside :: "tcbor_range \<Rightarrow> tcbor_range \<Rightarrow> bool" where
  "null_or_inside r b \<longleftrightarrow> r = tcbor_range_null \<or> inside r b"

lemma null_or_inside_null [simp]: "null_or_inside tcbor_range_null b"
  by (simp add: null_or_inside_def)

lemma null_or_inside_trans: "null_or_inside r s \<Longrightarrow> inside s b \<Longrightarrow> null_or_inside r b"
  by (auto simp: null_or_inside_def intro: inside_trans)

text \<open>What holds of the block at every moment of the parse.\<close>

definition common_in :: "tcbor_range \<Rightarrow> suit_common \<Rightarrow> bool" where
  "common_in b ret \<longleftrightarrow>
     n_dependencies ret \<le> SUIT_DEPENDENCY_MAX \<and> components_in b ret \<and>
     null_or_inside (command_sequence ret) b"

lemma components_in_update [simp]:
  "components_in b (ret\<lparr>n_dependencies := n\<rparr>) = components_in b ret"
  "components_in b (ret\<lparr>command_sequence := r\<rparr>) = components_in b ret"
  by (simp_all add: components_in_def)

lemma common_entry_in:
  assumes e: "common_entry m key mp s = (b, mp', s')" and ins: "inside (ctx_r mp) bnd"
    and s: "common_in bnd (cs_ret s)"
  shows "common_in bnd (cs_ret s')"
  using common_entry_dispatch [OF e]
proof (elim disjE conjE)
  assume "common_dependencies m mp s = (b, mp', s')"
  then show ?thesis
  proof (cases rule: common_dependencies_cases)
    case (Array array mp1 array' ret)
    then show ?thesis
      using parse_dependencies_moves [OF Array(3)] s by (auto simp: common_in_def)
  qed (use s in auto)
next
  assume "common_components m mp s = (b, mp', s')"
  then show ?thesis
  proof (cases rule: common_components_cases)
    case (Array array mp1 array' ret)
    have "inside (ctx_r array) bnd"
      using inside_trans [OF advances_inside [OF array.child_advances [OF Array(2)]] ins] .
    then show ?thesis
      using parse_components_moves [OF Array(3), of bnd] s Array(5) by (auto simp: common_in_def)
  qed (use s in auto)
next
  assume "common_sequence m mp s = (b, mp', s')"
  then show ?thesis
  proof (cases rule: common_sequence_cases)
    case (Bstr r)
    then show ?thesis
      using bstr.inside_input [OF Bstr(2) ins] s by (auto simp: common_in_def null_or_inside_def)
  qed (use s in auto)
qed (use s in simp)

lemma parse_common_cases:
  assumes "suit_parse_common m r ret = (b, ret')"
  obtains (No_map) c where "\<not> b" "tcbor_read_map m (tcbor_toplevel r) = (None, c)"
      "ret' = ret\<lparr>n_dependencies := 0, n_components := 0, command_sequence := tcbor_range_null\<rparr>"
  | (Map) mp c mp' s where "tcbor_read_map m (tcbor_toplevel r) = (Some mp, c)"
      "common_loop m mp \<lparr>cs_ret = ret\<lparr>n_dependencies := 0, n_components := 0,
         command_sequence := tcbor_range_null\<rparr>, dependencies_seen = False, components_seen = False\<rparr> =
       (b, mp', s)" "ret' = cs_ret s"
  using assms common.loop_moves
  by (fastforce simp: suit_parse_common_def tcbor_close_def Let_def
      split: prod.splits option.splits bool.splits if_splits)

lemma toplevel_simps [simp]:
  "ctx_r (tcbor_toplevel r) = r" "ctx_index (tcbor_toplevel r) = 0" "ctx_count (tcbor_toplevel r) = 1"
  by (simp_all add: tcbor_toplevel_def)

lemma toplevel_map_inside: "tcbor_read_map m (tcbor_toplevel r) = (Some mp, c) \<Longrightarrow> inside (ctx_r mp) r"
  using map.child_advances [of m "tcbor_toplevel r"] advances_inside by simp

lemma parse_common_in:
  assumes "suit_parse_common m r ret = (True, ret')" and "length (components ret) = SUIT_COMPONENT_MAX"
  shows "common_in r ret'"
  using assms(1)
proof (cases rule: parse_common_cases)
  case (Map mp c mp' s)
  have "common_in r (cs_ret s)"
  proof (rule common.loop_invariant [where good = "\<lambda>s. common_in r (cs_ret s)",
        OF _ Map(2) toplevel_map_inside [OF Map(1)]])
    show "common_in r (cs_ret s')"
      if "common_entry m key c s = (True, c', s')" "inside (ctx_r c) r" "common_in r (cs_ret s)"
      for key c s c' s' using that by (rule common_entry_in)
  qed (use assms(2) in \<open>simp add: common_in_def components_in_def\<close>)
  then show ?thesis using Map(3) by simp
qed simp

lemma parse_common_local:
  assumes "agree m m' r"
  shows "suit_parse_common m r ret = suit_parse_common m' r ret"
proof -
  obtain x c where rd: "tcbor_read_map m (tcbor_toplevel r) = (x, c)"
    by (cases "tcbor_read_map m (tcbor_toplevel r)")
  have rd': "tcbor_read_map m' (tcbor_toplevel r) = (x, c)"
    using map.local [of m m' "tcbor_toplevel r"] assms rd by simp
  have "agree m m' (ctx_r mp)" if "x = Some mp" for mp
    using toplevel_map_inside rd that assms by (blast intro: agree_inside)
  then show ?thesis
    using rd rd' common.loop_local [of m m']
    by (cases x) (simp_all add: suit_parse_common_def Let_def)
qed

section \<open>The manifest\<close>

text \<open>The two helpers name the repeated bodies of the switch.\<close>

definition entry_bstr ::
    "memory \<Rightarrow> tcbor_context \<Rightarrow> (tcbor_range \<Rightarrow> suit_manifest) \<Rightarrow> suit_manifest \<Rightarrow>
     bool \<times> tcbor_context \<times> suit_manifest" where
  "entry_bstr m mp put ret =
     (case tcbor_read_bstr m mp of
        (None, mp) \<Rightarrow> (False, mp, ret)
      | (Some r, mp) \<Rightarrow> (True, mp, put r))"

definition entry_severed ::
    "memory \<Rightarrow> tcbor_context \<Rightarrow> suit_severable \<Rightarrow> (suit_severable \<Rightarrow> suit_manifest) \<Rightarrow>
     bool \<times> tcbor_context \<times> suit_manifest" where
  "entry_severed m mp s put =
     (case read_severed m mp s of (ok, mp, s) \<Rightarrow> (ok, mp, put s))"

definition entry_skip :: "memory \<Rightarrow> tcbor_context \<Rightarrow> 's \<Rightarrow> bool \<times> tcbor_context \<times> 's" where
  "entry_skip m mp ret = (case tcbor_skip m mp 1 of (ok, mp) \<Rightarrow> (ok, mp, ret))"

definition entry_common ::
    "memory \<Rightarrow> tcbor_context \<Rightarrow> suit_manifest \<Rightarrow> bool \<times> tcbor_context \<times> suit_manifest" where
  "entry_common m mp ret =
     (case tcbor_read_bstr m mp of
        (None, mp) \<Rightarrow> (False, mp, ret)
      | (Some r, mp) \<Rightarrow>
          case suit_parse_common m r (man_common ret) of
            (ok, common) \<Rightarrow> (ok, mp, ret\<lparr>man_common_bstr := r, man_common := common\<rparr>))"

definition manifest_entry ::
    "memory \<Rightarrow> tcbor_any \<Rightarrow> tcbor_context \<Rightarrow> suit_manifest \<Rightarrow>
     bool \<times> tcbor_context \<times> suit_manifest" where
  "manifest_entry m key mp ret =
     (if tcbor_is_uint key then
        let v = any_value key in
        if v = SUIT_MANIFEST_VERSION \<or> v = SUIT_MANIFEST_SEQUENCE_NUMBER then (False, mp, ret)
        else if v = SUIT_COMMON then entry_common m mp ret
        else if v = SUIT_REFERENCE_URI then
          entry_bstr m mp (\<lambda>r. ret\<lparr>man_reference_uri := r\<rparr>) ret
        else if v = SUIT_DEPENDENCY_RESOLUTION then
          entry_severed m mp (man_dependency_resolution ret) (\<lambda>s. ret\<lparr>man_dependency_resolution := s\<rparr>)
        else if v = SUIT_PAYLOAD_FETCH then
          entry_severed m mp (man_payload_fetch ret) (\<lambda>s. ret\<lparr>man_payload_fetch := s\<rparr>)
        else if v = SUIT_INSTALL then
          entry_severed m mp (man_install ret) (\<lambda>s. ret\<lparr>man_install := s\<rparr>)
        else if v = SUIT_TEXT then
          entry_severed m mp (man_text ret) (\<lambda>s. ret\<lparr>man_text := s\<rparr>)
        else if v = SUIT_COSWID then
          entry_severed m mp (man_coswid ret) (\<lambda>s. ret\<lparr>man_coswid := s\<rparr>)
        else if v = SUIT_VALIDATE then entry_bstr m mp (\<lambda>r. ret\<lparr>man_validate := r\<rparr>) ret
        else if v = SUIT_LOAD then entry_bstr m mp (\<lambda>r. ret\<lparr>man_load := r\<rparr>) ret
        else if v = SUIT_RUN then entry_bstr m mp (\<lambda>r. ret\<lparr>man_run := r\<rparr>) ret
        else entry_skip m mp ret
      else entry_skip m mp ret)"

text \<open>One property at a time is proved of the helpers and follows for the switch.\<close>

lemma manifest_entry_dispatch:
  assumes "\<And>put. P (entry_bstr m mp put ret)" and "\<And>s put. P (entry_severed m mp s put)"
    and "P (entry_skip m mp ret)" and "P (entry_common m mp ret)" and "P (False, mp, ret)"
  shows "P (manifest_entry m key mp ret)"
  using assms by (simp add: manifest_entry_def Let_def)

lemma entry_bstr_moves:
  "entry_bstr m mp put ret = (b, mp', ret') \<Longrightarrow>
     advances (ctx_r mp) (ctx_r mp') \<and> ctx_count mp' = ctx_count mp"
  by (auto simp: entry_bstr_def bstr.moves split: prod.splits option.splits)

lemma entry_severed_moves:
  "entry_severed m mp s put = (b, mp', ret') \<Longrightarrow>
     advances (ctx_r mp) (ctx_r mp') \<and> ctx_count mp' = ctx_count mp"
  by (auto simp: entry_severed_def read_severed_moves split: prod.splits)

lemma entry_skip_moves:
  "entry_skip m mp ret = (b, mp', ret') \<Longrightarrow>
     advances (ctx_r mp) (ctx_r mp') \<and> ctx_count mp' = ctx_count mp"
  by (auto simp: entry_skip_def skip_moves split: prod.splits)

lemma entry_common_moves:
  "entry_common m mp ret = (b, mp', ret') \<Longrightarrow>
     advances (ctx_r mp) (ctx_r mp') \<and> ctx_count mp' = ctx_count mp"
  by (auto simp: entry_common_def bstr.moves split: prod.splits option.splits)

lemma manifest_entry_moves:
  assumes "manifest_entry m key mp ret = (b, mp', ret')"
  shows "advances (ctx_r mp) (ctx_r mp') \<and> ctx_count mp' = ctx_count mp"
proof -
  have "case manifest_entry m key mp ret of (b, mp', ret') \<Rightarrow>
      advances (ctx_r mp) (ctx_r mp') \<and> ctx_count mp' = ctx_count mp"
    by (rule manifest_entry_dispatch)
      (auto simp: entry_bstr_moves entry_severed_moves entry_skip_moves entry_common_moves
        split: prod.splits)
  then show ?thesis using assms by simp
qed

lemma manifest_entry_local:
  assumes "agree m m' (ctx_r mp)"
  shows "manifest_entry m key mp ret = manifest_entry m' key mp ret"
proof -
  have "entry_bstr m mp put ret = entry_bstr m' mp put ret"
    and "entry_severed m mp s sput = entry_severed m' mp s sput"
    and "entry_skip m mp ret = entry_skip m' mp ret" for put s sput
    by (simp_all add: entry_bstr_def entry_severed_def entry_skip_def bstr.local [OF assms]
        read_severed_local [OF assms] skip_local [OF assms])
  moreover have "entry_common m mp ret = entry_common m' mp ret"
  proof -
    obtain x c where rd: "tcbor_read_bstr m mp = (x, c)" by (cases "tcbor_read_bstr m mp")
    have rd': "tcbor_read_bstr m' mp = (x, c)" using bstr.local [OF assms] rd by simp
    have "suit_parse_common m r (man_common ret) = suit_parse_common m' r (man_common ret)"
      if "x = Some r" for r
      using bstr.inside rd that by (intro parse_common_local agree_inside [OF assms]) blast
    then show ?thesis using rd rd' by (cases x) (simp_all add: entry_common_def)
  qed
  ultimately show ?thesis by (simp only: manifest_entry_def Let_def)
qed

function manifest_loop ::
    "memory \<Rightarrow> tcbor_context \<Rightarrow> suit_manifest \<Rightarrow> bool \<times> tcbor_context \<times> suit_manifest" where
  "manifest_loop m mp ret =
     (if tcbor_is_end_of_context mp then (True, mp, ret)
      else
        case tcbor_read_any m mp of
          (None, mp) \<Rightarrow> (False, mp, ret)
        | (Some key, mp) \<Rightarrow>
            if tcbor_is_tag key then (False, mp, ret)
            else
              case manifest_entry m key mp ret of
                (False, mp, ret) \<Rightarrow> (False, mp, ret)
              | (True, mp, ret) \<Rightarrow> manifest_loop m mp ret)"
  by pat_completeness auto
termination
  by (relation "measure (\<lambda>(m, mp, ret). span (ctx_r mp))")
    (auto dest!: any.shrinks [OF sym] manifest_entry_moves [OF sym] simp: advances_def)

declare manifest_loop.simps [simp del]

interpretation manifest: entry_loop "\<lambda>_ _. True" manifest_entry manifest_loop
  by (rule entry_loop.intro)
    (rule manifest_loop.simps, erule manifest_entry_moves, erule (1) manifest_entry_local [OF agree_inside])

text \<open>The assignments at the head of the function.\<close>

definition manifest_reset :: "tcbor_range \<Rightarrow> suit_manifest \<Rightarrow> suit_manifest" where
  "manifest_reset manifest_bstr ret =
     ret\<lparr>man_envelope_bstr := tcbor_range_null, man_binary := manifest_bstr,
         man_common_bstr := tcbor_range_null, man_reference_uri := tcbor_range_null,
         man_dependency_resolution := (man_dependency_resolution ret)\<lparr>has_value := False\<rparr>,
         man_payload_fetch := (man_payload_fetch ret)\<lparr>has_value := False\<rparr>,
         man_install := (man_install ret)\<lparr>has_value := False\<rparr>,
         man_text := (man_text ret)\<lparr>has_value := False\<rparr>,
         man_coswid := (man_coswid ret)\<lparr>has_value := False\<rparr>,
         man_validate := tcbor_range_null, man_load := tcbor_range_null,
         man_run := tcbor_range_null\<rparr>"

definition suit_manifest_parse :: "memory \<Rightarrow> tcbor_range \<Rightarrow> suit_manifest \<Rightarrow> bool \<times> suit_manifest" where
  "suit_manifest_parse m manifest_bstr ret =
     (let ret = manifest_reset manifest_bstr ret; ctx = tcbor_toplevel manifest_bstr in
      case tcbor_read_map m ctx of
        (None, ctx) \<Rightarrow> (False, ret)
      | (Some mp, ctx) \<Rightarrow>
          case read_key_and_uint m SUIT_MANIFEST_VERSION mp of
            (None, mp) \<Rightarrow> (False, ret)
          | (Some v, mp) \<Rightarrow>
              let ret = ret\<lparr>man_version := v\<rparr> in
              if man_version ret \<noteq> 1 then (False, ret)
              else
                case read_key_and_uint m SUIT_MANIFEST_SEQUENCE_NUMBER mp of
                  (None, mp) \<Rightarrow> (False, ret)
                | (Some n, mp) \<Rightarrow>
                    case manifest_loop m mp (ret\<lparr>man_sequence_number := n\<rparr>) of
                      (False, mp, ret) \<Rightarrow> (False, ret)
                    | (True, mp, ret) \<Rightarrow>
                        case tcbor_close ctx mp of
                          (False, ctx) \<Rightarrow> (False, ret)
                        | (True, ctx) \<Rightarrow>
                            if tcbor_range_is_null (man_common_bstr ret) then (False, ret)
                            else (True, ret))"

subsection \<open>What an accepted manifest holds\<close>

definition sev_in :: "tcbor_range \<Rightarrow> suit_severable \<Rightarrow> bool" where
  "sev_in b s \<longleftrightarrow>
     (has_value s \<longrightarrow> (if severed s then inside (digest_bytes (sev_digest s)) b else inside (sev_body s) b))"

definition fields_in :: "tcbor_range \<Rightarrow> suit_manifest \<Rightarrow> bool" where
  "fields_in b ret \<longleftrightarrow>
     null_or_inside (man_reference_uri ret) b \<and> null_or_inside (man_validate ret) b \<and>
     null_or_inside (man_load ret) b \<and> null_or_inside (man_run ret) b \<and>
     sev_in b (man_dependency_resolution ret) \<and> sev_in b (man_payload_fetch ret) \<and>
     sev_in b (man_install ret) \<and> sev_in b (man_text ret) \<and> sev_in b (man_coswid ret)"

definition manifest_common_in :: "tcbor_range \<Rightarrow> suit_manifest \<Rightarrow> bool" where
  "manifest_common_in b ret \<longleftrightarrow>
     length (components (man_common ret)) = SUIT_COMPONENT_MAX \<and>
     (man_common_bstr ret = tcbor_range_null \<or>
      inside (man_common_bstr ret) b \<and> common_in (man_common_bstr ret) (man_common ret))"

text \<open>The whole: what is kept by every step of the loop over the manifest.\<close>

definition manifest_in :: "tcbor_range \<Rightarrow> suit_manifest \<Rightarrow> bool" where
  "manifest_in b ret \<longleftrightarrow> fields_in b ret \<and> manifest_common_in b ret"

lemmas manifest_in_defs = manifest_in_def fields_in_def manifest_common_in_def

lemma entry_bstr_in:
  assumes "inside (ctx_r mp) bnd" and "\<And>r. null_or_inside r bnd \<Longrightarrow> good (put r)"
  shows "case entry_bstr m mp put ret of (b, mp', ret') \<Rightarrow> b \<longrightarrow> good ret'"
  using assms bstr.inside_input [of m mp]
  by (auto simp: entry_bstr_def null_or_inside_def split: prod.splits option.splits)

lemma read_severed_in:
  assumes "read_severed m c s = (True, c', s')" and "inside (ctx_r c) bnd"
  shows "sev_in bnd s'"
  using assms(1)
proof (cases rule: read_severed_cases)
  case (Body body)
  then show ?thesis using bstr.inside_input [OF Body(2) assms(2)] by (simp add: sev_in_def)
next
  case (Digest c1 d)
  have "inside (digest_bytes d) (ctx_r c1)" using Digest(3) by (rule read_digest_inside)
  also have "inside (ctx_r c1) (ctx_r c)" using Digest(2) by (intro advances_inside bstr.advances)
  also note assms(2)
  finally show ?thesis using Digest(4) by (simp add: sev_in_def)
qed simp

lemma entry_severed_in:
  assumes "inside (ctx_r mp) bnd" and "\<And>s'. sev_in bnd s' \<Longrightarrow> good (put s')"
  shows "case entry_severed m mp s put of (b, mp', ret') \<Rightarrow> b \<longrightarrow> good ret'"
  using assms read_severed_in by (fastforce simp: entry_severed_def split: prod.splits)

lemma suit_parse_common_length:
  assumes "length (components (man_common ret)) = SUIT_COMPONENT_MAX"
    and "suit_parse_common m r (man_common ret) = (True, cm)"
  shows "length (components cm) = SUIT_COMPONENT_MAX" and "common_in r cm"
  using parse_common_in [OF assms(2,1)] by (auto simp: common_in_def components_in_def)

lemma entry_common_in:
  assumes "inside (ctx_r mp) bnd" and "manifest_in bnd ret"
  shows "case entry_common m mp ret of (b, mp', ret') \<Rightarrow> b \<longrightarrow> manifest_in bnd ret'"
proof -
  obtain x c where rd: "tcbor_read_bstr m mp = (x, c)" by (cases "tcbor_read_bstr m mp")
  show ?thesis
  proof (cases x)
    case (Some r)
    obtain b cm where pc: "suit_parse_common m r (man_common ret) = (b, cm)"
      by (cases "suit_parse_common m r (man_common ret)")
    have "inside r bnd" using bstr.inside_input [OF _ assms(1)] rd Some by blast
    then show ?thesis
      using rd Some pc assms(2) suit_parse_common_length [of ret m r cm]
      by (auto simp: entry_common_def manifest_in_defs)
  qed (simp add: entry_common_def rd)
qed

lemma manifest_in_puts:
  assumes "manifest_in b ret"
  shows "null_or_inside r b \<Longrightarrow> manifest_in b (ret\<lparr>man_reference_uri := r\<rparr>)"
    and "null_or_inside r b \<Longrightarrow> manifest_in b (ret\<lparr>man_validate := r\<rparr>)"
    and "null_or_inside r b \<Longrightarrow> manifest_in b (ret\<lparr>man_load := r\<rparr>)"
    and "null_or_inside r b \<Longrightarrow> manifest_in b (ret\<lparr>man_run := r\<rparr>)"
    and "sev_in b s \<Longrightarrow> manifest_in b (ret\<lparr>man_dependency_resolution := s\<rparr>)"
    and "sev_in b s \<Longrightarrow> manifest_in b (ret\<lparr>man_payload_fetch := s\<rparr>)"
    and "sev_in b s \<Longrightarrow> manifest_in b (ret\<lparr>man_install := s\<rparr>)"
    and "sev_in b s \<Longrightarrow> manifest_in b (ret\<lparr>man_text := s\<rparr>)"
    and "sev_in b s \<Longrightarrow> manifest_in b (ret\<lparr>man_coswid := s\<rparr>)"
  using assms by (simp_all add: manifest_in_defs)

lemma manifest_entry_in:
  assumes e: "manifest_entry m key mp ret = (True, mp', ret')" and ins: "inside (ctx_r mp) bnd"
    and ret: "manifest_in bnd ret"
  shows "manifest_in bnd ret'"
proof -
  let ?P = "\<lambda>x. case x of (b, mp', ret') \<Rightarrow> b \<longrightarrow> manifest_in bnd ret'"
  have sk: "?P (entry_skip m mp ret)" "?P (False, mp, ret)"
    using ret by (simp_all add: entry_skip_def split: prod.split)
  note bstr = entry_bstr_in [OF ins, where good = "manifest_in bnd"]
    and sev = entry_severed_in [OF ins, where good = "manifest_in bnd"]
    and puts = manifest_in_puts [OF ret]
  note all = sk entry_common_in [OF ins ret] bstr [OF puts(1)] bstr [OF puts(2)] bstr [OF puts(3)]
    bstr [OF puts(4)] sev [OF puts(5)] sev [OF puts(6)] sev [OF puts(7)] sev [OF puts(8)] sev [OF puts(9)]
  have "?P (manifest_entry m key mp ret)"
    by (cases "tcbor_is_uint key") (simp_all only: manifest_entry_def Let_def if_True if_False all split: if_split, simp_all)
  then show ?thesis using e by simp
qed

lemma read_key_and_uint_cases:
  assumes "read_key_and_uint m key c = (x, c')"
  obtains (Fail) "x = None" | (Ok) v c1 where "x = Some v" "tcbor_read_uint m c = (Some key, c1)"
    "tcbor_read_uint m c1 = (Some v, c')"
  using assms
  by (auto simp: read_key_and_uint_def split: prod.splits option.splits bool.splits elim: match_key_cases)

lemma read_key_and_uint_advances:
  "read_key_and_uint m key c = (Some v, c') \<Longrightarrow> advances (ctx_r c) (ctx_r c')"
  by (erule read_key_and_uint_cases) (auto intro: advances_trans dest: uint.advances)

lemma reset_simps [simp]:
  "man_binary (manifest_reset r ret) = r" "man_envelope_bstr (manifest_reset r ret) = tcbor_range_null"
  "man_common_bstr (manifest_reset r ret) = tcbor_range_null"
  "man_common (manifest_reset r ret) = man_common ret"
  by (simp_all add: manifest_reset_def)

lemma reset_fields: "fields_in b ((manifest_reset r ret)\<lparr>man_version := v, man_sequence_number := n\<rparr>)"
  by (simp add: manifest_reset_def fields_in_def sev_in_def)

lemma manifest_parse_cases:
  assumes "suit_manifest_parse m r ret = (True, ret')"
  obtains mp c mp1 n mp2 mp3 where "tcbor_read_map m (tcbor_toplevel r) = (Some mp, c)"
    "read_key_and_uint m SUIT_MANIFEST_VERSION mp = (Some 1, mp1)"
    "read_key_and_uint m SUIT_MANIFEST_SEQUENCE_NUMBER mp1 = (Some n, mp2)"
    "manifest_loop m mp2 ((manifest_reset r ret)\<lparr>man_version := 1, man_sequence_number := n\<rparr>) =
       (True, mp3, ret')"
    "\<not> tcbor_range_is_null (man_common_bstr ret')"
proof -
  note sp = prod.splits option.splits bool.splits if_split_asm
  define ret0 where "ret0 = manifest_reset r ret"
  note P = assms [unfolded suit_manifest_parse_def, folded ret0_def, unfolded Let_def]
  obtain x c where 1: "tcbor_read_map m (tcbor_toplevel r) = (x, c)" by fastforce
  with P obtain mp where mp: "x = Some mp" by (cases x) auto
  obtain y mp1 where 2: "read_key_and_uint m SUIT_MANIFEST_VERSION mp = (y, mp1)" by fastforce
  with P 1 mp obtain v where v: "y = Some v" by (cases y) auto
  have v1: "v = 1" using P 1 mp 2 v by (cases "v = 1") auto
  obtain z mp2 where 3: "read_key_and_uint m SUIT_MANIFEST_SEQUENCE_NUMBER mp1 = (z, mp2)" by fastforce
  with P 1 mp 2 v v1 obtain n where n: "z = Some n" by (cases z) auto
  obtain b mp3 ret3 where 4:
    "manifest_loop m mp2 (ret0\<lparr>man_version := 1, man_sequence_number := n\<rparr>) = (b, mp3, ret3)"
    by (rule prod_cases3)
  with P 1 mp 2 v v1 3 n have b: "b" by (cases b) auto
  have "ret' = ret3" "\<not> tcbor_range_is_null (man_common_bstr ret3)"
    using P 1 mp 2 v v1 3 n 4 b by (auto split: sp)
  then show ?thesis
    by (intro that [of mp c mp1 n mp2 mp3]) (use 1 2 3 4 mp v v1 n b in \<open>simp_all add: ret0_def\<close>)
qed

text \<open>No entry touches what is decided before the loop.\<close>

definition manifest_head :: "suit_manifest \<Rightarrow> u64 \<times> u64 \<times> tcbor_range \<times> tcbor_range" where
  "manifest_head ret =
     (man_version ret, man_sequence_number ret, man_binary ret, man_envelope_bstr ret)"

lemma head_puts:
  "manifest_head (ret\<lparr>man_reference_uri := r\<rparr>) = manifest_head ret"
  "manifest_head (ret\<lparr>man_validate := r\<rparr>) = manifest_head ret"
  "manifest_head (ret\<lparr>man_load := r\<rparr>) = manifest_head ret"
  "manifest_head (ret\<lparr>man_run := r\<rparr>) = manifest_head ret"
  "manifest_head (ret\<lparr>man_dependency_resolution := s\<rparr>) = manifest_head ret"
  "manifest_head (ret\<lparr>man_payload_fetch := s\<rparr>) = manifest_head ret"
  "manifest_head (ret\<lparr>man_install := s\<rparr>) = manifest_head ret"
  "manifest_head (ret\<lparr>man_text := s\<rparr>) = manifest_head ret"
  "manifest_head (ret\<lparr>man_coswid := s\<rparr>) = manifest_head ret"
  by (simp_all add: manifest_head_def)

lemma manifest_entry_head:
  assumes "manifest_entry m key mp ret = (b, mp', ret')"
  shows "manifest_head ret' = manifest_head ret"
proof -
  let ?P = "\<lambda>x. case x of (b, mp', ret') \<Rightarrow> manifest_head ret' = manifest_head ret"
  have fixed: "?P (entry_skip m mp ret)" "?P (False, mp, ret)" "?P (entry_common m mp ret)"
    by (simp_all add: entry_skip_def entry_common_def manifest_head_def split: prod.split option.split)
  have bstr: "?P (entry_bstr m mp put ret)" if "\<And>r. manifest_head (put r) = manifest_head ret" for put
    using that by (simp add: entry_bstr_def split: prod.split option.split)
  have sev: "?P (entry_severed m mp s put)" if "\<And>r. manifest_head (put r) = manifest_head ret" for s put
    using that by (simp add: entry_severed_def split: prod.split)
  note all = fixed bstr [OF head_puts(1)] bstr [OF head_puts(2)] bstr [OF head_puts(3)]
    bstr [OF head_puts(4)] sev [OF head_puts(5)] sev [OF head_puts(6)] sev [OF head_puts(7)]
    sev [OF head_puts(8)] sev [OF head_puts(9)]
  have "?P (manifest_entry m key mp ret)"
    by (cases "tcbor_is_uint key")
      (simp_all only: manifest_entry_def Let_def if_True if_False all split: if_split, simp_all)
  then show ?thesis using assms by simp
qed

lemma manifest_parse_accepts:
  assumes p: "suit_manifest_parse m r ret = (True, ret')"
    and len: "length (components (man_common ret)) = SUIT_COMPONENT_MAX"
  shows "man_version ret' = 1" and "man_binary ret' = r" and "man_envelope_bstr ret' = tcbor_range_null"
    and "manifest_in r ret'" and "man_common_bstr ret' \<noteq> tcbor_range_null"
proof -
  from p obtain mp c mp1 n mp2 mp3 where 1: "tcbor_read_map m (tcbor_toplevel r) = (Some mp, c)"
    and 2: "read_key_and_uint m SUIT_MANIFEST_VERSION mp = (Some 1, mp1)"
    and 3: "read_key_and_uint m SUIT_MANIFEST_SEQUENCE_NUMBER mp1 = (Some n, mp2)"
    and 4: "manifest_loop m mp2 ((manifest_reset r ret)\<lparr>man_version := 1, man_sequence_number := n\<rparr>) =
       (True, mp3, ret')"
    and 5: "\<not> tcbor_range_is_null (man_common_bstr ret')"
    by (rule manifest_parse_cases)
  let ?ret = "(manifest_reset r ret)\<lparr>man_version := 1, man_sequence_number := n\<rparr>"
  have "inside (ctx_r mp2) (ctx_r mp)"
    using advances_trans [OF read_key_and_uint_advances [OF 2] read_key_and_uint_advances [OF 3]]
    by (rule advances_inside)
  also have "inside (ctx_r mp) r" using 1 by (rule toplevel_map_inside)
  finally have ins: "inside (ctx_r mp2) r" .
  have "manifest_in r ?ret"
    using len reset_fields by (simp add: manifest_in_def manifest_common_in_def)
  from manifest.loop_invariant [where good = "manifest_in r", OF manifest_entry_in 4 ins this]
  show "manifest_in r ret'" .
  have "manifest_head ret' = manifest_head ?ret"
    by (rule manifest.loop_invariant [where good = "\<lambda>x. manifest_head x = manifest_head ?ret", OF _ 4 ins refl])
      (simp only: manifest_entry_head)
  then show "man_version ret' = 1" "man_binary ret' = r" "man_envelope_bstr ret' = tcbor_range_null"
    by (simp_all add: manifest_head_def)
  show "man_common_bstr ret' \<noteq> tcbor_range_null"
    using 5 by (auto simp: tcbor_range_is_null_def tcbor_range_null_def)
qed

lemma match_key_local: "agree m m' (ctx_r c) \<Longrightarrow> match_key m c key = match_key m' c key"
  by (simp add: match_key_def uint.local [of m m'])

lemma read_key_and_uint_local:
  assumes "agree m m' (ctx_r c)"
  shows "read_key_and_uint m key c = read_key_and_uint m' key c"
proof -
  obtain b c1 where mk: "match_key m c key = (b, c1)" by (cases "match_key m c key")
  have mk': "match_key m' c key = (b, c1)" using match_key_local [OF assms] mk by simp
  have "agree m m' (ctx_r c1)"
    using mk by (cases rule: match_key_cases) (auto intro: uint.agree_after assms)
  then have "tcbor_read_uint m c1 = tcbor_read_uint m' c1" by (rule uint.local)
  with mk mk' show ?thesis by (cases b) (simp_all add: read_key_and_uint_def)
qed

lemma manifest_parse_local:
  assumes "agree m m' r"
  shows "suit_manifest_parse m r ret = suit_manifest_parse m' r ret"
proof -
  obtain x c where rd: "tcbor_read_map m (tcbor_toplevel r) = (x, c)" by fastforce
  have rd': "tcbor_read_map m' (tcbor_toplevel r) = (x, c)"
    using map.local [of m m' "tcbor_toplevel r"] assms rd by simp
  show ?thesis
  proof (cases x)
    case None
    then show ?thesis using rd rd' by (simp add: suit_manifest_parse_def Let_def)
  next
    case (Some mp)
    have a0: "agree m m' (ctx_r mp)"
      using toplevel_map_inside rd Some assms by (blast intro: agree_inside)
    obtain y mp1 where k1: "read_key_and_uint m SUIT_MANIFEST_VERSION mp = (y, mp1)" by fastforce
    have a1: "agree m m' (ctx_r mp1)" if "y = Some v" for v
      using read_key_and_uint_advances k1 that a0 by (blast intro: agree_advances)
    obtain z mp2 where k2: "read_key_and_uint m SUIT_MANIFEST_SEQUENCE_NUMBER mp1 = (z, mp2)" by fastforce
    have a2: "agree m m' (ctx_r mp2)" if "y = Some v" "z = Some n" for v n
      using read_key_and_uint_advances k2 that a1 by (blast intro: agree_advances)
    have k1': "read_key_and_uint m' SUIT_MANIFEST_VERSION mp = (y, mp1)"
      using read_key_and_uint_local [OF a0] k1 by simp
    have k2': "y = Some v \<Longrightarrow> read_key_and_uint m' SUIT_MANIFEST_SEQUENCE_NUMBER mp1 = (z, mp2)" for v
      using read_key_and_uint_local [OF a1] k2 by simp
    have lp: "y = Some v \<Longrightarrow> z = Some n \<Longrightarrow> manifest_loop m mp2 s = manifest_loop m' mp2 s" for v n s
      using manifest.loop_local a2 by blast
    define ret0 where "ret0 = manifest_reset r ret"
    show ?thesis
      unfolding suit_manifest_parse_def Let_def ret0_def [symmetric]
      using rd rd' Some k1 k1' k2 k2' lp
      by (cases y; cases z) simp_all
  qed
qed

subsection \<open>The arrays keep their sizes\<close>

text \<open>Whatever a parse does, the fixed arrays of the structures stay as long as they are.\<close>

definition common_shape :: "suit_common \<Rightarrow> bool" where
  "common_shape ret \<longleftrightarrow>
     length (components ret) = SUIT_COMPONENT_MAX \<and> length (dependencies ret) = SUIT_DEPENDENCY_MAX"

definition manifest_shape :: "suit_manifest \<Rightarrow> bool" where
  "manifest_shape ret \<longleftrightarrow> common_shape (man_common ret)"

lemma parse_components_shape:
  "parse_components m a ret = (b, a', ret') \<Longrightarrow> common_shape ret \<Longrightarrow> common_shape ret'"
proof (induction m a ret rule: parse_components.induct)
  case (1 m a ret)
  from "1.prems"(1) show ?case
  proof (cases rule: parse_components_step)
    case (More a1 r)
    have "read_component m a (components ret ! n_components ret) =
        (True, a1, (components ret ! n_components ret)\<lparr>id_cbor := r\<rparr>)"
      using More(2) by (simp add: read_component_def)
    from "1.IH" [OF More(3,1) this [symmetric] _ refl] More(4) "1.prems"(2) show ?thesis
      by (simp add: common_shape_def)
  qed (use "1.prems" in auto)
qed

lemma common_entry_shape:
  assumes e: "common_entry m key mp s = (b, mp', s')" and s: "common_shape (cs_ret s)"
  shows "common_shape (cs_ret s')"
  using common_entry_dispatch [OF e]
proof (elim disjE conjE)
  assume "common_dependencies m mp s = (b, mp', s')"
  then show ?thesis
  proof (cases rule: common_dependencies_cases)
    case (Array array mp1 array' ret)
    then show ?thesis
      using parse_dependencies_moves [OF Array(3)] s by (auto simp: common_shape_def)
  qed (use s in auto)
next
  assume "common_components m mp s = (b, mp', s')"
  then show ?thesis
    by (cases rule: common_components_cases) (use s parse_components_shape in auto)
next
  assume "common_sequence m mp s = (b, mp', s')"
  then show ?thesis
    by (cases rule: common_sequence_cases) (use s in \<open>auto simp: common_shape_def\<close>)
qed (use s in simp)

lemma parse_common_shape:
  assumes "suit_parse_common m r ret = (b, ret')" and "common_shape ret"
  shows "common_shape ret'"
  using assms(1)
proof (cases rule: parse_common_cases)
  case (No_map c)
  then show ?thesis using assms(2) by (simp add: common_shape_def)
next
  case (Map mp c mp' s)
  have "common_shape (cs_ret s)"
  proof (rule common.loop_frame [where good = "\<lambda>s. common_shape (cs_ret s)", OF _ Map(2)])
    show "common_shape (cs_ret s')" if "common_entry m key c s = (b, c', s')" "common_shape (cs_ret s)"
      for key c s b c' s' using that by (rule common_entry_shape)
  qed (use assms(2) in \<open>simp add: common_shape_def\<close>)
  then show ?thesis using Map(3) by simp
qed

lemma shape_puts:
  "manifest_shape (ret\<lparr>man_reference_uri := r\<rparr>) = manifest_shape ret"
  "manifest_shape (ret\<lparr>man_validate := r\<rparr>) = manifest_shape ret"
  "manifest_shape (ret\<lparr>man_load := r\<rparr>) = manifest_shape ret"
  "manifest_shape (ret\<lparr>man_run := r\<rparr>) = manifest_shape ret"
  "manifest_shape (ret\<lparr>man_dependency_resolution := s\<rparr>) = manifest_shape ret"
  "manifest_shape (ret\<lparr>man_payload_fetch := s\<rparr>) = manifest_shape ret"
  "manifest_shape (ret\<lparr>man_install := s\<rparr>) = manifest_shape ret"
  "manifest_shape (ret\<lparr>man_text := s\<rparr>) = manifest_shape ret"
  "manifest_shape (ret\<lparr>man_coswid := s\<rparr>) = manifest_shape ret"
  by (simp_all add: manifest_shape_def)

lemma manifest_entry_shape:
  assumes e: "manifest_entry m key mp ret = (b, mp', ret')" and ret: "manifest_shape ret"
  shows "manifest_shape ret'"
proof -
  let ?P = "\<lambda>x. case x of (b, mp', ret') \<Rightarrow> manifest_shape ret'"
  have fixed: "?P (entry_skip m mp ret)" "?P (False, mp, ret)"
    using ret by (simp_all add: entry_skip_def split: prod.split)
  have cm: "?P (entry_common m mp ret)"
  proof -
    obtain x c where rd: "tcbor_read_bstr m mp = (x, c)" by fastforce
    show ?thesis
    proof (cases x)
      case (Some r)
      obtain ok cm where pc: "suit_parse_common m r (man_common ret) = (ok, cm)" by fastforce
      then show ?thesis
        using rd Some ret parse_common_shape [OF pc] by (simp add: entry_common_def manifest_shape_def)
    qed (use rd ret in \<open>simp add: entry_common_def\<close>)
  qed
  have bstr: "?P (entry_bstr m mp put ret)" if "\<And>r. manifest_shape (put r) = manifest_shape ret" for put
    using that ret by (simp add: entry_bstr_def split: prod.split option.split)
  have sev: "?P (entry_severed m mp s put)" if "\<And>r. manifest_shape (put r) = manifest_shape ret" for s put
    using that ret by (simp add: entry_severed_def split: prod.split)
  note all = fixed cm bstr [OF shape_puts(1)] bstr [OF shape_puts(2)] bstr [OF shape_puts(3)]
    bstr [OF shape_puts(4)] sev [OF shape_puts(5)] sev [OF shape_puts(6)] sev [OF shape_puts(7)]
    sev [OF shape_puts(8)] sev [OF shape_puts(9)]
  have "?P (manifest_entry m key mp ret)"
    by (cases "tcbor_is_uint key")
      (simp_all only: manifest_entry_def Let_def if_True if_False all split: if_split, simp_all)
  then show ?thesis using e by simp
qed

lemma manifest_parse_shape:
  assumes p: "suit_manifest_parse m r ret = (b, ret')" and ret: "manifest_shape ret"
  shows "manifest_shape ret'"
proof -
  define ret0 where "ret0 = manifest_reset r ret"
  have s0: "manifest_shape (ret0\<lparr>man_version := v\<rparr>)" "manifest_shape ret0"
    "manifest_shape (ret0\<lparr>man_version := v, man_sequence_number := n\<rparr>)" for v n
    using ret by (simp_all add: ret0_def manifest_shape_def)
  have lp: "manifest_shape s'" if "manifest_loop m c s = (b, c', s')" "manifest_shape s" for c s b c' s'
    using manifest.loop_frame [where good = manifest_shape, OF _ that] manifest_entry_shape by blast
  note P = p [unfolded suit_manifest_parse_def, folded ret0_def, unfolded Let_def]
  obtain x c where 1: "tcbor_read_map m (tcbor_toplevel r) = (x, c)" by fastforce
  show ?thesis
  proof (cases x)
    case None
    then show ?thesis using P 1 s0 by auto
  next
    case (Some mp)
    note mp = this
    obtain y mp1 where 2: "read_key_and_uint m SUIT_MANIFEST_VERSION mp = (y, mp1)" by fastforce
    obtain z mp2 where 3: "read_key_and_uint m SUIT_MANIFEST_SEQUENCE_NUMBER mp1 = (z, mp2)" by fastforce
    show ?thesis
    proof (cases "\<exists>v n. y = Some v \<and> v = 1 \<and> z = Some n")
      case False
      then have "ret' = ret0 \<or> (\<exists>v. ret' = ret0\<lparr>man_version := v\<rparr>)"
        using P 1 mp 2 3 by (cases y; cases z) (auto split: if_splits)
      then show ?thesis using s0 by auto
    next
      case True
      then obtain n where yz: "y = Some 1" "z = Some n" by blast
      obtain ok mp3 ret3 where 4:
        "manifest_loop m mp2 (ret0\<lparr>man_version := 1, man_sequence_number := n\<rparr>) = (ok, mp3, ret3)"
        by (rule prod_cases3)
      have "ret' = ret3"
        using P 1 mp 2 3 yz 4 by (auto split: bool.split_asm prod.split_asm if_split_asm)
      then show ?thesis using lp [OF 4] s0 by simp
    qed
  qed
qed

end
