(* ===== verification/Cbor_Spec.thy ===== *)
theory Cbor_Spec
  imports Tcbor
begin

text \<open>
  What the CBOR reader promises, stated over lists of bytes and natural numbers: the meaning
  of an item head, the encoding of whole data items, and the lemmas that the pointer code
  of \<open>Tcbor\<close> refines the first and inverts the second.
\<close>

unbundle bit_operations_syntax

section \<open>Heads as numbers\<close>

lemma unat_u8_less: "unat (b :: u8) < 256"
proof -
  have "unat b < 2 ^ LENGTH(8)" by (rule unsigned_less)
  then show ?thesis by simp
qed

lemma unat_low_bits: "unat (h AND 0x1F) = unat h mod 32" for h :: u8
proof -
  have "h AND 0x1F = take_bit 5 h" by (simp add: take_bit_eq_mask mask_eq_exp_minus_1)
  then have "unat (h AND 0x1F) = take_bit 5 (unat h)" by (simp only: unsigned_take_bit_eq)
  then show ?thesis by (simp add: take_bit_eq_mod)
qed

lemma unat_high_bits: "unat (drop_bit 5 h) = unat h div 32" for h :: u8
proof -
  have "unat (drop_bit 5 h) = drop_bit 5 (take_bit 8 (unat h))"
    by (simp only: unsigned_drop_bit_eq) simp
  then show ?thesis using unat_u8_less [of h] by (simp add: drop_bit_eq_div take_bit_eq_mod)
qed

definition be_nat :: "u8 list \<Rightarrow> nat" where
  "be_nat = foldl (\<lambda>a b. 256 * a + unat b) 0"

lemma unat_shift_or:
  assumes "unat a < 2 ^ 56"
  shows "unat (push_bit 8 a OR ucast b :: u64) = 256 * unat a + unat (b :: u8)"
proof -
  have "push_bit 8 a OR ucast b = push_bit 8 a + (ucast b :: u64)"
    by (rule disjunctive_add [symmetric])
      (auto simp: bit_push_bit_iff bit_unsigned_iff dest: bit_imp_le_length)
  also have "\<dots> = of_nat (256 * unat a + unat b)"
    by (simp add: push_bit_eq_mult)
  also have "unat (of_nat (256 * unat a + unat b) :: u64) = 256 * unat a + unat b"
    using assms unat_u8_less [of b] by (intro unat_of_nat_ptr) simp
  finally show ?thesis .
qed

lemma be_fold_unat:
  "unat a < 256 ^ k \<Longrightarrow> k + length bs \<le> 8 \<Longrightarrow>
     unat (be_fold a bs) = foldl (\<lambda>a b. 256 * a + unat b) (unat a) bs"
proof (induction bs arbitrary: a k)
  case Nil
  then show ?case by (simp add: be_fold_def)
next
  case (Cons b bs)
  have "(256 :: nat) ^ k \<le> 256 ^ 7" by (rule power_increasing) (use Cons.prems in auto)
  then have lt: "unat a < 2 ^ 56" using Cons.prems(1) by simp
  have "unat (push_bit 8 a OR ucast b) < 256 ^ Suc k"
    using Cons.prems(1) unat_u8_less [of b] by (simp add: unat_shift_or [OF lt])
  then show ?case
    using Cons.IH [of "push_bit 8 a OR ucast b" "Suc k"] Cons.prems
    by (simp add: be_fold_def unat_shift_or [OF lt])
qed

lemma unat_be_fold: "length bs \<le> 8 \<Longrightarrow> unat (be_fold 0 bs) = be_nat bs"
  using be_fold_unat [of 0 0 bs] by (simp add: be_nat_def)

section \<open>Reading a head, over lists\<close>

datatype head = Num u8 nat | Str u8 "u8 list"

definition spec_read :: "u8 list \<Rightarrow> tcbor_error + head \<times> u8 list" where
  "spec_read bs =
     (case bs of
        [] \<Rightarrow> Inl tcbor_NEED_DATA
      | h # t \<Rightarrow>
          let mt = unat h div 32; ai = unat h mod 32;
              n = (if ai < 24 then 0 else 2 ^ (ai - 24));
              arg = (if ai < 24 then ai else be_nat (take n t));
              rest = drop n t in
          if ai = 31 then Inl tcbor_NOT_SUPPORTED
          else if 28 \<le> ai then Inl tcbor_MALFORMED
          else if length t < n then Inl tcbor_NEED_DATA
          else if mt = 7 \<and> ai = 24 \<and> arg < 32 then Inl tcbor_MALFORMED
          else if mt = 2 \<or> mt = 3 then
            if length rest < arg then Inl tcbor_NEED_DATA
            else Inr (Str h (take arg rest), drop arg rest)
          else Inr (Num h arg, rest))"

text \<open>The abstraction of an item and of the result of the head reader.\<close>

definition abs_any :: "memory \<Rightarrow> tcbor_any \<Rightarrow> head" where
  "abs_any m a =
     (if tcbor_is_bstr a \<or> tcbor_is_tstr a then Str (header a) (bytes_of m (any_bytes a))
      else Num (header a) (unat (any_value a)))"

fun abs_read :: "memory \<Rightarrow> (tcbor_any \<times> tcbor_range) option \<times> tcbor_error
    \<Rightarrow> tcbor_error + head \<times> u8 list" where
  "abs_read m (None, e) = Inl e"
| "abs_read m (Some (a, r), e) = Inr (abs_any m a, bytes_of m r)"

lemma byte_eq_iff: "drop_bit 5 h = of_nat k \<longleftrightarrow> unat h div 32 = k" if "k < 8" for h :: u8
  using that by (auto simp: unat_high_bits [symmetric] unat_of_nat)

lemma high_bits_eq:
  "drop_bit 5 h = 2 \<longleftrightarrow> unat h div 32 = 2" "drop_bit 5 h = 3 \<longleftrightarrow> unat h div 32 = 3"
  "drop_bit 5 h = 7 \<longleftrightarrow> unat h div 32 = 7" "drop_bit 5 h = 0 \<longleftrightarrow> unat h div 32 = 0"
  "drop_bit 5 h = 1 \<longleftrightarrow> unat h div 32 = 1" "drop_bit 5 h = 4 \<longleftrightarrow> unat h div 32 = 4"
  "drop_bit 5 h = 5 \<longleftrightarrow> unat h div 32 = 5" "drop_bit 5 h = 6 \<longleftrightarrow> unat h div 32 = 6"
  for h :: u8
  using byte_eq_iff [of 2 h] byte_eq_iff [of 3 h] byte_eq_iff [of 7 h] byte_eq_iff [of 0 h]
    byte_eq_iff [of 1 h] byte_eq_iff [of 4 h] byte_eq_iff [of 5 h] byte_eq_iff [of 6 h]
  by simp_all

lemma low_bits_eq:
  "h AND 0x1F = k \<longleftrightarrow> unat h mod 32 = unat k" "k \<le> h AND 0x1F \<longleftrightarrow> unat k \<le> unat h mod 32"
  for h :: u8
  by (simp_all add: unat_low_bits [symmetric] word_le_nat_alt word_unat_eq_iff)

lemma bytes_of_shift:
  "k \<le> unat (e - b) \<Longrightarrow>
     bytes_of m \<lparr>rbegin = b + of_nat k, rend = e\<rparr> = drop k (peek m b (unat (e - b)))"
  by (simp add: bytes_of_def span_def drop_peek unat_dist_offset)

lemma bytes_of_Cons:
  "b \<noteq> e \<Longrightarrow> bytes_of m \<lparr>rbegin = b, rend = e\<rparr> = m b # bytes_of m \<lparr>rbegin = b + 1, rend = e\<rparr>"
  using unat_dist_pos [of b e]
  by (cases "unat (e - b)") (auto simp: bytes_of_def span_def unat_dist_step)

lemma argument_length_nat:
  "argument_length (h AND 0x1F) = (if unat h mod 32 < 24 then 0 else 2 ^ (unat h mod 32 - 24))"
  by (auto simp: argument_length_def low_bits_eq unat_low_bits)

lemma argument_value:
  fixes h :: u8
  defines "n \<equiv> argument_length (h AND 0x1F)"
  assumes "n \<le> unat (e - (b + 1))" and "unat h mod 32 < 28"
  shows "unat (if 24 \<le> h AND 0x1F then be_fold 0 (peek m (b + 1) n) else (ucast (h AND 0x1F) :: u64)) =
    (if unat h mod 32 < 24 then unat h mod 32
     else be_nat (take n (bytes_of m \<lparr>rbegin = b + 1, rend = e\<rparr>)))"
proof (cases "unat h mod 32 < 24")
  case True
  have "unat (ucast (h AND 0x1F) :: u64) = unat (h AND 0x1F)" using unat_u8_less [of "h AND 0x1F"]
    by (simp add: unsigned_ucast_eq take_bit_nat_eq_self)
  with True show ?thesis by (simp add: low_bits_eq unat_low_bits)
next
  case False
  have "(2 :: nat) ^ (unat h mod 32 - 24) \<le> 2 ^ 3"
    by (rule power_increasing) (use assms(3) in auto)
  then have "n \<le> 8" unfolding n_def argument_length_nat by simp
  then show ?thesis
    using False assms(2) by (simp add: low_bits_eq unat_be_fold bytes_of_def span_def take_peek)
qed

text \<open>Both sides agree once the head has all its bytes: the last step, on opaque numbers.\<close>

lemma read_any_step:
  fixes p e :: ptr
  assumes v: "unat v = arg" and rest: "bytes_of m \<lparr>rbegin = p, rend = e\<rparr> = t"
  shows "abs_read m
      (if drop_bit 5 h = 7 \<and> h AND 0x1F = 24 \<and> v < 32 then (None, tcbor_MALFORMED)
       else if drop_bit 5 h = 2 \<or> drop_bit 5 h = 3 then
         if e - p < v then (None, tcbor_NEED_DATA)
         else (Some (\<lparr>header = h, payload = AnyBytes \<lparr>rbegin = p, rend = p + v\<rparr>\<rparr>,
                     \<lparr>rbegin = p + v, rend = e\<rparr>), tcbor_OK)
       else (Some (\<lparr>header = h, payload = AnyValue v\<rparr>, \<lparr>rbegin = p, rend = e\<rparr>), tcbor_OK)) =
    (if unat h div 32 = 7 \<and> unat h mod 32 = 24 \<and> arg < 32 then Inl tcbor_MALFORMED
     else if unat h div 32 = 2 \<or> unat h div 32 = 3 then
       if length t < arg then Inl tcbor_NEED_DATA else Inr (Str h (take arg t), drop arg t)
     else Inr (Num h arg, t))"
proof -
  have len: "length t = unat (e - p)" unfolding rest [symmetric] by (simp add: span_def)
  have small: "v < 32 \<longleftrightarrow> arg < 32" "e - p < v \<longleftrightarrow> length t < arg"
    by (simp_all add: word_less_nat_alt len v)
  have str: "bytes_of m \<lparr>rbegin = p, rend = p + v\<rparr> = take arg t"
    "bytes_of m \<lparr>rbegin = p + v, rend = e\<rparr> = drop arg t" if "\<not> length t < arg"
  proof -
    have le: "arg \<le> unat (e - p)" using that len by simp
    then show "bytes_of m \<lparr>rbegin = p, rend = p + v\<rparr> = take arg t"
      unfolding rest [symmetric] by (simp add: bytes_of_def span_def take_peek v)
    have "of_nat arg = v" using v [symmetric] by simp
    then show "bytes_of m \<lparr>rbegin = p + v, rend = e\<rparr> = drop arg t"
      unfolding rest [symmetric] using bytes_of_shift [OF le, of m]
      by (simp add: bytes_of_def span_def)
  qed
  show ?thesis
    unfolding high_bits_eq low_bits_eq small
    by (simp add: abs_any_def any_bytes_def any_value_def major_defs major_def high_bits_eq str rest v)
qed

lemma read_any_refines:
  "abs_read m (tcbor_primitive_read_any m r) = spec_read (bytes_of m r)"
proof (cases "rbegin r = rend r")
  case True
  then show ?thesis
    by (simp add: tcbor_primitive_read_any_def spec_read_def bytes_of_def span_def)
next
  case False
  obtain b e where r: "r = \<lparr>rbegin = b, rend = e\<rparr>" by (cases r)
  define h n t where "h = m b" and "n = argument_length (h AND 0x1F)"
    and "t = bytes_of m \<lparr>rbegin = b + 1, rend = e\<rparr>"
  define v where "v = (if 24 \<le> h AND 0x1F then be_fold 0 (peek m (b + 1) n) else (ucast (h AND 0x1F) :: u64))"
  define arg where "arg = (if unat h mod 32 < 24 then unat h mod 32 else be_nat (take n t))"
  have bytes: "bytes_of m r = h # t" using False bytes_of_Cons [of b e m] by (simp add: r h_def t_def)
  have len: "length t = unat (e - (b + 1))" by (simp add: t_def span_def)
  have n: "n = (if unat h mod 32 < 24 then 0 else 2 ^ (unat h mod 32 - 24))"
    by (simp only: n_def argument_length_nat)
  have ne: "b \<noteq> e" using False by (simp add: r)
  note code = tcbor_primitive_read_any_def [of m r, unfolded r Let_def tcbor_range.simps h_def [symmetric]
    argument_eq n_def [symmetric] v_def [symmetric]]
  note spec = spec_read_def [of "h # t", unfolded list.case Let_def n [symmetric] arg_def [symmetric]]
  show ?thesis
  proof (cases "unat h mod 32 < 28 \<and> n \<le> unat (e - (b + 1))")
    case True
    have v: "unat v = arg"
      unfolding v_def arg_def t_def n_def by (rule argument_value) (use True n_def in auto)
    have rest: "bytes_of m \<lparr>rbegin = b + 1 + of_nat n, rend = e\<rparr> = drop n t"
      using bytes_of_shift [of n e "b + 1" m] True by (simp add: t_def bytes_of_def span_def)
    have na: "h AND 0x1F \<noteq> 28" "h AND 0x1F \<noteq> 29" "h AND 0x1F \<noteq> 30" "h AND 0x1F \<noteq> 31"
      using True by (auto simp: low_bits_eq(1))
    have "spec_read (bytes_of m r) =
        (if unat h div 32 = 7 \<and> unat h mod 32 = 24 \<and> arg < 32 then Inl tcbor_MALFORMED
         else if unat h div 32 = 2 \<or> unat h div 32 = 3 then
           if length (drop n t) < arg then Inl tcbor_NEED_DATA
           else Inr (Str h (take arg (drop n t)), drop arg (drop n t))
         else Inr (Num h arg, drop n t))"
      unfolding bytes spec using True len by simp
    then show ?thesis
      unfolding read_any_step [OF v rest, symmetric] r code using True na ne by simp
  next
    case F: False
    have "spec_read (h # t) =
        (if unat h mod 32 = 31 then Inl tcbor_NOT_SUPPORTED
         else if 28 \<le> unat h mod 32 then Inl tcbor_MALFORMED
         else Inl tcbor_NEED_DATA)"
      unfolding spec using F len by auto
    moreover have "h AND 0x1F = 28 \<or> h AND 0x1F = 29 \<or> h AND 0x1F = 30 \<longleftrightarrow>
        28 \<le> unat h mod 32 \<and> unat h mod 32 \<noteq> 31" "h AND 0x1F = 31 \<longleftrightarrow> unat h mod 32 = 31"
      by (auto simp: low_bits_eq(1))
    ultimately show ?thesis
      unfolding r code using F ne bytes [unfolded r] by simp
  qed
qed

section \<open>Encoding data items\<close>

datatype cbor =
    CUint nat
  | CNint nat
  | CBstr "u8 list"
  | CTstr "u8 list"
  | CArray "cbor list"
  | CMap "(cbor \<times> cbor) list"
  | CTag nat cbor
  | CSimple u8

primrec be_bytes :: "nat \<Rightarrow> nat \<Rightarrow> u8 list" where
  "be_bytes 0 n = []"
| "be_bytes (Suc k) n = be_bytes k (n div 256) @ [of_nat n]"

text \<open>The shortest head with major type \<open>mt\<close> and argument \<open>n\<close>.\<close>

definition encode_head :: "nat \<Rightarrow> nat \<Rightarrow> u8 list" where
  "encode_head mt n =
     (if n < 24 then [of_nat (32 * mt + n)]
      else if n < 2 ^ 8 then of_nat (32 * mt + 24) # be_bytes 1 n
      else if n < 2 ^ 16 then of_nat (32 * mt + 25) # be_bytes 2 n
      else if n < 2 ^ 32 then of_nat (32 * mt + 26) # be_bytes 4 n
      else of_nat (32 * mt + 27) # be_bytes 8 n)"

fun encode :: "cbor \<Rightarrow> u8 list" where
  "encode (CUint n) = encode_head 0 n"
| "encode (CNint n) = encode_head 1 n"
| "encode (CBstr bs) = encode_head 2 (length bs) @ bs"
| "encode (CTstr bs) = encode_head 3 (length bs) @ bs"
| "encode (CArray cs) = encode_head 4 (length cs) @ concat (map encode cs)"
| "encode (CMap ps) = encode_head 5 (length ps) @ concat (map (\<lambda>p. encode (fst p) @ encode (snd p)) ps)"
| "encode (CTag n c) = encode_head 6 n @ encode c"
| "encode (CSimple v) = (if v < 24 then [of_nat (32 * 7 + unat v)] else [of_nat (32 * 7 + 24), v])"

text \<open>Simple values 24 to 31 have no encoding; tags and integers are 64-bit.\<close>

fun wf_cbor :: "cbor \<Rightarrow> bool" where
  "wf_cbor (CUint n) = (n < 2 ^ 64)"
| "wf_cbor (CNint n) = (n < 2 ^ 64)"
| "wf_cbor (CArray cs) = (\<forall>c \<in> set cs. wf_cbor c)"
| "wf_cbor (CMap ps) = (\<forall>p \<in> set ps. wf_cbor (fst p) \<and> wf_cbor (snd p))"
| "wf_cbor (CTag n c) = (n < 2 ^ 64 \<and> wf_cbor c)"
| "wf_cbor (CSimple v) = (v < 24 \<or> 32 \<le> v)"
| "wf_cbor _ = True"

lemma length_be_bytes [simp]: "length (be_bytes k n) = k"
  by (induction k arbitrary: n) auto

lemma be_nat_snoc: "be_nat (bs @ [b]) = 256 * be_nat bs + unat b"
  by (simp add: be_nat_def)

lemma be_nat_be_bytes: "be_nat (be_bytes k n) = n mod 256 ^ k"
proof (induction k arbitrary: n)
  case 0
  then show ?case by (simp add: be_nat_def)
next
  case (Suc k)
  have "256 * (n div 256 mod 256 ^ k) + n mod 256 = n mod (256 * 256 ^ k)"
    by (simp add: mod_mult2_eq)
  then show ?case by (simp add: be_nat_snoc Suc unat_of_nat)
qed

lemma head_bits:
  assumes "mt < 8" and "ai < 32"
  shows "unat (of_nat (32 * mt + ai) :: u8) div 32 = mt" and "unat (of_nat (32 * mt + ai) :: u8) mod 32 = ai"
proof -
  have "32 * mt + ai < 256" using assms by simp
  then have "unat (of_nat (32 * mt + ai) :: u8) = 32 * mt + ai"
    by (simp only: unat_of_nat) simp
  then show "unat (of_nat (32 * mt + ai) :: u8) div 32 = mt" "unat (of_nat (32 * mt + ai) :: u8) mod 32 = ai"
    using assms by simp_all
qed

lemma encode_head_nonempty [simp]: "encode_head mt n \<noteq> []"
  by (simp add: encode_head_def)

text \<open>A head is read back as its major type and its argument.\<close>

lemma spec_read_head:
  assumes "mt < 7" and "n < 2 ^ 64"
  obtains h where "unat h div 32 = mt"
    and "\<And>t. spec_read (encode_head mt n @ t) =
      (if mt = 2 \<or> mt = 3 then
         if length t < n then Inl tcbor_NEED_DATA else Inr (Str h (take n t), drop n t)
       else Inr (Num h n, t))"
proof -
  define ai where "ai = (if n < 24 then n else if n < 2 ^ 8 then 24 else if n < 2 ^ 16 then 25
    else if n < 2 ^ 32 then 26 else (27 :: nat))"
  define k where "k = (if n < 24 then 0 else 2 ^ (ai - 24) :: nat)"
  have ai: "ai < 28" "ai < 24 \<longleftrightarrow> n < 24" by (auto simp: ai_def)
  have enc: "encode_head mt n = of_nat (32 * mt + ai) # be_bytes k n"
    by (auto simp: encode_head_def ai_def k_def)
  have arg: "(if ai < 24 then ai else be_nat (take k (be_bytes k n @ t))) = n" for t
    using assms(2) by (auto simp: ai_def k_def be_nat_be_bytes)
  have rest: "drop k (be_bytes k n @ t) = t" "length (be_bytes k n @ t) \<ge> k" for t
    by simp_all
  have kn: "(if ai < 24 then 0 else 2 ^ (ai - 24)) = k" using ai by (simp add: k_def)
  define h bs where "h = (of_nat (32 * mt + ai) :: u8)" and "bs = be_bytes k n"
  have h: "unat h div 32 = mt" "unat h mod 32 = ai"
    unfolding h_def by (rule head_bits; use assms(1) ai in simp)+
  have "spec_read (encode_head mt n @ t) =
      (if mt = 2 \<or> mt = 3 then
         if length t < n then Inl tcbor_NEED_DATA else Inr (Str h (take n t), drop n t)
       else Inr (Num h n, t))" for t
  proof -
    note spec = spec_read_def [of "h # bs @ t", unfolded list.case Let_def h kn
        arg [of t, folded bs_def] rest(1) [of t, folded bs_def]]
    have "\<not> length (bs @ t) < k" "ai \<noteq> 31" "\<not> 28 \<le> ai" "mt \<noteq> 7"
      using ai assms(1) by (auto simp: bs_def)
    then show ?thesis
      unfolding enc h_def [symmetric] bs_def [symmetric] append_Cons spec by simp
  qed
  with h(1) show thesis by (rule that)
qed

lemma spec_read_simple:
  assumes "v < 24 \<or> 32 \<le> v"
  obtains h where "unat h div 32 = 7" and "\<And>t. spec_read (encode (CSimple v) @ t) = Inr (Num h (unat v), t)"
proof -
  define ai where "ai = (if v < 24 then unat v else 24)"
  define h where "h = (of_nat (32 * 7 + ai) :: u8)"
  have v: "v < 24 \<longleftrightarrow> unat v < 24" "32 \<le> v \<longleftrightarrow> 32 \<le> unat v"
    by (simp_all add: word_less_nat_alt word_le_nat_alt)
  then have ai: "ai < 25" by (simp add: ai_def)
  have h: "unat h div 32 = 7" "unat h mod 32 = ai"
    unfolding h_def by (rule head_bits; use ai in simp)+
  have enc: "encode (CSimple v) = h # (if v < 24 then [] else [v])"
    by (simp add: h_def ai_def)
  have "spec_read (encode (CSimple v) @ t) = Inr (Num h (unat v), t)" for t
  proof (cases "unat v < 24")
    case True
    then show ?thesis
      unfolding enc append_Cons spec_read_def list.case Let_def h using v by (simp add: ai_def)
  next
    case False
    then show ?thesis
      unfolding enc append_Cons spec_read_def list.case Let_def h using v assms
      by (simp add: ai_def be_nat_def)
  qed
  with h(1) show thesis by (rule that)
qed

section \<open>The reader on encoded items\<close>

fun_cases abs_read_InrE: "abs_read m x = Inr y"

lemma read_item:
  assumes "spec_read (bytes_of m r) = Inr (hdr, t)"
  obtains a r' where "tcbor_primitive_read_any m r = (Some (a, r'), tcbor_OK)"
    "abs_any m a = hdr" "bytes_of m r' = t"
proof -
  have "abs_read m (tcbor_primitive_read_any m r) = Inr (hdr, t)"
    using assms by (simp add: read_any_refines)
  then obtain a r' e where "tcbor_primitive_read_any m r = (Some (a, r'), e)"
    "abs_any m a = hdr" "bytes_of m r' = t"
    by (auto elim: abs_read_InrE)
  then show thesis using that read_any_Some(1) by blast
qed

text \<open>What the head of each kind of item looks like to the code.\<close>

lemma abs_any_Num:
  "abs_any m a = Num h n \<Longrightarrow> header a = h \<and> unat (any_value a) = n"
  by (auto simp: abs_any_def split: if_splits)

lemma abs_any_Str:
  "abs_any m a = Str h bs \<Longrightarrow> header a = h \<and> bytes_of m (any_bytes a) = bs"
  by (auto simp: abs_any_def split: if_splits)

definition encode_all :: "cbor list \<Rightarrow> u8 list" where
  "encode_all cs = concat (map encode cs)"

lemma encode_nonempty [simp]: "encode c \<noteq> []"
  by (cases c) auto

lemma length_encode_all: "length cs \<le> length (encode_all cs)"
proof (induction cs)
  case (Cons c cs)
  obtain b bs where "encode c = b # bs" by (cases "encode c") auto
  with Cons show ?case by (simp add: encode_all_def)
qed (simp add: encode_all_def)

fun pairs :: "(cbor \<times> cbor) list \<Rightarrow> cbor list" where
  "pairs [] = []"
| "pairs ((a, b) # ps) = a # b # pairs ps"

lemma encode_map: "encode (CMap ps) = encode_head 5 (length ps) @ encode_all (pairs ps)"
  by (simp add: encode_all_def) (induction ps rule: pairs.induct, auto)

lemma length_pairs: "length (pairs ps) = length ps + length ps"
  by (induction ps rule: pairs.induct) auto

lemma wf_pairs: "wf_cbor (CMap ps) \<Longrightarrow> c \<in> set (pairs ps) \<Longrightarrow> wf_cbor c"
  by (induction ps rule: pairs.induct) auto

text \<open>
  One step of the skip: an item at the front is replaced by the items its head announces.
\<close>

fun announced :: "cbor \<Rightarrow> cbor list" where
  "announced (CArray cs) = cs"
| "announced (CMap ps) = pairs ps"
| "announced (CTag n c) = [c]"
| "announced _ = []"

lemma no_wrap: "k + n < 2 ^ 64 \<Longrightarrow> \<not> (of_nat k + of_nat n < (of_nat k :: u64))"
proof -
  assume lt: "k + n < 2 ^ 64"
  then have "unat (of_nat (k + n) :: u64) = k + n" "unat (of_nat k :: u64) = k"
    by (intro unat_of_nat_ptr; simp)+
  then show ?thesis by (simp add: word_less_nat_alt del: of_nat_add flip: of_nat_add)
qed

text \<open>The skip loop after one head, on counts that do not wrap around.\<close>

lemma skip_after_head:
  assumes rd: "tcbor_primitive_read_any m s = (Some (a, s'), tcbor_OK)"
    and k: "Suc k < 2 ^ 64"
  shows "tcbor_is_tag a \<Longrightarrow>
      tcbor_primitive_skip m s (of_nat (Suc k)) e = tcbor_primitive_skip m s' (of_nat (Suc k)) tcbor_OK"
    and "\<lbrakk>tcbor_is_array a; unat (any_value a) = n; k + n < 2 ^ 64\<rbrakk> \<Longrightarrow>
      tcbor_primitive_skip m s (of_nat (Suc k)) e = tcbor_primitive_skip m s' (of_nat (k + n)) tcbor_OK"
    and "\<lbrakk>tcbor_is_map a; unat (any_value a) = n; k + n + n < 2 ^ 64\<rbrakk> \<Longrightarrow>
      tcbor_primitive_skip m s (of_nat (Suc k)) e = tcbor_primitive_skip m s' (of_nat (k + n + n)) tcbor_OK"
    and "\<lbrakk>\<not> tcbor_is_tag a; \<not> tcbor_is_array a; \<not> tcbor_is_map a\<rbrakk> \<Longrightarrow>
      tcbor_primitive_skip m s (of_nat (Suc k)) e = tcbor_primitive_skip m s' (of_nat k) tcbor_OK"
proof -
  have "unat (of_nat (Suc k) :: u64) = Suc k" using k by (intro unat_of_nat_ptr)
  then have nz: "(of_nat (Suc k) :: u64) \<noteq> 0" by (metis nat.distinct(1) unsigned_0)
  have dec: "(of_nat (Suc k) :: u64) - 1 = of_nat k" by simp
  note step = tcbor_primitive_skip.simps [of m s "of_nat (Suc k)" e, unfolded rd if_not_P [OF nz]
      prod.case option.case dec Let_def]
  have v: "any_value a = of_nat n" if "unat (any_value a) = n" for n
    using that [symmetric] by simp
  show "tcbor_is_tag a \<Longrightarrow>
      tcbor_primitive_skip m s (of_nat (Suc k)) e = tcbor_primitive_skip m s' (of_nat (Suc k)) tcbor_OK"
    unfolding step by simp
  show "\<lbrakk>tcbor_is_array a; unat (any_value a) = n; k + n < 2 ^ 64\<rbrakk> \<Longrightarrow>
      tcbor_primitive_skip m s (of_nat (Suc k)) e = tcbor_primitive_skip m s' (of_nat (k + n)) tcbor_OK"
    unfolding step using no_wrap [of k n] v [of n] by (simp add: major_defs)
  show "\<lbrakk>tcbor_is_map a; unat (any_value a) = n; k + n + n < 2 ^ 64\<rbrakk> \<Longrightarrow>
      tcbor_primitive_skip m s (of_nat (Suc k)) e = tcbor_primitive_skip m s' (of_nat (k + n + n)) tcbor_OK"
    unfolding step using no_wrap [of k n] no_wrap [of "k + n" n] v [of n] by (simp add: major_defs)
  show "\<lbrakk>\<not> tcbor_is_tag a; \<not> tcbor_is_array a; \<not> tcbor_is_map a\<rbrakk> \<Longrightarrow>
      tcbor_primitive_skip m s (of_nat (Suc k)) e = tcbor_primitive_skip m s' (of_nat k) tcbor_OK"
    unfolding step by simp
qed

lemma skip_item_step:
  assumes bytes: "bytes_of m s = encode c @ t" and wf: "wf_cbor c"
    and room: "k + length (encode c) < 2 ^ 64"
  obtains s' where "advances s s'" "span s' < span s"
    and "bytes_of m s' = encode_all (announced c) @ t" "\<forall>d \<in> set (announced c). wf_cbor d"
    and "tcbor_primitive_skip m s (of_nat (Suc k)) e =
         tcbor_primitive_skip m s' (of_nat (k + length (announced c))) tcbor_OK"
proof -
  note result = that
  have k: "Suc k < 2 ^ 64" using room by (cases "encode c") auto
  have finish: thesis
    if "tcbor_primitive_read_any m s = (Some (a, s'), tcbor_OK)"
      and "bytes_of m s' = encode_all (announced c) @ t" "\<forall>d \<in> set (announced c). wf_cbor d"
      and "tcbor_primitive_skip m s (of_nat (Suc k)) e =
         tcbor_primitive_skip m s' (of_nat (k + length (announced c))) tcbor_OK" for a s'
    using result read_primitive_advances [OF that(1)] read_any_Some(3) [OF that(1)] that by blast
  have num: thesis
    if p: "encode c = encode_head mt n @ encode_all (announced c)" "mt < 7" "mt \<noteq> 2" "mt \<noteq> 3" "n < 2 ^ 64"
      "\<forall>d \<in> set (announced c). wf_cbor d"
      "mt = 4 \<Longrightarrow> n = length (announced c)" "mt = 5 \<Longrightarrow> n + n = length (announced c)"
      "mt = 6 \<Longrightarrow> length (announced c) = 1" "mt < 4 \<Longrightarrow> announced c = []" for mt n
  proof -
    from p(2,5) obtain h where h: "unat h div 32 = mt"
      and "\<And>t. spec_read (encode_head mt n @ t) = Inr (Num h n, t)"
      using p(3,4) by (auto elim: spec_read_head)
    then have "spec_read (bytes_of m s) = Inr (Num h n, encode_all (announced c) @ t)"
      using p(1) bytes by simp
    then obtain a s' where rd: "tcbor_primitive_read_any m s = (Some (a, s'), tcbor_OK)"
      and a: "unat (header a) div 32 = mt" "unat (any_value a) = n"
      and rest: "bytes_of m s' = encode_all (announced c) @ t"
      using h by (auto elim!: read_item dest!: abs_any_Num)
    have "k + length (announced c) < 2 ^ 64"
      using room p(1) length_encode_all [of "announced c"] by simp
    then have "tcbor_primitive_skip m s (of_nat (Suc k)) e =
         tcbor_primitive_skip m s' (of_nat (k + length (announced c))) tcbor_OK"
      using skip_after_head [OF rd k] a p(2-5,7-10)
      by (cases "mt \<in> {4, 5, 6}")
        (auto simp: major_defs major_def high_bits_eq add.assoc simp del: of_nat_Suc of_nat_add)
    with rd rest p(6) show thesis by (rule finish)
  qed
  have str: thesis
    if p: "encode c = encode_head mt (length bs) @ bs" "announced c = []" "mt = 2 \<or> mt = 3" for mt bs
  proof -
    have "length bs < 2 ^ 64" using room p(1) by simp
    moreover have "mt < 7" using p(3) by auto
    ultimately obtain h where h: "unat h div 32 = mt"
      and sp: "\<And>u. spec_read (encode_head mt (length bs) @ u) =
        (if mt = 2 \<or> mt = 3 then if length u < length bs then Inl tcbor_NEED_DATA
           else Inr (Str h (take (length bs) u), drop (length bs) u)
         else Inr (Num h (length bs), u))"
      using spec_read_head [of mt "length bs"] by blast
    have "spec_read (bytes_of m s) = Inr (Str h bs, t)"
      using sp [of "bs @ t"] p(1,3) bytes by auto
    with h obtain a s' where rd: "tcbor_primitive_read_any m s = (Some (a, s'), tcbor_OK)"
      and "unat (header a) div 32 = mt" "bytes_of m s' = t"
      by (auto elim!: read_item dest!: abs_any_Str)
    then show thesis
      using skip_after_head(4) [OF rd k] p(2,3)
      by (intro finish [OF rd]) (auto simp: major_defs major_def high_bits_eq encode_all_def)
  qed
  show thesis
  proof (cases c)
    case (CSimple v)
    then have "v < 24 \<or> 32 \<le> v" using wf by simp
    then obtain h where h: "unat h div 32 = 7"
      and sp: "\<And>u. spec_read (encode (CSimple v) @ u) = Inr (Num h (unat v), u)"
      using spec_read_simple by blast
    have "spec_read (bytes_of m s) = Inr (Num h (unat v), t)"
      using sp [of t] bytes unfolding CSimple by (simp only:)
    with h obtain a s' where rd: "tcbor_primitive_read_any m s = (Some (a, s'), tcbor_OK)"
      and "unat (header a) div 32 = 7" "bytes_of m s' = t"
      by (auto elim!: read_item dest!: abs_any_Num)
    then show thesis
      using skip_after_head(4) [OF rd k] CSimple
      by (intro finish [OF rd]) (auto simp: major_defs major_def high_bits_eq encode_all_def)
  next
    case (CArray cs)
    have "length cs < 2 ^ 64"
      using room length_encode_all [of cs] CArray by (simp add: encode_all_def)
    then show thesis using CArray wf by (intro num [of 4 "length cs"]) (auto simp: encode_all_def)
  next
    case (CMap ps)
    then have enc: "encode c = encode_head 5 (length ps) @ encode_all (announced c)"
      by (simp only: encode_map announced.simps)
    then have "length ps < 2 ^ 64"
      using room length_encode_all [of "pairs ps"] CMap length_pairs [of ps] by simp
    moreover have "\<forall>d \<in> set (announced c). wf_cbor d"
      using CMap wf wf_pairs [of ps] by (simp only: announced.simps) blast
    ultimately show thesis
      using enc CMap by (intro num [of 5 "length ps"]) (simp_all add: length_pairs)
  next
    case (CUint n)
    then show thesis using wf by (intro num [of 0 n]) (auto simp: encode_all_def)
  next
    case (CNint n)
    then show thesis using wf by (intro num [of 1 n]) (auto simp: encode_all_def)
  next
    case (CTag n d)
    then show thesis using wf by (intro num [of 6 n]) (auto simp: encode_all_def)
  next
    case (CBstr bs)
    then show thesis by (intro str [of 2 bs]) auto
  next
    case (CTstr bs)
    then show thesis by (intro str [of 3 bs]) auto
  qed
qed

text \<open>Skipping as many items as are encoded leaves exactly what follows them.\<close>

lemma skip_items:
  "\<lbrakk>bytes_of m s = encode_all cs @ t; \<forall>c \<in> set cs. wf_cbor c; k + span s < 2 ^ 64\<rbrakk> \<Longrightarrow>
     \<exists>s'. advances s s' \<and> bytes_of m s' = t \<and>
       tcbor_primitive_skip m s (of_nat (k + length cs)) e =
       tcbor_primitive_skip m s' (of_nat k) (if cs = [] then e else tcbor_OK)"
proof (induction "span s" arbitrary: s cs e rule: less_induct)
  case less
  show ?case
  proof (cases cs)
    case Nil
    with less.prems(1) show ?thesis by (intro exI [of _ s]) (simp add: encode_all_def)
  next
    case (Cons c ds)
    have bytes: "bytes_of m s = encode c @ (encode_all ds @ t)"
      using less.prems(1) Cons by (simp add: encode_all_def)
    then have "span s = length (encode c) + (length (encode_all ds) + length t)"
      by (metis length_append length_bytes_of)
    then have room: "(k + length ds) + length (encode c) < 2 ^ 64"
      using less.prems(3) length_encode_all [of ds] by simp
    have "wf_cbor c" using less.prems(2) Cons by simp
    from skip_item_step [OF bytes this room, of e] obtain s1 where s1: "advances s s1" "span s1 < span s"
      and rest: "bytes_of m s1 = encode_all (announced c) @ encode_all ds @ t"
      and wf: "\<forall>d \<in> set (announced c). wf_cbor d"
      and step: "tcbor_primitive_skip m s (of_nat (Suc (k + length ds))) e =
         tcbor_primitive_skip m s1 (of_nat (k + length ds + length (announced c))) tcbor_OK"
      by blast
    have "bytes_of m s1 = encode_all (announced c @ ds) @ t" "k + span s1 < 2 ^ 64"
      "\<forall>d \<in> set (announced c @ ds). wf_cbor d"
      using rest s1(2) less.prems(2,3) wf Cons by (auto simp: encode_all_def)
    from less.hyps [OF s1(2) this(1,3,2), of tcbor_OK]
    obtain s' where s': "advances s1 s'" "bytes_of m s' = t"
      and rec: "tcbor_primitive_skip m s1 (of_nat (k + length (announced c @ ds))) tcbor_OK =
         tcbor_primitive_skip m s' (of_nat k) tcbor_OK"
      by auto
    have "k + length cs = Suc (k + length ds)"
      "k + length ds + length (announced c) = k + length (announced c @ ds)"
      using Cons by simp_all
    then have "tcbor_primitive_skip m s (of_nat (k + length cs)) e = tcbor_primitive_skip m s' (of_nat k) tcbor_OK"
      using step rec by (simp only:)
    then show ?thesis
      using advances_trans [OF s1(1) s'(1)] s'(2) Cons by (intro exI [of _ s']) (simp only: list.distinct if_False simp_thms)
  qed
qed

lemma skip_encoded:
  assumes "bytes_of m s = encode_all cs @ t" and "\<forall>c \<in> set cs. wf_cbor c"
  obtains s' where "advances s s'" "bytes_of m s' = t"
    "tcbor_primitive_skip m s (of_nat (length cs)) e = (Some s', if cs = [] then e else tcbor_OK)"
proof -
  have "0 + span s < 2 ^ 64" using unat_ptr_less by (simp add: span_def)
  from skip_items [OF assms this, of e] that show thesis
    by (auto simp: tcbor_primitive_skip.simps)
qed

text \<open>
  The client's view: reading one subobject of a context whose input starts with an encoded
  item returns the range of exactly that item and leaves the context behind it.
\<close>

lemma read_subobject_encoded:
  assumes bytes: "bytes_of m (ctx_r c) = encode d @ t" and wf: "wf_cbor d"
    and left: "ctx_index c < ctx_count c"
  obtains r c' where "tcbor_read_subobject m c = (Some r, c')"
    "bytes_of m r = encode d" "bytes_of m (ctx_r c') = t" "ctx_index c' = ctx_index c + 1"
proof -
  have "bytes_of m (ctx_r c) = encode_all [d] @ t" "\<forall>d \<in> set [d]. wf_cbor d"
    using bytes wf by (simp_all add: encode_all_def)
  from skip_encoded [OF this, of "ctx_error c"] obtain s' where s': "advances (ctx_r c) s'" "bytes_of m s' = t"
    and sk: "tcbor_primitive_skip m (ctx_r c) 1 (ctx_error c) = (Some s', tcbor_OK)"
    by auto
  let ?r = "\<lparr>rbegin = rbegin (ctx_r c), rend = rbegin s'\<rparr>"
  have "\<not> ctx_count c - ctx_index c < 1"
    using left by (auto simp: word_less_nat_alt [of _ 1] unat_gt_0)
  then have rd: "tcbor_read_subobject m c =
      (Some ?r, c\<lparr>ctx_r := s', ctx_error := tcbor_OK, ctx_index := ctx_index c + 1\<rparr>)"
    by (simp add: tcbor_read_subobject_def tcbor_skip_def sk)
  have "span (ctx_r c) = length (encode d) + length t" "span s' = length t"
    using bytes s'(2) by (metis length_append length_bytes_of)+
  then have "span ?r = length (encode d)" using inside_prefix [OF s'(1)] by simp
  then have "bytes_of m ?r = encode d"
    using bytes_of_inside [OF inside_prefix(1) [OF s'(1)], of m] bytes by simp
  with rd s'(2) show thesis by (intro that [of ?r]) auto
qed

end
