(* ===== verification/Cbor_Readers.thy ===== *)
theory Cbor_Readers
  imports Cbor_Spec
begin

text \<open>
  The typed readers of \<^verbatim>\<open>teecbor.h\<close> on encoded input: a context whose bytes start with an
  encoded item delivers that item and is left behind it. These are the rules with which the
  SUIT parsers are run on well-formed messages.
\<close>

unbundle bit_operations_syntax

text \<open>\<open>at m c bs\<close>: the context is not at its end and its input is \<open>bs\<close>.\<close>

definition at :: "memory \<Rightarrow> tcbor_context \<Rightarrow> u8 list \<Rightarrow> bool" where
  "at m c bs \<longleftrightarrow> ctx_index c \<noteq> ctx_count c \<and> bytes_of m (ctx_r c) = bs"

lemma major_eq: "major a = of_nat k \<longleftrightarrow> unat (header a) div 32 = k" if "k < 8"
  using byte_eq_iff [OF that] by (simp add: major_def)

text \<open>Reading one head: the number or the string it carries, and what is left.\<close>

lemma read_any_head:
  assumes "at m c (encode_head mt n @ t)" and "mt < 7" "n < 2 ^ 64"
    and "mt = 2 \<or> mt = 3 \<Longrightarrow> n \<le> length t"
  obtains a c' where "tcbor_read_any m c = (Some a, c')" "major a = of_nat mt"
    "bytes_of m (ctx_r c') = (if mt = 2 \<or> mt = 3 then drop n t else t)"
    "ctx_index c' = (if mt = 6 then ctx_index c else ctx_index c + 1)" "ctx_count c' = ctx_count c"
    "mt \<noteq> 2 \<and> mt \<noteq> 3 \<Longrightarrow> unat (any_value a) = n"
    "mt = 2 \<or> mt = 3 \<Longrightarrow> bytes_of m (any_bytes a) = take n t"
proof -
  note result = that
  obtain h where h: "unat h div 32 = mt"
    and sp: "\<And>t. spec_read (encode_head mt n @ t) =
      (if mt = 2 \<or> mt = 3 then
         if length t < n then Inl tcbor_NEED_DATA else Inr (Str h (take n t), drop n t)
       else Inr (Num h n, t))"
    using spec_read_head [OF assms(2,3)] by blast
  define hd rest where "hd = (if mt = 2 \<or> mt = 3 then Str h (take n t) else Num h n)"
    and "rest = (if mt = 2 \<or> mt = 3 then drop n t else t)"
  have "spec_read (bytes_of m (ctx_r c)) = Inr (hd, rest)"
    using assms(1,4) by (auto simp: at_def sp hd_def rest_def)
  then obtain a r' where rd: "tcbor_primitive_read_any m (ctx_r c) = (Some (a, r'), tcbor_OK)"
    and a: "abs_any m a = hd" and r': "bytes_of m r' = rest"
    by (rule read_item)
  have ha: "header a = h" using a by (auto simp: hd_def dest: abs_any_Num abs_any_Str split: if_splits)
  have mj: "major a = of_nat mt" using ha h assms(2) major_eq [of mt a] by simp
  have tg: "tcbor_is_tag a \<longleftrightarrow> mt = 6"
    using ha h by (simp add: tcbor_is_tag_def major_def high_bits_eq)
  let ?c = "c\<lparr>ctx_r := r', ctx_error := tcbor_OK,
              ctx_index := (if tcbor_is_tag a then ctx_index c else ctx_index c + 1)\<rparr>"
  have "tcbor_read_any m c = (Some a, ?c)"
    using rd assms(1) by (simp add: tcbor_read_any_def at_def tcbor_is_end_of_context_def)
  then show thesis
    by (rule result) (use a r' mj tg in \<open>auto simp: hd_def rest_def dest: abs_any_Num abs_any_Str\<close>)
qed

text \<open>The readers. What follows the item is \<open>t\<close>.\<close>

lemma read_uint_at:
  assumes "at m c (encode (CUint n) @ t)" "n < 2 ^ 64"
  obtains c' where "tcbor_read_uint m c = (Some (of_nat n), c')" "bytes_of m (ctx_r c') = t"
    "ctx_index c' = ctx_index c + 1" "ctx_count c' = ctx_count c"
proof -
  have "at m c (encode_head 0 n @ t)" using assms(1) by simp
  then obtain a c' where a: "tcbor_read_any m c = (Some a, c')" "major a = of_nat 0"
    "bytes_of m (ctx_r c') = t" "ctx_index c' = ctx_index c + 1" "ctx_count c' = ctx_count c"
    "unat (any_value a) = n"
    by (rule read_any_head) (use assms(2) in auto)
  have "any_value a = of_nat n" by (simp add: a(6) [symmetric])
  with a show thesis by (intro that [of c']) (auto simp: tcbor_read_uint_def read_matching_def tcbor_is_uint_def)
qed

lemma read_tag_at:
  assumes "at m c (encode_head 6 n @ t)" "n < 2 ^ 64"
  obtains c' where "tcbor_read_tag m c = (Some (of_nat n), c')" "bytes_of m (ctx_r c') = t"
    "ctx_index c' = ctx_index c" "ctx_count c' = ctx_count c"
proof -
  obtain a c' where a: "tcbor_read_any m c = (Some a, c')" "major a = of_nat 6"
    "bytes_of m (ctx_r c') = t" "ctx_index c' = ctx_index c" "ctx_count c' = ctx_count c"
    "unat (any_value a) = n"
    by (rule read_any_head [OF assms(1)]) (use assms(2) in auto)
  have "any_value a = of_nat n" by (simp add: a(6) [symmetric])
  with a show thesis by (intro that [of c']) (auto simp: tcbor_read_tag_def read_matching_def tcbor_is_tag_def)
qed

lemma span_bound: "length (bytes_of m r) < 2 ^ 64"
  using unat_ptr_less by (simp add: span_def)

lemma at_bytes_short: "at m c (xs @ bs @ ys) \<Longrightarrow> length bs < 2 ^ 64"
  using span_bound [of m "ctx_r c"] by (simp add: at_def)

lemma read_bstr_at:
  assumes at: "at m c (encode (CBstr bs) @ t)"
  obtains r c' where "tcbor_read_bstr m c = (Some r, c')" "bytes_of m r = bs"
    "bytes_of m (ctx_r c') = t" "ctx_index c' = ctx_index c + 1" "ctx_count c' = ctx_count c"
proof -
  have at': "at m c (encode_head 2 (length bs) @ (bs @ t))" using at by simp
  obtain a c' where a: "tcbor_read_any m c = (Some a, c')" "major a = of_nat 2"
    "bytes_of m (ctx_r c') = t" "ctx_index c' = ctx_index c + 1" "ctx_count c' = ctx_count c"
    "bytes_of m (any_bytes a) = bs"
    by (rule read_any_head [OF at']) (use at_bytes_short [OF at'] in auto)
  then show thesis
    by (intro that [of "any_bytes a" c']) (auto simp: tcbor_read_bstr_def read_matching_def tcbor_is_bstr_def)
qed

lemma read_array_at:
  assumes at: "at m c (encode (CArray cs) @ t)"
  obtains child c' where "tcbor_read_array m c = (Some child, c')"
    "bytes_of m (ctx_r child) = encode_all cs @ t" "ctx_index child = 0"
    "ctx_count child = of_nat (length cs)" "length cs < 2 ^ 64"
    "ctx_index c' = ctx_index c + 1" "ctx_count c' = ctx_count c" "ctx_r c' = ctx_r child"
proof -
  have at': "at m c (encode_head 4 (length cs) @ encode_all cs @ t)"
    using at by (simp add: encode_all_def)
  have n: "length cs < 2 ^ 64"
    using at_bytes_short [OF at'] length_encode_all by (rule le_less_trans [rotated])
  obtain a c' where a: "tcbor_read_any m c = (Some a, c')" "major a = of_nat 4"
    "bytes_of m (ctx_r c') = encode_all cs @ t" "ctx_index c' = ctx_index c + 1"
    "ctx_count c' = ctx_count c" "unat (any_value a) = length cs"
    by (rule read_any_head [OF at']) (use n in auto)
  have "any_value a = of_nat (length cs)" by (simp add: a(6) [symmetric])
  with a n show thesis
    by (intro that [of "tcbor_open c' (of_nat (length cs))" c'])
      (auto simp: tcbor_read_array_def read_matching_def tcbor_is_array_def tcbor_open_def)
qed

lemma read_map_at:
  assumes at: "at m c (encode (CMap ps) @ t)"
  obtains child c' where "tcbor_read_map m c = (Some child, c')"
    "bytes_of m (ctx_r child) = encode_all (pairs ps) @ t" "ctx_index child = 0"
    "ctx_count child = of_nat (length (pairs ps))" "length (pairs ps) < 2 ^ 64"
    "ctx_index c' = ctx_index c + 1" "ctx_count c' = ctx_count c" "ctx_r c' = ctx_r child"
proof -
  have at': "at m c (encode_head 5 (length ps) @ encode_all (pairs ps) @ t)"
    using at by (simp only: encode_map append_assoc)
  have n: "length (pairs ps) < 2 ^ 64"
    using at_bytes_short [OF at'] length_encode_all by (rule le_less_trans [rotated])
  obtain a c' where a: "tcbor_read_any m c = (Some a, c')" "major a = of_nat 5"
    "bytes_of m (ctx_r c') = encode_all (pairs ps) @ t" "ctx_index c' = ctx_index c + 1"
    "ctx_count c' = ctx_count c" "unat (any_value a) = length ps"
    by (rule read_any_head [OF at']) (use n in \<open>auto simp: length_pairs\<close>)
  have v: "any_value a = of_nat (length ps)" by (simp add: a(6) [symmetric])
  have "\<not> any_value a + any_value a < any_value a"
    using no_wrap [of "length ps" "length ps"] n by (simp add: v length_pairs)
  with a n v show thesis
    by (intro that [of "tcbor_open c' (of_nat (length (pairs ps)))" c'])
      (auto simp: tcbor_read_map_def read_matching_def tcbor_is_map_def tcbor_open_def length_pairs)
qed

lemma skip_at:
  assumes at: "at m c (encode d @ t)" and wf: "wf_cbor d" and left: "ctx_index c < ctx_count c"
  obtains c' where "tcbor_skip m c 1 = (True, c')" "bytes_of m (ctx_r c') = t"
    "ctx_index c' = ctx_index c + 1" "ctx_count c' = ctx_count c"
proof -
  have "bytes_of m (ctx_r c) = encode d @ t" using at by (simp add: at_def)
  then obtain r c' where "tcbor_read_subobject m c = (Some r, c')" "bytes_of m (ctx_r c') = t"
    "ctx_index c' = ctx_index c + 1"
    by (rule read_subobject_encoded [OF _ wf left])
  then show thesis
    using that by (auto elim!: subobject_cases dest: skip_moves)
qed

text \<open>
  Positions in a container of \<open>n\<close> items of which \<open>k\<close> are left: the end of the context is where
  no item is left.
\<close>

definition left_in :: "tcbor_context \<Rightarrow> nat \<Rightarrow> bool" where
  "left_in c k \<longleftrightarrow> unat (ctx_count c) = unat (ctx_index c) + k"

lemma left_in_0: "left_in c 0 \<longleftrightarrow> tcbor_is_end_of_context c"
  by (auto simp: left_in_def tcbor_is_end_of_context_def word_unat_eq_iff)

lemma left_in_Suc: "left_in c (Suc k) \<Longrightarrow> ctx_index c \<noteq> ctx_count c \<and> ctx_index c < ctx_count c"
  by (auto simp: left_in_def word_less_nat_alt)

lemma left_in_next:
  assumes "left_in c (Suc k)" "ctx_index c' = ctx_index c + 1" "ctx_count c' = ctx_count c"
  shows "left_in c' k"
proof -
  have "unat (ctx_index c) + 1 < 2 ^ 64"
    using assms(1) unat_ptr_less [of "ctx_count c"] by (simp add: left_in_def)
  then have "unat (ctx_index c + 1) = unat (ctx_index c) + 1"
    using unat_add_exact [of "ctx_index c" 1] by simp
  then show ?thesis using assms by (simp add: left_in_def)
qed

lemma left_in_open:
  "ctx_index c = 0 \<Longrightarrow> ctx_count c = of_nat n \<Longrightarrow> n < 2 ^ 64 \<Longrightarrow> left_in c n"
  by (simp add: left_in_def)

text \<open>The major type of every well-formed item, and what a typed reader does with another type.\<close>

fun cbor_major :: "cbor \<Rightarrow> nat" where
  "cbor_major (CUint n) = 0"
| "cbor_major (CNint n) = 1"
| "cbor_major (CBstr bs) = 2"
| "cbor_major (CTstr bs) = 3"
| "cbor_major (CArray cs) = 4"
| "cbor_major (CMap ps) = 5"
| "cbor_major (CTag n c) = 6"
| "cbor_major (CSimple v) = 7"

lemma read_any_simple_at:
  assumes at: "at m c (encode (CSimple v) @ t)" and wf: "wf_cbor (CSimple v)"
  obtains a c' where "tcbor_read_any m c = (Some a, c')" "major a = 7"
proof -
  obtain h where h: "unat h div 32 = 7"
    and sp: "\<And>t. spec_read (encode (CSimple v) @ t) = Inr (Num h (unat v), t)"
    using spec_read_simple [of v] wf by auto
  have "spec_read (bytes_of m (ctx_r c)) = Inr (Num h (unat v), t)"
    using at sp by (simp add: at_def)
  then obtain a r' where rd: "tcbor_primitive_read_any m (ctx_r c) = (Some (a, r'), tcbor_OK)"
    and a: "abs_any m a = Num h (unat v)"
    by (rule read_item)
  have "major a = 7" using h abs_any_Num [OF a] by (simp add: major_def high_bits_eq)
  moreover have "fst (tcbor_read_any m c) = Some a"
    using rd at by (simp add: tcbor_read_any_def at_def tcbor_is_end_of_context_def)
  ultimately show thesis using that by (cases "tcbor_read_any m c") auto
qed

lemma read_any_head_major:
  assumes at: "at m c (encode_head mt n @ t)" and "mt < 7" and n: "n < 2 ^ 64"
    and str: "mt = 2 \<or> mt = 3 \<Longrightarrow> n \<le> length t"
  shows "\<exists>a c'. tcbor_read_any m c = (Some a, c') \<and> major a = of_nat mt"
  using read_any_head [OF assms] by metis

lemma read_any_major:
  assumes at: "at m c (encode d @ t)" and wf: "wf_cbor d"
  shows "\<exists>a c'. tcbor_read_any m c = (Some a, c') \<and> major a = of_nat (cbor_major d)"
proof (cases d)
  case (CArray cs)
  then have at': "at m c (encode_head 4 (length cs) @ encode_all cs @ t)"
    using at by (simp add: encode_all_def)
  have "length cs < 2 ^ 64"
    using at_bytes_short [OF at'] length_encode_all by (rule le_less_trans [rotated])
  with CArray read_any_head_major [OF at'] show ?thesis by auto
next
  case (CMap ps)
  then have at': "at m c (encode_head 5 (length ps) @ encode_all (pairs ps) @ t)"
    using at by (simp only: encode_map append_assoc)
  have "length (pairs ps) < 2 ^ 64"
    using at_bytes_short [OF at'] length_encode_all by (rule le_less_trans [rotated])
  with CMap read_any_head_major [OF at'] show ?thesis by (auto simp: length_pairs)
next
  case (CBstr bs)
  then have at': "at m c (encode_head 2 (length bs) @ bs @ t)" using at by simp
  with CBstr at_bytes_short [OF at'] read_any_head_major [OF at'] show ?thesis by auto
next
  case (CTstr bs)
  then have at': "at m c (encode_head 3 (length bs) @ bs @ t)" using at by simp
  with CTstr at_bytes_short [OF at'] read_any_head_major [OF at'] show ?thesis by auto
next
  case (CSimple v)
  obtain a c' where "tcbor_read_any m c = (Some a, c')" "major a = 7"
    by (rule read_any_simple_at [OF at [unfolded CSimple] wf [unfolded CSimple]])
  then show ?thesis by (simp add: CSimple)
next
  case (CUint n)
  then show ?thesis using read_any_head_major [of m c 0 n t] at wf by auto
next
  case (CNint n)
  then show ?thesis using read_any_head_major [of m c 1 n t] at wf by auto
next
  case (CTag n e)
  then show ?thesis using read_any_head_major [of m c 6 n "encode e @ t"] at wf by auto
qed

lemma cbor_major_less: "cbor_major d < 8"
  by (cases d) auto

lemma read_bstr_other:
  assumes "at m c (encode d @ t)" "wf_cbor d" and "\<And>bs. d \<noteq> CBstr bs"
  shows "\<exists>c'. tcbor_read_bstr m c = (None, c')"
proof -
  obtain a c' where rd: "tcbor_read_any m c = (Some a, c')" and mj: "major a = of_nat (cbor_major d)"
    using read_any_major [OF assms(1,2)] by blast
  have "cbor_major d \<noteq> 2" using assms(3) by (cases d) auto
  then have "\<not> tcbor_is_bstr a"
    using major_eq [OF cbor_major_less, of a d] major_eq [of 2 a] mj by (simp add: tcbor_is_bstr_def)
  then show ?thesis using rd by (simp add: tcbor_read_bstr_def read_matching_def)
qed

section \<open>Signed integers\<close>

text \<open>
  \<open>tcbor_read_int\<close> in terms of the value: an unsigned item is accepted when its 64 bits, read
  as a signed number, are in the range of \<^verbatim>\<open>int\<close>, and a negative item likewise. The signed
  reading is not that of CBOR: items above \<open>2 ^ 63\<close> come out as other numbers.
\<close>

lemma read_int_uint:
  assumes "tcbor_read_uint m c = (Some v, c')"
  shows "fst (tcbor_read_int m c) =
    (if - (2 ^ 31) \<le> sint v \<and> sint v < 2 ^ 31 then Some (ucast v) else None)"
  using assms i32_round_trip [of v] by (auto simp: tcbor_read_int_def Let_def)

lemma read_int_nint:
  assumes "tcbor_read_uint m c = (None, c1)" and "tcbor_read_nint m c1 = (Some v, c')"
  shows "fst (tcbor_read_int m c) =
    (if - (2 ^ 31) \<le> sint v \<and> sint v < 2 ^ 31 then Some (NOT (ucast v)) else None)"
  using assms i32_round_trip [of v] by (auto simp: tcbor_read_int_def Let_def not_ucast)

lemma read_uint_other:
  assumes "at m c (encode d @ t)" "wf_cbor d" and "cbor_major d \<noteq> 0"
  shows "\<exists>c1. tcbor_read_uint m c = (None, c1) \<and> ctx_r c1 = ctx_r c \<and> ctx_index c1 = ctx_index c \<and>
    ctx_count c1 = ctx_count c"
proof -
  obtain a c' where rd: "tcbor_read_any m c = (Some a, c')" and mj: "major a = of_nat (cbor_major d)"
    using read_any_major [OF assms(1,2)] by blast
  have "\<not> tcbor_is_uint a"
    using major_eq [OF cbor_major_less, of a d] major_eq [of 0 a] mj assms(3) by (simp add: tcbor_is_uint_def)
  then show ?thesis using rd by (simp add: tcbor_read_uint_def read_matching_def tcbor_fail_def)
qed

lemma read_nint_at:
  assumes "at m c (encode (CNint n) @ t)" "n < 2 ^ 64"
  obtains c' where "tcbor_read_nint m c = (Some (of_nat n), c')" "bytes_of m (ctx_r c') = t"
    "ctx_index c' = ctx_index c + 1" "ctx_count c' = ctx_count c"
proof -
  have "at m c (encode_head 1 n @ t)" using assms(1) by simp
  then obtain a c' where a: "tcbor_read_any m c = (Some a, c')" "major a = of_nat 1"
    "bytes_of m (ctx_r c') = t" "ctx_index c' = ctx_index c + 1" "ctx_count c' = ctx_count c"
    "unat (any_value a) = n"
    by (rule read_any_head) (use assms(2) in auto)
  have "any_value a = of_nat n" by (simp add: a(6) [symmetric])
  with a show thesis by (intro that [of c']) (auto simp: tcbor_read_nint_def read_matching_def tcbor_is_nint_def)
qed

lemma read_int_nint_at:
  assumes at: "at m c (encode (CNint n) @ t)" and n: "n < 2 ^ 31"
  obtains r c' where "tcbor_read_int m c = (Some r, c')" "sint r = - 1 - int n"
    "bytes_of m (ctx_r c') = t" "ctx_index c' = ctx_index c + 1" "ctx_count c' = ctx_count c"
proof -
  have n64: "n < 2 ^ 64" using n by simp
  obtain c1 where u: "tcbor_read_uint m c = (None, c1)" and c1: "ctx_r c1 = ctx_r c"
    "ctx_index c1 = ctx_index c" "ctx_count c1 = ctx_count c"
    using read_uint_other [OF at] n64 by auto
  have "at m c1 (encode (CNint n) @ t)" using at c1 by (simp add: at_def)
  then obtain c' where c': "tcbor_read_nint m c1 = (Some (of_nat n), c')" "bytes_of m (ctx_r c') = t"
    "ctx_index c' = ctx_index c1 + 1" "ctx_count c' = ctx_count c1"
    by (rule read_nint_at [OF _ n64])
  have s: "sint (of_nat n :: u64) = int n" using n by (intro sint_of_nat) simp
  have "int n < int (2 ^ 31)" using n by (simp only: of_nat_less_iff)
  then have i: "- (2 ^ 31) \<le> sint (of_nat n :: u64)" "sint (of_nat n :: u64) < 2 ^ 31" by (simp_all add: s)
  have f: "fst (tcbor_read_int m c) = Some (NOT (ucast (of_nat n :: u64)))"
    using read_int_nint [OF u c'(1)] i by simp
  then have "snd (tcbor_read_int m c) = c'"
    using u c'(1) by (auto simp: tcbor_read_int_def Let_def split: if_splits)
  then have "tcbor_read_int m c = (Some (NOT (ucast (of_nat n :: u64))), c')"
    using f by (cases "tcbor_read_int m c") simp
  moreover have "sint (NOT (ucast (of_nat n :: u64)) :: i32) = - 1 - int n"
    using i32_value [OF i] by (simp only: sint_not_i32 s)
  ultimately show thesis using that c' c1 by simp
qed

section \<open>Ranges that do not contain the null pointer\<close>

definition addressable :: "tcbor_range \<Rightarrow> bool" where
  "addressable r \<longleftrightarrow> rbegin r \<noteq> 0 \<and> rbegin r \<le> rend r"

lemma inside_not_null:
  assumes "inside r b" and "addressable b"
  shows "\<not> tcbor_range_is_null r"
proof -
  let ?d = "rbegin r - rbegin b"
  have "unat (rend b - rbegin b) = unat (rend b) - unat (rbegin b)"
    using assms(2) by (simp add: addressable_def unat_sub)
  moreover have "unat (rbegin b) \<le> unat (rend b)"
    using assms(2) by (simp add: addressable_def word_le_nat_alt)
  ultimately have "unat (rbegin b) + unat ?d \<le> unat (rend b)"
    using assms(1) by (simp add: inside_def span_def)
  then have "unat (rbegin b) + unat ?d < 2 ^ 64" using unat_ptr_less by (rule le_less_trans)
  then have "unat (rbegin b + ?d) = unat (rbegin b) + unat ?d" by (rule unat_add_exact)
  moreover have "0 < unat (rbegin b)" using assms(2) by (simp add: addressable_def unat_gt_0)
  ultimately have "0 < unat (rbegin r)" by simp
  then show ?thesis by (simp add: tcbor_range_is_null_def unat_gt_0)
qed

text \<open>What a possibly null range stands for.\<close>

definition abs_field :: "memory \<Rightarrow> tcbor_range \<Rightarrow> u8 list option" where
  "abs_field m r = (if tcbor_range_is_null r then None else Some (bytes_of m r))"

lemma abs_field_null [simp]: "abs_field m tcbor_range_null = None"
  by (simp add: abs_field_def tcbor_range_is_null_def tcbor_range_null_def)

lemma range_equal_bytes:
  "\<not> tcbor_range_is_null x \<Longrightarrow> \<not> tcbor_range_is_null y \<Longrightarrow>
     tcbor_range_equal m x y \<longleftrightarrow> bytes_of m x = bytes_of m y"
proof -
  assume nn: "\<not> tcbor_range_is_null x" "\<not> tcbor_range_is_null y"
  show ?thesis
  proof (cases "rend x - rbegin x = rend y - rbegin y")
    case True
    then show ?thesis using nn by (simp add: tcbor_range_equal_def bytes_of_def span_def)
  next
    case False
    then have "span x \<noteq> span y" by (simp add: span_def word_unat_eq_iff)
    then have "bytes_of m x \<noteq> bytes_of m y" by (metis length_bytes_of)
    then show ?thesis using nn False by (simp add: tcbor_range_equal_def)
  qed
qed

end
