(* ===== verification/Suit_Envelope.thy ===== *)
theory Suit_Envelope
  imports Suit_Parser Cbor_Readers
begin

text \<open>
  The fields of a SUIT envelope (\<^verbatim>\<open>suit_envelope_get_field\<close> and its callers in
  \<^verbatim>\<open>lib/suit/lib/suit-parser.c\<close>), the manifest of an envelope, severed fields, and the reader of
  command sequences.
\<close>

unbundle bit_operations_syntax

section \<open>Looking up a field\<close>

definition field_entry ::
    "bool \<Rightarrow> u64 \<Rightarrow> tcbor_range \<Rightarrow> memory \<Rightarrow> tcbor_any \<Rightarrow> tcbor_context \<Rightarrow> tcbor_range \<Rightarrow>
     bool \<times> tcbor_context \<times> tcbor_range" where
  "field_entry use_tstr key key_tstr m k mp field =
     (if tcbor_is_uint k then
        if \<not> use_tstr \<and> any_value k = key then
          case tcbor_read_bstr m mp of
            (None, mp) \<Rightarrow> (False, mp, field)
          | (Some r, mp) \<Rightarrow> (True, mp, r)
        else entry_skip m mp field
      else if tcbor_is_tstr k then
        if use_tstr \<and> tcbor_range_equal m (any_bytes k) key_tstr then
          case tcbor_read_bstr m mp of
            (None, mp) \<Rightarrow> (False, mp, field)
          | (Some r, mp) \<Rightarrow> (True, mp, r)
        else entry_skip m mp field
      else entry_skip m mp field)"

lemma field_entry_moves:
  assumes "field_entry use_tstr key key_tstr m k mp field = (b, mp', field')"
  shows "advances (ctx_r mp) (ctx_r mp') \<and> ctx_count mp' = ctx_count mp"
  using assms entry_skip_moves [of m mp field] bstr.moves [of m mp]
  by (auto simp: field_entry_def split: if_splits prod.splits option.splits)

function field_loop ::
    "bool \<Rightarrow> u64 \<Rightarrow> tcbor_range \<Rightarrow> memory \<Rightarrow> tcbor_context \<Rightarrow> tcbor_range \<Rightarrow>
     bool \<times> tcbor_context \<times> tcbor_range" where
  "field_loop use_tstr key key_tstr m mp field =
     (if tcbor_is_end_of_context mp then (True, mp, field)
      else
        case tcbor_read_any m mp of
          (None, mp) \<Rightarrow> (False, mp, field)
        | (Some k, mp) \<Rightarrow>
            if tcbor_is_tag k then (False, mp, field)
            else
              case field_entry use_tstr key key_tstr m k mp field of
                (False, mp, field) \<Rightarrow> (False, mp, field)
              | (True, mp, field) \<Rightarrow> field_loop use_tstr key key_tstr m mp field)"
  by pat_completeness auto
termination
  by (relation "measure (\<lambda>(u, key, t, m, mp, field). span (ctx_r mp))")
    (auto dest!: any.shrinks [OF sym] field_entry_moves [OF sym] simp: advances_def)

declare field_loop.simps [simp del]

lemma range_equal_local:
  assumes "agree m m' x" and "agree m m' y"
  shows "tcbor_range_equal m x y = tcbor_range_equal m' x y"
proof (cases "rend x - rbegin x = rend y - rbegin y")
  case True
  then have "span x = span y" by (simp add: span_def)
  then show ?thesis
    using assms True by (simp add: tcbor_range_equal_def agree_def bytes_of_def flip: span_def)
next
  case False
  then show ?thesis by (simp add: tcbor_range_equal_def)
qed

lemma field_entry_local:
  assumes key: "agree m m' key_tstr" and bnd: "agree m m' bnd" and mp: "inside (ctx_r mp) bnd"
    and k: "tcbor_is_tstr k \<Longrightarrow> inside (any_bytes k) bnd"
  shows "field_entry use_tstr key key_tstr m k mp field = field_entry use_tstr key key_tstr m' k mp field"
proof -
  have ag: "agree m m' (ctx_r mp)" using bnd mp by (rule agree_inside)
  have "tcbor_is_tstr k \<Longrightarrow> tcbor_range_equal m (any_bytes k) key_tstr = tcbor_range_equal m' (any_bytes k) key_tstr"
    using agree_inside [OF bnd k] key by (rule range_equal_local)
  then show ?thesis
    by (simp add: field_entry_def entry_skip_def bstr.local [OF ag] skip_local [OF ag])
qed

interpretation field: entry_loop "\<lambda>m m'. agree m m' key_tstr"
    "field_entry use_tstr key key_tstr" "field_loop use_tstr key key_tstr"
  for use_tstr key key_tstr
proof (rule entry_loop.intro)
  show "field_entry use_tstr key key_tstr m k c s = field_entry use_tstr key key_tstr m' k c s"
    if "agree m m' key_tstr" "agree m m' bnd" "inside (ctx_r c) bnd"
      "tcbor_is_tstr k \<Longrightarrow> inside (any_bytes k) bnd" for m m' bnd c k s
    using that by (rule field_entry_local)
qed (rule field_loop.simps, rule field_entry_moves)

text \<open>\<open>None\<close> when the function returns false, leaving the destination alone.\<close>

definition suit_envelope_get_field ::
    "memory \<Rightarrow> tcbor_range \<Rightarrow> bool \<Rightarrow> u64 \<Rightarrow> tcbor_range \<Rightarrow> tcbor_range option" where
  "suit_envelope_get_field m envelope_bstr use_tstr key key_tstr =
     (if \<not> use_tstr \<and>
         key \<notin> {SUIT_DELEGATION, SUIT_AUTHENTICATION_WRAPPER, SUIT_MANIFEST, SUIT_DEPENDENCY_RESOLUTION,
                SUIT_PAYLOAD_FETCH, SUIT_INSTALL, SUIT_TEXT, SUIT_COSWID} then None
      else
        case tcbor_read_tag m (tcbor_toplevel envelope_bstr) of
          (None, ctx) \<Rightarrow> None
        | (Some tag, ctx) \<Rightarrow>
            if tag \<noteq> 107 then None
            else
              case tcbor_read_map m ctx of
                (None, ctx) \<Rightarrow> None
              | (Some mp, ctx) \<Rightarrow>
                  case field_loop use_tstr key key_tstr m mp tcbor_range_null of
                    (False, mp, field) \<Rightarrow> None
                  | (True, mp, field) \<Rightarrow> Some field)"

definition suit_envelope_get_field_by_name ::
    "memory \<Rightarrow> tcbor_range \<Rightarrow> tcbor_range \<Rightarrow> tcbor_range option" where
  "suit_envelope_get_field_by_name m envelope_bstr key_tstr =
     suit_envelope_get_field m envelope_bstr True SUIT_DELEGATION key_tstr"

definition suit_envelope_get_field_by_key :: "memory \<Rightarrow> tcbor_range \<Rightarrow> u64 \<Rightarrow> tcbor_range option" where
  "suit_envelope_get_field_by_key m envelope_bstr key =
     suit_envelope_get_field m envelope_bstr False key tcbor_range_null"

definition suit_envelope_get_manifest ::
    "memory \<Rightarrow> tcbor_range \<Rightarrow> suit_manifest \<Rightarrow> bool \<times> suit_manifest" where
  "suit_envelope_get_manifest m envelope_bstr ret =
     (case suit_envelope_get_field_by_key m envelope_bstr SUIT_MANIFEST of
        None \<Rightarrow> (False, ret)
      | Some manifest_bstr \<Rightarrow>
          case suit_manifest_parse m manifest_bstr ret of
            (False, ret) \<Rightarrow> (False, ret)
          | (True, ret) \<Rightarrow> (True, ret\<lparr>man_envelope_bstr := envelope_bstr\<rparr>))"

text \<open>The result is always \<open>true\<close>; the digest of a severed field is not checked.\<close>

definition suit_envelope_get_severed :: "suit_severable \<Rightarrow> tcbor_range \<Rightarrow> bool \<times> tcbor_range" where
  "suit_envelope_get_severed severable severed_bstr =
     (if \<not> has_value severable then (True, tcbor_range_null)
      else if severed severable then (True, severed_bstr)
      else (True, sev_body severable))"

section \<open>What a lookup finds\<close>

lemma get_field_cases:
  assumes "suit_envelope_get_field m env u key t = Some field"
  obtains ctx mp ctx' mp' where "tcbor_read_tag m (tcbor_toplevel env) = (Some 107, ctx)"
    "tcbor_read_map m ctx = (Some mp, ctx')" "field_loop u key t m mp tcbor_range_null = (True, mp', field)"
  using assms
  by (auto simp: suit_envelope_get_field_def simp del: insert_iff
      split: if_split_asm prod.splits option.splits bool.splits)

lemma envelope_map_inside:
  assumes "tcbor_read_tag m (tcbor_toplevel env) = (x, ctx)" and "tcbor_read_map m ctx = (Some mp, ctx')"
  shows "inside (ctx_r mp) env"
  using advances_trans [OF tag.advances [OF assms(1)] map.child_advances [OF assms(2)]]
  by (simp add: advances_inside)

lemma field_entry_in:
  assumes "field_entry u key t m k mp field = (b, mp', field')" and "inside (ctx_r mp) bnd"
    and "null_or_inside field bnd"
  shows "null_or_inside field' bnd"
  using assms bstr.inside_input [of m mp]
  by (auto simp: field_entry_def entry_skip_def null_or_inside_def split: if_splits prod.splits option.splits)

lemma get_field_inside:
  assumes "suit_envelope_get_field m env u key t = Some field"
  shows "null_or_inside field env"
proof -
  from assms obtain ctx mp ctx' mp' where 1: "tcbor_read_tag m (tcbor_toplevel env) = (Some 107, ctx)"
    and 2: "tcbor_read_map m ctx = (Some mp, ctx')"
    and 3: "field_loop u key t m mp tcbor_range_null = (True, mp', field)"
    by (rule get_field_cases)
  show ?thesis
    by (rule field.loop_invariant [where good = "\<lambda>f. null_or_inside f env",
          OF _ 3 envelope_map_inside [OF 1 2] null_or_inside_null])
      (rule field_entry_in)
qed

lemma get_field_local:
  assumes env: "agree m m' env" and t: "agree m m' t"
  shows "suit_envelope_get_field m env u key t = suit_envelope_get_field m' env u key t"
proof -
  obtain x ctx where tg: "tcbor_read_tag m (tcbor_toplevel env) = (x, ctx)" by fastforce
  have tg': "tcbor_read_tag m' (tcbor_toplevel env) = (x, ctx)"
    using tag.local [of m m' "tcbor_toplevel env"] env tg by simp
  obtain y ctx' where mp: "tcbor_read_map m ctx = (y, ctx')" by fastforce
  have "agree m m' (ctx_r ctx)" using tag.agree_after [OF tg] env by simp
  then have mp': "tcbor_read_map m' ctx = (y, ctx')" using map.local mp by metis
  have "field_loop u key t m c f = field_loop u key t m' c f" if "y = Some c" for c f
    using field.loop_local [OF t] agree_inside [OF env envelope_map_inside [OF tg]] mp that by blast
  then show ?thesis
    using tg tg' mp mp' by (cases x; cases y; cases u) (simp_all add: suit_envelope_get_field_def del: insert_iff)
qed

lemma get_manifest_local:
  assumes env: "agree m m' env"
  shows "suit_envelope_get_manifest m env ret = suit_envelope_get_manifest m' env ret"
proof -
  have "agree m m' tcbor_range_null" by (simp add: agree_def bytes_of_def span_def tcbor_range_null_def)
  then have f: "suit_envelope_get_field_by_key m env SUIT_MANIFEST = suit_envelope_get_field_by_key m' env SUIT_MANIFEST"
    using get_field_local [OF env] by (simp add: suit_envelope_get_field_by_key_def)
  have "suit_manifest_parse m r ret = suit_manifest_parse m' r ret"
    if "suit_envelope_get_field_by_key m env SUIT_MANIFEST = Some r" for r
  proof (rule manifest_parse_local)
    have "null_or_inside r env"
      using get_field_inside [OF that [unfolded suit_envelope_get_field_by_key_def]] .
    then show "agree m m' r"
      using \<open>agree m m' tcbor_range_null\<close> agree_inside [OF env] by (auto simp: null_or_inside_def)
  qed
  then show ?thesis using f by (simp add: suit_envelope_get_manifest_def split: option.split)
qed

section \<open>Command sequences\<close>

type_synonym suit_command_reader = tcbor_context

definition suit_command_sequence_open :: "memory \<Rightarrow> tcbor_range \<Rightarrow> suit_command_reader option" where
  "suit_command_sequence_open m command_sequence_bstr =
     (case tcbor_read_array m (tcbor_toplevel command_sequence_bstr) of
        (None, ctx) \<Rightarrow> None
      | (Some array, ctx) \<Rightarrow> Some array)"

text \<open>A command above \<^verbatim>\<open>INT_MAX\<close> is consumed and refused.\<close>

definition suit_command_sequence_read_command ::
    "memory \<Rightarrow> suit_command_reader \<Rightarrow> i32 option \<times> suit_command_reader" where
  "suit_command_sequence_read_command m r =
     (case tcbor_read_uint m r of
        (None, r) \<Rightarrow> (None, r)
      | (Some command, r) \<Rightarrow> if command > 0x7FFFFFFF then (None, r) else (Some (ucast command), r))"

definition suit_command_sequence_read_reppolicy ::
    "memory \<Rightarrow> suit_command_reader \<Rightarrow> bool \<times> suit_command_reader" where
  "suit_command_sequence_read_reppolicy m r =
     (case tcbor_read_uint m r of (None, r) \<Rightarrow> (False, r) | (Some policy, r) \<Rightarrow> (True, r))"

definition suit_command_sequence_skip_param ::
    "memory \<Rightarrow> suit_command_reader \<Rightarrow> bool \<times> suit_command_reader" where
  "suit_command_sequence_skip_param m r = tcbor_skip m r 1"

definition suit_command_sequence_end_of_sequence :: "suit_command_reader \<Rightarrow> bool" where
  "suit_command_sequence_end_of_sequence r = tcbor_is_end_of_context r"

text \<open>A command that is delivered is its number, which an \<open>int\<close> holds exactly.\<close>

lemma read_command_value:
  assumes "suit_command_sequence_read_command m r = (Some command, r')"
  shows "tcbor_read_uint m r = (Some (ucast command), r') \<and> 0 \<le> sint command"
proof -
  obtain v where rd: "tcbor_read_uint m r = (Some v, r')" and le: "\<not> v > 0x7FFFFFFF"
    and c: "command = ucast v"
    using assms by (auto simp: suit_command_sequence_read_command_def split: prod.splits option.splits if_splits)
  have v: "unat v < 2 ^ 31" using le by (simp add: not_less word_le_nat_alt)
  then have u: "unat command = unat v" by (simp add: c unat_ucast_i32)
  have "0 \<le> sint command" using v by (simp add: sint_i32 u)
  then show ?thesis using rd ucast_i32_eq [OF u] by simp
qed

section \<open>Lookup on an encoded envelope\<close>

text \<open>
  The reference: go through the entries; the last value under the key counts, and a value
  under the key that is not a byte string makes the lookup fail. The outer \<open>None\<close> is failure,
  the inner one absence.
\<close>

fun find_field :: "(cbor \<Rightarrow> bool) \<Rightarrow> (cbor \<times> cbor) list \<Rightarrow> u8 list option \<Rightarrow> u8 list option option" where
  "find_field hit [] acc = Some acc"
| "find_field hit ((k, v) # ps) acc =
     (if hit k then (case v of CBstr bs \<Rightarrow> find_field hit ps (Some bs) | _ \<Rightarrow> None)
      else find_field hit ps acc)"

fun envelope_key :: "cbor \<Rightarrow> bool" where
  "envelope_key (CUint n) = (n < 2 ^ 64)"
| "envelope_key (CTstr s) = True"
| "envelope_key _ = False"

text \<open>Which encoded keys the code takes for the one it looks for.\<close>

definition key_hit :: "memory \<Rightarrow> bool \<Rightarrow> u64 \<Rightarrow> tcbor_range \<Rightarrow> cbor \<Rightarrow> bool" where
  "key_hit m use_tstr key key_tstr k =
     (if use_tstr then k = CTstr (bytes_of m key_tstr) else k = CUint (unat key))"

lemma read_key_at:
  assumes at: "at m c (encode k @ t)" and k: "envelope_key k" and env: "addressable env"
    and ins: "inside (ctx_r c) env" and t: "use_tstr \<Longrightarrow> \<not> tcbor_range_is_null key_tstr"
  obtains a c' where "tcbor_read_any m c = (Some a, c')" "bytes_of m (ctx_r c') = t"
    "ctx_index c' = ctx_index c + 1" "ctx_count c' = ctx_count c" "\<not> tcbor_is_tag a"
    "\<And>mp f. field_entry use_tstr key key_tstr m a mp f =
       (if key_hit m use_tstr key key_tstr k then
          case tcbor_read_bstr m mp of (None, mp) \<Rightarrow> (False, mp, f) | (Some r, mp) \<Rightarrow> (True, mp, r)
        else entry_skip m mp f)"
proof (cases k)
  case (CUint n)
  then have at': "at m c (encode_head 0 n @ t)" using at by simp
  obtain a c' where a: "tcbor_read_any m c = (Some a, c')" "major a = of_nat 0"
    "bytes_of m (ctx_r c') = t" "ctx_index c' = ctx_index c + 1" "ctx_count c' = ctx_count c"
    "unat (any_value a) = n"
    by (rule read_any_head [OF at']) (use k CUint in auto)
  have "any_value a = key \<longleftrightarrow> n = unat key" using a(6) by (auto simp: word_unat_eq_iff)
  then show thesis
    using a CUint by (intro that [of a c']) (auto simp: field_entry_def key_hit_def major_defs)
next
  case (CTstr s)
  then have at': "at m c (encode_head 3 (length s) @ s @ t)" using at by simp
  obtain a c' where a: "tcbor_read_any m c = (Some a, c')" "major a = of_nat 3"
    "bytes_of m (ctx_r c') = t" "ctx_index c' = ctx_index c + 1" "ctx_count c' = ctx_count c"
    "bytes_of m (any_bytes a) = s"
    by (rule read_any_head [OF at']) (use at_bytes_short [OF at'] in auto)
  have "tcbor_is_tstr a" using a(2) by (simp add: tcbor_is_tstr_def)
  then have "\<not> tcbor_range_is_null (any_bytes a)"
    using inside_not_null [OF inside_trans [OF read_any_inside [OF a(1)] ins] env] by blast
  then have "use_tstr \<Longrightarrow> tcbor_range_equal m (any_bytes a) key_tstr \<longleftrightarrow> s = bytes_of m key_tstr"
    using range_equal_bytes t a(6) by simp
  then show thesis
    using a CTstr by (intro that [of a c']) (auto simp: field_entry_def key_hit_def major_defs)
qed (use k in simp_all)

lemma field_loop_encoded:
  assumes env: "addressable env" and t: "use_tstr \<Longrightarrow> \<not> tcbor_range_is_null key_tstr"
  shows "bytes_of m (ctx_r mp) = encode_all (pairs ps) @ rest \<Longrightarrow> left_in mp (length (pairs ps)) \<Longrightarrow>
     inside (ctx_r mp) env \<Longrightarrow> \<forall>(k, v) \<in> set ps. envelope_key k \<and> wf_cbor v \<Longrightarrow>
     (case field_loop use_tstr key key_tstr m mp f of
        (ok, mp', f') \<Rightarrow> if ok then Some (abs_field m f') else None) =
     find_field (key_hit m use_tstr key key_tstr) ps (abs_field m f)"
proof (induction ps arbitrary: mp f)
  case Nil
  then have "tcbor_is_end_of_context mp" by (simp add: left_in_0)
  then show ?case by (simp add: field_loop.simps)
next
  case (Cons p ps)
  obtain k v where p: "p = (k, v)" by (cases p)
  have kv: "envelope_key k" "wf_cbor v" and ps: "\<forall>(k, v) \<in> set ps. envelope_key k \<and> wf_cbor v"
    using Cons.prems(4) p by auto
  let ?rest = "encode_all (pairs ps) @ rest"
  have at: "at m mp (encode k @ (encode v @ ?rest))" and l: "left_in mp (Suc (Suc (length (pairs ps))))"
    using Cons.prems(1,2) left_in_Suc by (auto simp: at_def p encode_all_def)
  have ne: "\<not> tcbor_is_end_of_context mp" using at by (simp add: at_def tcbor_is_end_of_context_def)
  obtain a c1 where a: "tcbor_read_any m mp = (Some a, c1)" "bytes_of m (ctx_r c1) = encode v @ ?rest"
    "ctx_index c1 = ctx_index mp + 1" "ctx_count c1 = ctx_count mp" "\<not> tcbor_is_tag a"
    and body: "\<And>mp f. field_entry use_tstr key key_tstr m a mp f =
       (if key_hit m use_tstr key key_tstr k then
          case tcbor_read_bstr m mp of (None, mp) \<Rightarrow> (False, mp, f) | (Some r, mp) \<Rightarrow> (True, mp, r)
        else entry_skip m mp f)"
    using read_key_at [OF at kv(1) env Cons.prems(3) t] by blast
  have l1: "left_in c1 (Suc (length (pairs ps)))" using left_in_next [OF l a(3,4)] .
  have at1: "at m c1 (encode v @ ?rest)" using a(2) left_in_Suc [OF l1] by (simp add: at_def)
  have in1: "inside (ctx_r c1) env"
    using inside_trans [OF advances_inside [OF any.advances [OF a(1)]] Cons.prems(3)] .
  have in2: "inside (ctx_r c2) env" if "advances (ctx_r c1) (ctx_r c2)" for c2
    using inside_trans [OF advances_inside [OF that] in1] .
  note IH = Cons.IH [OF _ left_in_next [OF l1] in2 ps]
  note unfold = field_loop.simps [of use_tstr key key_tstr m mp] body
  show ?case
  proof (cases "key_hit m use_tstr key key_tstr k")
    case False
    obtain c2 where sk: "tcbor_skip m c1 1 = (True, c2)" "bytes_of m (ctx_r c2) = ?rest"
      "ctx_index c2 = ctx_index c1 + 1" "ctx_count c2 = ctx_count c1"
      by (rule skip_at [OF at1 kv(2)]) (use left_in_Suc [OF l1] in auto)
    have "advances (ctx_r c1) (ctx_r c2)" using skip_moves [OF sk(1)] by blast
    from IH [OF sk(2,3,4) this, of f] show ?thesis
      using False ne a(1,5) sk(1) by (simp add: unfold entry_skip_def p)
  next
    case hit: True
    show ?thesis
    proof (cases "\<exists>bs. v = CBstr bs")
      case True
      then obtain bs where bs: "v = CBstr bs" by blast
      obtain r c2 where rd: "tcbor_read_bstr m c1 = (Some r, c2)" "bytes_of m r = bs"
        "bytes_of m (ctx_r c2) = ?rest" "ctx_index c2 = ctx_index c1 + 1" "ctx_count c2 = ctx_count c1"
        by (rule read_bstr_at [OF at1 [unfolded bs]])
      have "\<not> tcbor_range_is_null r"
        using inside_not_null [OF inside_trans [OF bstr.inside [OF rd(1)] in1] env] .
      then have "abs_field m r = Some bs" by (simp add: abs_field_def rd(2))
      with IH [OF rd(3,4,5) bstr.advances [OF rd(1)], of r] show ?thesis
        using hit ne a(1,5) rd(1) by (simp add: unfold p bs)
    next
      case False
      then obtain c2 where "tcbor_read_bstr m c1 = (None, c2)"
        using read_bstr_other [OF at1 kv(2)] by blast
      moreover have "find_field (key_hit m use_tstr key key_tstr) (p # ps) (abs_field m f) = None"
        using hit False by (cases v) (simp_all add: p)
      ultimately show ?thesis using hit ne a(1,5) by (simp add: unfold)
    qed
  qed
qed

lemma get_field_encoded:
  assumes bytes: "bytes_of m env = encode (CTag 107 (CMap ps)) @ rest"
    and keys: "\<forall>(k, v) \<in> set ps. envelope_key k \<and> wf_cbor v"
    and env: "addressable env" and t: "use_tstr \<Longrightarrow> \<not> tcbor_range_is_null key_tstr"
    and key: "\<not> use_tstr \<Longrightarrow> key \<in> {SUIT_DELEGATION, SUIT_AUTHENTICATION_WRAPPER, SUIT_MANIFEST,
      SUIT_DEPENDENCY_RESOLUTION, SUIT_PAYLOAD_FETCH, SUIT_INSTALL, SUIT_TEXT, SUIT_COSWID}"
  shows "map_option (abs_field m) (suit_envelope_get_field m env use_tstr key key_tstr) =
    find_field (key_hit m use_tstr key key_tstr) ps None"
proof -
  let ?c = "tcbor_toplevel env"
  have at: "at m ?c (encode_head 6 107 @ (encode (CMap ps) @ rest))" using bytes by (simp add: at_def)
  obtain c1 where tg: "tcbor_read_tag m ?c = (Some (of_nat 107), c1)"
    "bytes_of m (ctx_r c1) = encode (CMap ps) @ rest" "ctx_index c1 = ctx_index ?c" "ctx_count c1 = ctx_count ?c"
    by (rule read_tag_at [OF at]) auto
  have at1: "at m c1 (encode (CMap ps) @ rest)" using tg by (simp add: at_def)
  obtain mp c2 where mp: "tcbor_read_map m c1 = (Some mp, c2)"
    "bytes_of m (ctx_r mp) = encode_all (pairs ps) @ rest" "ctx_index mp = 0"
    "ctx_count mp = of_nat (length (pairs ps))" "length (pairs ps) < 2 ^ 64"
    by (rule read_map_at [OF at1])
  have "inside (ctx_r mp) env" using envelope_map_inside [OF tg(1) mp(1)] .
  from field_loop_encoded [OF env t mp(2) left_in_open [OF mp(3,4,5)] this keys, where key = key and f = tcbor_range_null]
  have "(case field_loop use_tstr key key_tstr m mp tcbor_range_null of
      (ok, mp', f') \<Rightarrow> if ok then Some (abs_field m f') else None) =
    find_field (key_hit m use_tstr key key_tstr) ps None"
    by simp
  moreover have "suit_envelope_get_field m env use_tstr key key_tstr =
    (case field_loop use_tstr key key_tstr m mp tcbor_range_null of
      (False, mp, field) \<Rightarrow> None | (True, mp, field) \<Rightarrow> Some field)"
    unfolding suit_envelope_get_field_def using key tg(1) mp(1) by (cases use_tstr) (simp_all del: insert_iff)
  ultimately show ?thesis by (simp split: prod.splits bool.splits if_splits)
qed

end
