(* ===== verification/Suit_Context.thy ===== *)
theory Suit_Context
  imports Suit_Envelope
begin

text \<open>
  The table of manifests of \<^verbatim>\<open>lib/suit/lib/suit-context.c\<close>. A manifest is referred to by its index
  in the table, \<open>None\<close> standing for the null pointer.
\<close>

definition SUIT_MANIFEST_MAX :: nat where "SUIT_MANIFEST_MAX = 8"

record suit_context =
  n_manifest :: nat
  manifests :: "suit_manifest list"

definition suit_context_init :: suit_context where
  "suit_context_init = \<lparr>n_manifest = 0, manifests = replicate SUIT_MANIFEST_MAX zero_manifest\<rparr>"

text \<open>A refused envelope may have written to the free slot, but is not counted.\<close>

definition suit_context_add_envelope ::
    "memory \<Rightarrow> suit_context \<Rightarrow> tcbor_range \<Rightarrow> bool \<times> suit_context" where
  "suit_context_add_envelope m p envelope_bstr =
     (if n_manifest p = SUIT_MANIFEST_MAX then (False, p)
      else
        case suit_envelope_get_manifest m envelope_bstr (manifests p ! n_manifest p) of
          (False, man) \<Rightarrow> (False, p\<lparr>manifests := (manifests p)[n_manifest p := man]\<rparr>)
        | (True, man) \<Rightarrow>
            (True, p\<lparr>manifests := (manifests p)[n_manifest p := man], n_manifest := n_manifest p + 1\<rparr>))"

definition suit_context_get_root_manifest :: "suit_context \<Rightarrow> nat option" where
  "suit_context_get_root_manifest p = (if n_manifest p = 0 then None else Some 0)"

section \<open>The invariant of the table\<close>

text \<open>
  Every manifest counted has been accepted: version 1, a common block within the limits, and
  every range inside the manifest it was parsed from.
\<close>

definition accepted :: "suit_manifest \<Rightarrow> bool" where
  "accepted man \<longleftrightarrow>
     man_version man = 1 \<and> man_common_bstr man \<noteq> tcbor_range_null \<and> manifest_in (man_binary man) man \<and>
     null_or_inside (man_binary man) (man_envelope_bstr man)"

definition context_ok :: "suit_context \<Rightarrow> bool" where
  "context_ok p \<longleftrightarrow>
     n_manifest p \<le> SUIT_MANIFEST_MAX \<and> length (manifests p) = SUIT_MANIFEST_MAX \<and>
     (\<forall>man \<in> set (manifests p). manifest_shape man) \<and>
     (\<forall>i < n_manifest p. accepted (manifests p ! i))"

lemma context_init_ok: "context_ok suit_context_init"
  by (auto simp: context_ok_def suit_context_init_def zero_manifest_def zero_common_def
      manifest_shape_def common_shape_def)

lemma get_manifest_cases:
  assumes "suit_envelope_get_manifest m env ret = (b, ret')"
  obtains (No_field) "\<not> b" "ret' = ret"
  | (Bad) r where "\<not> b" "suit_manifest_parse m r ret = (False, ret')"
  | (Ok) r ret1 where "b" "suit_envelope_get_field_by_key m env SUIT_MANIFEST = Some r"
      "suit_manifest_parse m r ret = (True, ret1)" "ret' = ret1\<lparr>man_envelope_bstr := env\<rparr>"
proof (cases "suit_envelope_get_field_by_key m env SUIT_MANIFEST")
  case None
  then show thesis using assms No_field by (simp add: suit_envelope_get_manifest_def)
next
  case (Some r)
  obtain ok ret1 where p: "suit_manifest_parse m r ret = (ok, ret1)" by fastforce
  show thesis
  proof (cases ok)
    case True
    then show thesis
      using assms p Some by (intro Ok [of r ret1]) (simp_all add: suit_envelope_get_manifest_def)
  next
    case False
    then show thesis
      using assms p Some by (intro Bad [of r]) (simp_all add: suit_envelope_get_manifest_def)
  qed
qed

lemma envelope_put [simp]:
  "manifest_shape (ret\<lparr>man_envelope_bstr := e\<rparr>) = manifest_shape ret"
  "manifest_in b (ret\<lparr>man_envelope_bstr := e\<rparr>) = manifest_in b ret"
  by (simp_all add: manifest_shape_def manifest_in_defs)

lemma get_manifest_shape:
  assumes "suit_envelope_get_manifest m env ret = (b, ret')" and "manifest_shape ret"
  shows "manifest_shape ret'"
  using assms(1)
  by (cases rule: get_manifest_cases) (use assms(2) manifest_parse_shape in auto)

lemma get_manifest_accepted:
  assumes "suit_envelope_get_manifest m env ret = (True, ret')" and "manifest_shape ret"
  shows "accepted ret'"
  using assms(1)
proof (cases rule: get_manifest_cases)
  case (Ok r ret1)
  have "length (components (man_common ret)) = SUIT_COMPONENT_MAX"
    using assms(2) by (simp add: manifest_shape_def common_shape_def)
  note acc = manifest_parse_accepts [OF Ok(3) this]
  have "null_or_inside r env"
    using get_field_inside [OF Ok(2) [unfolded suit_envelope_get_field_by_key_def]] .
  then show ?thesis using acc Ok(4) by (simp add: accepted_def)
qed simp_all

lemma add_envelope_cases:
  assumes "suit_context_add_envelope m p env = (b, p')"
  obtains (Full) "\<not> b" "p' = p" "n_manifest p = SUIT_MANIFEST_MAX"
  | (Done) man where "n_manifest p \<noteq> SUIT_MANIFEST_MAX"
      "suit_envelope_get_manifest m env (manifests p ! n_manifest p) = (b, man)"
      "p' = p\<lparr>manifests := (manifests p)[n_manifest p := man],
              n_manifest := (if b then n_manifest p + 1 else n_manifest p)\<rparr>"
  using assms
  by (auto simp: suit_context_add_envelope_def split: if_split_asm prod.split_asm bool.split_asm)

lemma add_envelope_ok:
  assumes a: "suit_context_add_envelope m p env = (b, p')" and ok: "context_ok p"
  shows "context_ok p'" and "n_manifest p' = (if b then n_manifest p + 1 else n_manifest p)"
    and "i < n_manifest p \<Longrightarrow> manifests p' ! i = manifests p ! i"
proof -
  have "context_ok p' \<and> n_manifest p' = (if b then n_manifest p + 1 else n_manifest p) \<and>
    (\<forall>i < n_manifest p. manifests p' ! i = manifests p ! i)"
    using a
  proof (cases rule: add_envelope_cases)
    case Full
    then show ?thesis using ok by simp
  next
    case (Done man)
    let ?n = "n_manifest p"
    have n: "?n < SUIT_MANIFEST_MAX" using Done(1) ok by (auto simp: context_ok_def)
    have "manifest_shape (manifests p ! ?n)" using ok n by (auto simp: context_ok_def)
    note sh = get_manifest_shape [OF Done(2) this] get_manifest_accepted [OF _ this, of m env man]
    have "\<forall>x \<in> set ((manifests p)[?n := man]). manifest_shape x"
      using ok sh(1) set_update_subset_insert [of "manifests p" ?n man] by (auto simp: context_ok_def)
    then show ?thesis
      using ok n sh Done(2,3)
      by (auto simp: context_ok_def nth_list_update less_Suc_eq)
  qed
  then show "context_ok p'" "n_manifest p' = (if b then n_manifest p + 1 else n_manifest p)"
    "i < n_manifest p \<Longrightarrow> manifests p' ! i = manifests p ! i"
    by auto
qed

lemma root_manifest_in_table:
  "suit_context_get_root_manifest p = Some i \<Longrightarrow> i < n_manifest p"
  by (auto simp: suit_context_get_root_manifest_def split: if_splits)

end
