(* ===== verification/Suit_Runner.thy ===== *)
theory Suit_Runner
  imports Suit_Context
begin

text \<open>
  The command interpreter of \<^verbatim>\<open>lib/suit/lib/suit.c\<close>. A function whose code would dereference a
  null pointer returns \<open>None\<close> there. The user's callbacks and the addresses the compiler gives
  to static and stack objects are parameters (\<open>suit_callbacks\<close>, \<open>image\<close>).
\<close>

unbundle bit_operations_syntax

section \<open>Data\<close>

datatype suit_command_sequence =
    SUIT_COMMAND_SEQUENCE_DEPENDENCY_RESOLUTION
  | SUIT_COMMAND_SEQUENCE_PAYLOAD_FETCH
  | SUIT_COMMAND_SEQUENCE_INSTALL
  | SUIT_COMMAND_SEQUENCE_VALIDATE
  | SUIT_COMMAND_SEQUENCE_LOAD
  | SUIT_COMMAND_SEQUENCE_RUN

abbreviation (input) SUIT_CONDITION_VENDOR_IDENTIFIER :: u64 where "SUIT_CONDITION_VENDOR_IDENTIFIER \<equiv> 1"
abbreviation (input) SUIT_CONDITION_CLASS_IDENTIFIER :: u64 where "SUIT_CONDITION_CLASS_IDENTIFIER \<equiv> 2"
abbreviation (input) SUIT_CONDITION_IMAGE_MATCH :: u64 where "SUIT_CONDITION_IMAGE_MATCH \<equiv> 3"
abbreviation (input) SUIT_DIRECTIVE_SET_COMPONENT_INDEX :: u64 where "SUIT_DIRECTIVE_SET_COMPONENT_INDEX \<equiv> 12"
abbreviation (input) SUIT_DIRECTIVE_SET_DEPENDENCY_INDEX :: u64 where "SUIT_DIRECTIVE_SET_DEPENDENCY_INDEX \<equiv> 13"
abbreviation (input) SUIT_DIRECTIVE_PROCESS_DEPENDENCY :: u64 where "SUIT_DIRECTIVE_PROCESS_DEPENDENCY \<equiv> 18"
abbreviation (input) SUIT_DIRECTIVE_SET_PARAMETERS :: u64 where "SUIT_DIRECTIVE_SET_PARAMETERS \<equiv> 19"
abbreviation (input) SUIT_DIRECTIVE_OVERRIDE_PARAMETERS :: u64 where "SUIT_DIRECTIVE_OVERRIDE_PARAMETERS \<equiv> 20"
abbreviation (input) SUIT_DIRECTIVE_FETCH :: u64 where "SUIT_DIRECTIVE_FETCH \<equiv> 21"
abbreviation (input) SUIT_PARAMETER_URI :: u64 where "SUIT_PARAMETER_URI \<equiv> 21"

text \<open>
  An object is a local variable of the step that handles a command: the parameter table keeps
  its address, \<open>obj_addr\<close>. What it points at is an entry of a manifest of the context.
\<close>

record suit_object =
  obj_addr :: ptr
  is_component :: bool
  obj_manifest :: nat
  obj_index :: nat

text \<open>The key is an \<^verbatim>\<open>enum\<close>, which has 32 bits.\<close>

record suit_binder =
  binder_target :: ptr
  binder_key :: u32
  value_cbor :: tcbor_range

definition SUIT_BINDER_MAX :: nat where "SUIT_BINDER_MAX = 32"
definition SUIT_STACK_MAX :: nat where "SUIT_STACK_MAX = 8"

text \<open>The inner union of a command continuation, discriminated by \<^verbatim>\<open>selected_all\<close>.\<close>

datatype selection = Selected_all u64 | Selected_array tcbor_context

record command_continuation =
  cmd_command :: u64
  cmd_param :: tcbor_range
  cmd_is_component :: bool
  cmd_selection :: selection

text \<open>\<^verbatim>\<open>next\<close> and the union it discriminates; a sequence has its common and its target part.\<close>

datatype next_action =
    SUIT_NEXT_EXECUTE_SEQUENCE tcbor_context tcbor_context
  | SUIT_NEXT_EXECUTE_COMMAND command_continuation
  | SUIT_NEXT_EXECUTE_TRY_ENTRY tcbor_context
  | SUIT_NEXT_EXIT

record suit_continuation =
  pc_manifest :: "nat option"
  pc_next :: next_action

text \<open>\<open>'u\<close> is what the user pointer points at, \<open>'f\<close> names the functions to call on resumption.\<close>

record ('u, 'f) suit_runner =
  run_context :: suit_context
  run_user :: 'u
  run_sequence :: suit_command_sequence
  selected_components :: tcbor_range
  selected_dependencies :: tcbor_range
  n_binder :: nat
  bindings :: "suit_binder list"
  program_counter :: suit_continuation
  n_stack :: nat
  stack :: "suit_continuation list"
  has_error :: bool
  suspended :: bool
  on_resume :: "'f option"

record ('u, 'f) suit_callbacks =
  store_cb :: "('u, 'f) suit_runner \<Rightarrow> suit_object \<Rightarrow> tcbor_range \<Rightarrow> bool \<times> ('u, 'f) suit_runner"
  fetch_cb :: "('u, 'f) suit_runner \<Rightarrow> suit_object \<Rightarrow> tcbor_range \<Rightarrow> bool \<times> ('u, 'f) suit_runner"

text \<open>
  Where the program image has its static arrays, and where the three local variables named
  \<^verbatim>\<open>target\<close> of the two step functions live while the interpreter runs.
\<close>

datatype target_variable = Sequence_target | All_target | Array_target

record image =
  empty_array_at :: ptr
  cbor_true_at :: ptr
  target_at :: "target_variable \<Rightarrow> ptr"

definition empty_array :: "image \<Rightarrow> tcbor_range" where
  "empty_array im = \<lparr>rbegin = empty_array_at im, rend = empty_array_at im + 1\<rparr>"

definition cbor_true :: "image \<Rightarrow> tcbor_range" where
  "cbor_true im = \<lparr>rbegin = cbor_true_at im, rend = cbor_true_at im + 1\<rparr>"

section \<open>The stack and the start of a sequence\<close>

definition push_program_counter :: "('u, 'f) suit_runner \<Rightarrow> bool \<times> ('u, 'f) suit_runner" where
  "push_program_counter runner =
     (if n_stack runner = SUIT_STACK_MAX then (False, runner)
      else (True, runner\<lparr>stack := (stack runner)[n_stack runner := program_counter runner],
                         n_stack := n_stack runner + 1\<rparr>))"

definition pop_program_counter :: "('u, 'f) suit_runner \<Rightarrow> bool \<times> ('u, 'f) suit_runner" where
  "pop_program_counter runner =
     (if n_stack runner = 0 then (False, runner)
      else (True, runner\<lparr>n_stack := n_stack runner - 1,
                         program_counter := stack runner ! (n_stack runner - 1)\<rparr>))"

definition suit_runner_mark_error :: "('u, 'f) suit_runner \<Rightarrow> ('u, 'f) suit_runner" where
  "suit_runner_mark_error runner = runner\<lparr>has_error := True\<rparr>"

text \<open>The body of \<open>install\<close> is taken as it is, severed or absent.\<close>

definition get_command_sequence_body ::
    "('u, 'f) suit_runner \<Rightarrow> suit_manifest \<Rightarrow> tcbor_range option" where
  "get_command_sequence_body runner man =
     (case run_sequence runner of
        SUIT_COMMAND_SEQUENCE_INSTALL \<Rightarrow> Some (sev_body (man_install man))
      | _ \<Rightarrow> None)"

definition call_command_sequence ::
    "image \<Rightarrow> memory \<Rightarrow> ('u, 'f) suit_runner \<Rightarrow> nat option \<Rightarrow> (bool \<times> ('u, 'f) suit_runner) option" where
  "call_command_sequence im m runner manifest =
     (case manifest of
        None \<Rightarrow> None
      | Some i \<Rightarrow>
          let man = manifests (run_context runner) ! i;
              common_sequence = command_sequence (man_common man);
              common_sequence =
                (if tcbor_range_is_null common_sequence then empty_array im else common_sequence) in
          case get_command_sequence_body runner man of
            None \<Rightarrow> Some (False, runner)
          | Some target_sequence \<Rightarrow>
              let target_sequence =
                    (if tcbor_range_is_null target_sequence then empty_array im else target_sequence) in
              case tcbor_read_array m (tcbor_toplevel target_sequence) of
                (None, target_context) \<Rightarrow> Some (False, runner)
              | (Some target_array, target_context) \<Rightarrow>
                  case tcbor_read_array m (tcbor_toplevel common_sequence) of
                    (None, common_context) \<Rightarrow> Some (False, runner)
                  | (Some common_array, common_context) \<Rightarrow>
                      case push_program_counter runner of
                        (False, runner) \<Rightarrow> Some (False, runner)
                      | (True, runner) \<Rightarrow>
                          Some (True, runner\<lparr>program_counter :=
                            \<lparr>pc_manifest = Some i,
                             pc_next = SUIT_NEXT_EXECUTE_SEQUENCE common_array target_array\<rparr>\<rparr>))"

definition digest_equal :: "memory \<Rightarrow> suit_digest \<Rightarrow> suit_digest \<Rightarrow> bool" where
  "digest_equal m dx dy =
     (if algorithm_id dx \<noteq> algorithm_id dy then False
      else tcbor_range_equal m (digest_bytes dx) (digest_bytes dy))"

definition call_dependency ::
    "image \<Rightarrow> memory \<Rightarrow> ('u, 'f) suit_runner \<Rightarrow> nat option \<Rightarrow> (bool \<times> ('u, 'f) suit_runner) option" where
  "call_dependency im m runner manifest =
     (case call_command_sequence im m runner manifest of
        None \<Rightarrow> None
      | Some (False, runner) \<Rightarrow> Some (False, runner)
      | Some (True, runner) \<Rightarrow> Some (True, runner))"

text \<open>What \<^verbatim>\<open>memset\<close> leaves in a continuation and in a binder.\<close>

definition zero_continuation :: suit_continuation where
  "zero_continuation =
     \<lparr>pc_manifest = None,
      pc_next = SUIT_NEXT_EXECUTE_SEQUENCE
        \<lparr>ctx_r = tcbor_range_null, ctx_index = 0, ctx_count = 0, ctx_error = tcbor_OK\<rparr>
        \<lparr>ctx_r = tcbor_range_null, ctx_index = 0, ctx_count = 0, ctx_error = tcbor_OK\<rparr>\<rparr>"

definition zero_binder :: suit_binder where
  "zero_binder = \<lparr>binder_target = 0, binder_key = 0, value_cbor = tcbor_range_null\<rparr>"

text \<open>The result of \<open>call_dependency\<close> only ends the function earlier.\<close>

definition suit_runner_init ::
    "image \<Rightarrow> memory \<Rightarrow> suit_context \<Rightarrow> suit_command_sequence \<Rightarrow> 'u \<Rightarrow> ('u, 'f) suit_runner option" where
  "suit_runner_init im m context sequence user =
     (let manifest = suit_context_get_root_manifest context;
          runner =
            \<lparr>run_context = context, run_user = user, run_sequence = sequence,
             selected_components = cbor_true im, selected_dependencies = tcbor_range_null,
             n_binder = 0, bindings = replicate SUIT_BINDER_MAX zero_binder,
             program_counter = \<lparr>pc_manifest = manifest, pc_next = SUIT_NEXT_EXIT\<rparr>,
             n_stack = 0, stack = replicate SUIT_STACK_MAX zero_continuation,
             has_error = False, suspended = False, on_resume = None\<rparr> in
      map_option snd (call_dependency im m runner manifest))"

section \<open>Parameters\<close>

definition read_rep_policy :: "memory \<Rightarrow> tcbor_context \<Rightarrow> bool \<times> tcbor_context" where
  "read_rep_policy m ctx =
     (case tcbor_read_uint m ctx of
        (Some policy, c) \<Rightarrow> (True, c)
      | (None, c) \<Rightarrow>
          case tcbor_read_null m c of
            (Some u, c) \<Rightarrow> (True, c)
          | (None, c) \<Rightarrow> (False, c))"

definition parse_rep_policy :: "tcbor_range \<Rightarrow> bool" where
  "parse_rep_policy param = True"

text \<open>The first binder of a target with the key; comparing the stored 32 bits with 64.\<close>

primrec lookup_from :: "suit_binder list \<Rightarrow> ptr \<Rightarrow> u64 \<Rightarrow> nat \<Rightarrow> nat \<Rightarrow> nat option" where
  "lookup_from bs target key i 0 = None"
| "lookup_from bs target key i (Suc n) =
     (if binder_target (bs ! i) = target \<and> ucast (binder_key (bs ! i)) = key then Some i
      else lookup_from bs target key (i + 1) n)"

definition lookup_binder :: "('u, 'f) suit_runner \<Rightarrow> ptr \<Rightarrow> u64 \<Rightarrow> nat option" where
  "lookup_binder runner target key = lookup_from (bindings runner) target key 0 (n_binder runner)"

definition alloc_binder ::
    "('u, 'f) suit_runner \<Rightarrow> ptr \<Rightarrow> u64 \<Rightarrow> nat option \<times> ('u, 'f) suit_runner" where
  "alloc_binder runner target key =
     (if n_binder runner = SUIT_BINDER_MAX then (None, runner)
      else
        let i = n_binder runner in
        (Some i,
         runner\<lparr>n_binder := i + 1,
                bindings := (bindings runner)
                  [i := (bindings runner ! i)\<lparr>binder_target := target, binder_key := ucast key\<rparr>]\<rparr>))"

definition set_parameter ::
    "('u, 'f) suit_runner \<Rightarrow> ptr \<Rightarrow> u64 \<Rightarrow> tcbor_range \<Rightarrow> bool \<Rightarrow> bool \<times> ('u, 'f) suit_runner" where
  "set_parameter runner target key value override =
     (let put = (\<lambda>i r. r\<lparr>bindings := (bindings r)[i := (bindings r ! i)\<lparr>value_cbor := value\<rparr>]\<rparr>) in
      case lookup_binder runner target key of
        Some i \<Rightarrow> if \<not> override then (True, runner) else (True, put i runner)
      | None \<Rightarrow>
          case alloc_binder runner target key of
            (None, runner) \<Rightarrow> (False, runner)
          | (Some i, runner) \<Rightarrow> (True, put i runner))"

definition suit_runner_get_parameter ::
    "('u, 'f) suit_runner \<Rightarrow> ptr \<Rightarrow> u64 \<Rightarrow> tcbor_range option" where
  "suit_runner_get_parameter runner target key =
     (case lookup_binder runner target key of
        None \<Rightarrow> None
      | Some i \<Rightarrow> Some (value_cbor (bindings runner ! i)))"

text \<open>The loop of \<^verbatim>\<open>directive_set_parameters\<close>; parameters set before an error stay set.\<close>

function set_parameters_loop ::
    "memory \<Rightarrow> tcbor_context \<Rightarrow> ('u, 'f) suit_runner \<Rightarrow> ptr \<Rightarrow> bool \<Rightarrow>
     bool \<times> tcbor_context \<times> ('u, 'f) suit_runner" where
  "set_parameters_loop m mp runner target override =
     (if tcbor_is_end_of_context mp then (True, mp, runner)
      else
        case tcbor_read_uint m mp of
          (None, mp) \<Rightarrow> (False, mp, runner)
        | (Some key, mp) \<Rightarrow>
            case tcbor_read_subobject m mp of
              (None, mp) \<Rightarrow> (False, mp, runner)
            | (Some value, mp) \<Rightarrow>
                case set_parameter runner target key value override of
                  (False, runner) \<Rightarrow> (False, mp, runner)
                | (True, runner) \<Rightarrow> set_parameters_loop m mp runner target override)"
  by pat_completeness auto
termination
  by (relation "measure (\<lambda>(m, mp, r, t, v). span (ctx_r mp))")
    (auto dest!: uint.shrinks [OF sym] subobject.shrinks [OF sym])

declare set_parameters_loop.simps [simp del]

definition directive_set_parameters ::
    "memory \<Rightarrow> ('u, 'f) suit_runner \<Rightarrow> suit_object \<Rightarrow> u64 \<Rightarrow> tcbor_range \<Rightarrow>
     bool \<times> ('u, 'f) suit_runner" where
  "directive_set_parameters m runner target command param =
     (let is_override = (command = SUIT_DIRECTIVE_OVERRIDE_PARAMETERS) in
      case tcbor_read_map m (tcbor_toplevel param) of
        (None, ctx) \<Rightarrow> (False, runner)
      | (Some mp, ctx) \<Rightarrow>
          case set_parameters_loop m mp runner (obj_addr target) is_override of
            (False, mp, runner) \<Rightarrow> (False, runner)
          | (True, mp, runner) \<Rightarrow> case tcbor_close ctx mp of (ok, ctx) \<Rightarrow> (ok, runner))"

section \<open>Conditions and directives\<close>

definition condition_vendor_identifier ::
    "('u, 'f) suit_runner \<Rightarrow> suit_object \<Rightarrow> u64 \<Rightarrow> tcbor_range \<Rightarrow> bool \<times> ('u, 'f) suit_runner" where
  "condition_vendor_identifier runner target command param =
     (if \<not> parse_rep_policy param then (False, runner) else (True, runner))"

definition condition_class_identifier ::
    "('u, 'f) suit_runner \<Rightarrow> suit_object \<Rightarrow> u64 \<Rightarrow> tcbor_range \<Rightarrow> bool \<times> ('u, 'f) suit_runner" where
  "condition_class_identifier runner target command param =
     (if \<not> parse_rep_policy param then (False, runner) else (True, runner))"

definition condition_image_match ::
    "('u, 'f) suit_runner \<Rightarrow> suit_object \<Rightarrow> u64 \<Rightarrow> tcbor_range \<Rightarrow> bool \<times> ('u, 'f) suit_runner" where
  "condition_image_match runner target command param =
     (if \<not> parse_rep_policy param then (False, runner) else (True, runner))"

definition directive_process_dependency ::
    "('u, 'f) suit_runner \<Rightarrow> suit_object \<Rightarrow> u64 \<Rightarrow> tcbor_range \<Rightarrow> bool \<times> ('u, 'f) suit_runner" where
  "directive_process_dependency runner target command param =
     (if \<not> parse_rep_policy param then (False, runner) else (True, runner))"

text \<open>A URI that begins with \<open>#\<close> names a field of the envelope of the current manifest.\<close>

definition directive_fetch ::
    "memory \<Rightarrow> ('u, 'f) suit_callbacks \<Rightarrow> ('u, 'f) suit_runner \<Rightarrow> suit_object \<Rightarrow> u64 \<Rightarrow> tcbor_range \<Rightarrow>
     (bool \<times> ('u, 'f) suit_runner) option" where
  "directive_fetch m cb runner target command param =
     (if \<not> parse_rep_policy param then Some (False, runner)
      else
        case suit_runner_get_parameter runner (obj_addr target) SUIT_PARAMETER_URI of
          None \<Rightarrow> Some (False, runner)
        | Some uri_cbor \<Rightarrow>
            case tcbor_read_tstr m (tcbor_toplevel uri_cbor) of
              (None, ctx) \<Rightarrow> Some (False, runner)
            | (Some uri, ctx) \<Rightarrow>
                if rbegin uri = rend uri then Some (False, runner)
                else if m (rbegin uri) = 0x23 then
                  case pc_manifest (program_counter runner) of
                    None \<Rightarrow> None
                  | Some i \<Rightarrow>
                      case suit_envelope_get_field_by_name m
                             (man_envelope_bstr (manifests (run_context runner) ! i)) uri of
                        None \<Rightarrow> Some (False, runner)
                      | Some binary \<Rightarrow> Some (store_cb cb runner target binary)
                else Some (fetch_cb cb runner target uri))"

datatype handler =
    Condition_vendor_identifier
  | Condition_class_identifier
  | Condition_image_match
  | Directive_set_parameters
  | Directive_process_dependency
  | Directive_fetch

text \<open>The table: command, whether it is allowed in the common sequence, handler.\<close>

definition command_handlers :: "(u64 \<times> bool \<times> handler) list" where
  "command_handlers =
     [(SUIT_CONDITION_VENDOR_IDENTIFIER, True, Condition_vendor_identifier),
      (SUIT_CONDITION_CLASS_IDENTIFIER, True, Condition_class_identifier),
      (SUIT_CONDITION_IMAGE_MATCH, True, Condition_image_match),
      (SUIT_DIRECTIVE_SET_PARAMETERS, True, Directive_set_parameters),
      (SUIT_DIRECTIVE_OVERRIDE_PARAMETERS, True, Directive_set_parameters),
      (SUIT_DIRECTIVE_PROCESS_DEPENDENCY, False, Directive_process_dependency),
      (SUIT_DIRECTIVE_FETCH, False, Directive_fetch)]"

fun find_in_handlers :: "(u64 \<times> bool \<times> handler) list \<Rightarrow> u64 \<Rightarrow> bool \<Rightarrow> handler option" where
  "find_in_handlers [] command is_common = None"
| "find_in_handlers ((c, allow_common, h) # hs) command is_common =
     (if c = command then (if is_common \<and> \<not> allow_common then None else Some h)
      else find_in_handlers hs command is_common)"

definition find_handler :: "u64 \<Rightarrow> bool \<Rightarrow> handler option" where
  "find_handler command is_common = find_in_handlers command_handlers command is_common"

text \<open>The call through the function pointer of the table.\<close>

definition call_handler ::
    "memory \<Rightarrow> ('u, 'f) suit_callbacks \<Rightarrow> handler \<Rightarrow> ('u, 'f) suit_runner \<Rightarrow> suit_object \<Rightarrow> u64 \<Rightarrow>
     tcbor_range \<Rightarrow> (bool \<times> ('u, 'f) suit_runner) option" where
  "call_handler m cb h runner target command param =
     (case h of
        Condition_vendor_identifier \<Rightarrow> Some (condition_vendor_identifier runner target command param)
      | Condition_class_identifier \<Rightarrow> Some (condition_class_identifier runner target command param)
      | Condition_image_match \<Rightarrow> Some (condition_image_match runner target command param)
      | Directive_set_parameters \<Rightarrow> Some (directive_set_parameters m runner target command param)
      | Directive_process_dependency \<Rightarrow> Some (directive_process_dependency runner target command param)
      | Directive_fetch \<Rightarrow> directive_fetch m cb runner target command param)"

text \<open>\<open>None\<close>: null manifest. \<open>Some None\<close>: no object of that index.\<close>

definition get_object ::
    "('u, 'f) suit_runner \<Rightarrow> ptr \<Rightarrow> u64 \<Rightarrow> bool \<Rightarrow> suit_object option option" where
  "get_object runner dst index component =
     (case pc_manifest (program_counter runner) of
        None \<Rightarrow> None
      | Some i \<Rightarrow>
          let common = man_common (manifests (run_context runner) ! i);
              n = (if component then n_components common else n_dependencies common) in
          if unat index < n
          then Some (Some \<lparr>obj_addr = dst, is_component = component, obj_manifest = i, obj_index = unat index\<rparr>)
          else Some None)"

section \<open>The interpreter\<close>

text \<open>Results of a step: whether to pop the program counter, and the runner.\<close>

definition step_error :: "('u, 'f) suit_runner \<Rightarrow> (bool \<times> ('u, 'f) suit_runner) option" where
  "step_error runner = Some (False, suit_runner_mark_error runner)"

definition step_handler ::
    "(bool \<times> ('u, 'f) suit_runner) option \<Rightarrow> (('u, 'f) suit_runner \<Rightarrow> ('u, 'f) suit_runner) \<Rightarrow>
     (bool \<times> ('u, 'f) suit_runner) option" where
  "step_handler result after =
     (case result of
        None \<Rightarrow> None
      | Some (False, runner) \<Rightarrow> step_error runner
      | Some (True, runner) \<Rightarrow> Some (False, after runner))"

text \<open>
  The second half of \<^verbatim>\<open>run_sequence_step\<close>, after a command and its parameter have been read:
  pushing the continuation of a command for several objects, and the choice by what is selected.
\<close>

definition push_command ::
    "('u, 'f) suit_runner \<Rightarrow> u64 \<Rightarrow> tcbor_range \<Rightarrow> bool \<Rightarrow> selection \<Rightarrow>
     (bool \<times> ('u, 'f) suit_runner) option" where
  "push_command runner command param component sel =
     (let newpc =
            \<lparr>pc_manifest = pc_manifest (program_counter runner),
             pc_next = SUIT_NEXT_EXECUTE_COMMAND
               \<lparr>cmd_command = command, cmd_param = param, cmd_is_component = component,
                cmd_selection = sel\<rparr>\<rparr> in
      case push_program_counter runner of
        (False, runner) \<Rightarrow> step_error runner
      | (True, runner) \<Rightarrow> Some (False, runner\<lparr>program_counter := newpc\<rparr>))"

definition execute_selected ::
    "image \<Rightarrow> memory \<Rightarrow> ('u, 'f) suit_callbacks \<Rightarrow> ('u, 'f) suit_runner \<Rightarrow> handler \<Rightarrow> u64 \<Rightarrow> tcbor_range \<Rightarrow>
     bool \<Rightarrow> (bool \<times> ('u, 'f) suit_runner) option" where
  "execute_selected im m cb runner h command param component =
     (let selected = (if component then selected_components runner else selected_dependencies runner) in
      case tcbor_read_bool m (tcbor_toplevel selected) of
        (Some flag, ctx) \<Rightarrow>
          if flag then push_command runner command param component (Selected_all 0)
          else Some (False, runner)
      | (None, ctx) \<Rightarrow>
          case tcbor_read_uint m ctx of
            (Some index, ctx) \<Rightarrow>
              (case get_object runner (target_at im Sequence_target) index component of
                 None \<Rightarrow> None
               | Some None \<Rightarrow> step_error runner
               | Some (Some target) \<Rightarrow>
                   step_handler (call_handler m cb h runner target command param) (\<lambda>r. r))
          | (None, ctx) \<Rightarrow>
              case tcbor_read_array m ctx of
                (Some array, ctx) \<Rightarrow> push_command runner command param component (Selected_array array)
              | (None, ctx) \<Rightarrow> step_error runner)"

definition execute_command ::
    "image \<Rightarrow> memory \<Rightarrow> ('u, 'f) suit_callbacks \<Rightarrow> ('u, 'f) suit_runner \<Rightarrow> u64 \<Rightarrow> tcbor_range \<Rightarrow> bool \<Rightarrow>
     (bool \<times> ('u, 'f) suit_runner) option" where
  "execute_command im m cb runner command param is_common =
     (if command = SUIT_DIRECTIVE_SET_COMPONENT_INDEX then
        Some (False, runner\<lparr>selected_components := param, selected_dependencies := tcbor_range_null\<rparr>)
      else if command = SUIT_DIRECTIVE_SET_DEPENDENCY_INDEX then
        Some (False, runner\<lparr>selected_components := tcbor_range_null, selected_dependencies := param\<rparr>)
      else
        case find_handler command is_common of
          None \<Rightarrow> step_error runner
        | Some h \<Rightarrow>
            let component = (\<not> tcbor_range_is_null (selected_components runner));
                dependency = (\<not> tcbor_range_is_null (selected_dependencies runner)) in
            if component = dependency then step_error runner
            else execute_selected im m cb runner h command param component)"

definition run_sequence_step ::
    "image \<Rightarrow> memory \<Rightarrow> ('u, 'f) suit_callbacks \<Rightarrow> ('u, 'f) suit_runner \<Rightarrow> tcbor_context \<Rightarrow> tcbor_context \<Rightarrow>
     (bool \<times> ('u, 'f) suit_runner) option" where
  "run_sequence_step im m cb runner common target =
     (if tcbor_is_end_of_context common \<and> tcbor_is_end_of_context target then Some (True, runner)
      else
        let is_common = (\<not> tcbor_is_end_of_context common);
            ctx = (if is_common then common else target);
            put = (\<lambda>c. runner\<lparr>program_counter := (program_counter runner)\<lparr>pc_next :=
                     (if is_common then SUIT_NEXT_EXECUTE_SEQUENCE c target
                      else SUIT_NEXT_EXECUTE_SEQUENCE common c)\<rparr>\<rparr>) in
        case tcbor_read_uint m ctx of
          (None, c) \<Rightarrow> step_error (put c)
        | (Some command, c) \<Rightarrow>
            case tcbor_read_subobject m c of
              (None, c) \<Rightarrow> step_error (put c)
            | (Some param, c) \<Rightarrow> execute_command im m cb (put c) command param is_common)"

definition run_try_step :: "('u, 'f) suit_runner \<Rightarrow> (bool \<times> ('u, 'f) suit_runner) option" where
  "run_try_step runner = Some (False, runner)"

text \<open>The handler leaves the program counter alone, so \<^verbatim>\<open>pc\<close> is still the continuation given.\<close>

definition put_selection ::
    "command_continuation \<Rightarrow> selection \<Rightarrow> ('u, 'f) suit_runner \<Rightarrow> ('u, 'f) suit_runner" where
  "put_selection cc sel runner =
     runner\<lparr>program_counter := (program_counter runner)\<lparr>pc_next :=
       SUIT_NEXT_EXECUTE_COMMAND (cc\<lparr>cmd_selection := sel\<rparr>)\<rparr>\<rparr>"

definition run_command_step ::
    "image \<Rightarrow> memory \<Rightarrow> ('u, 'f) suit_callbacks \<Rightarrow> ('u, 'f) suit_runner \<Rightarrow> command_continuation \<Rightarrow>
     (bool \<times> ('u, 'f) suit_runner) option" where
  "run_command_step im m cb runner cc =
     (let h = find_handler (cmd_command cc) False in
      case cmd_selection cc of
        Selected_all index \<Rightarrow>
          (case get_object runner (target_at im All_target) index (cmd_is_component cc) of
             None \<Rightarrow> None
           | Some None \<Rightarrow> Some (True, runner)
           | Some (Some target) \<Rightarrow>
               case h of
                 None \<Rightarrow> None
               | Some h \<Rightarrow>
                   step_handler (call_handler m cb h runner target (cmd_command cc) (cmd_param cc))
                     (put_selection cc (Selected_all (index + 1))))
      | Selected_array array \<Rightarrow>
          if tcbor_is_end_of_context array then Some (True, runner)
          else
            case tcbor_read_uint m array of
              (None, array) \<Rightarrow> step_error (put_selection cc (Selected_array array) runner)
            | (Some index, array) \<Rightarrow>
                let runner = put_selection cc (Selected_array array) runner in
                case get_object runner (target_at im Array_target) index (cmd_is_component cc) of
                  None \<Rightarrow> None
                | Some None \<Rightarrow> step_error runner
                | Some (Some target) \<Rightarrow>
                    case h of
                      None \<Rightarrow> None
                    | Some h \<Rightarrow>
                        step_handler (call_handler m cb h runner target (cmd_command cc) (cmd_param cc))
                          (\<lambda>r. r))"

text \<open>One round of the loop of \<^verbatim>\<open>suit_runner_run\<close>, on a runner that is not suspended.\<close>

datatype 'r round = Stop 'r | Again 'r

definition run_round ::
    "image \<Rightarrow> memory \<Rightarrow> ('u, 'f) suit_callbacks \<Rightarrow> ('u, 'f) suit_runner \<Rightarrow>
     ('u, 'f) suit_runner round option" where
  "run_round im m cb runner =
     (if pc_next (program_counter runner) = SUIT_NEXT_EXIT then Some (Stop runner)
      else
        case (case pc_next (program_counter runner) of
                SUIT_NEXT_EXECUTE_SEQUENCE common target \<Rightarrow> run_sequence_step im m cb runner common target
              | SUIT_NEXT_EXECUTE_TRY_ENTRY entries \<Rightarrow> run_try_step runner
              | SUIT_NEXT_EXECUTE_COMMAND cc \<Rightarrow> run_command_step im m cb runner cc
              | SUIT_NEXT_EXIT \<Rightarrow> None) of
          None \<Rightarrow> None
        | Some (pop_pc, runner) \<Rightarrow>
            if has_error runner then Some (Stop runner)
            else if pop_pc then
              case pop_program_counter runner of
                (False, runner) \<Rightarrow> Some (Stop (suit_runner_mark_error runner))
              | (True, runner) \<Rightarrow> Some (Again runner)
            else Some (Again runner))"

text \<open>
  The loop. The outer \<open>None\<close> of the result is a loop that does not end, the inner \<open>None\<close> the use
  of a null pointer.
\<close>

partial_function (option) run_loop ::
    "image \<Rightarrow> memory \<Rightarrow> ('u, 'f) suit_callbacks \<Rightarrow> ('u, 'f) suit_runner \<Rightarrow>
     ('u, 'f) suit_runner option option" where
  "run_loop im m cb runner =
     (if suspended runner then Some (Some runner)
      else
        case run_round im m cb runner of
          None \<Rightarrow> Some None
        | Some rnd \<Rightarrow>
            (case rnd of
               Stop runner \<Rightarrow> Some (Some runner)
             | Again runner \<Rightarrow> run_loop im m cb runner))"

declare run_loop.simps [code]

definition suit_runner_run ::
    "image \<Rightarrow> memory \<Rightarrow> ('u, 'f) suit_callbacks \<Rightarrow> ('u, 'f) suit_runner \<Rightarrow>
     ('u, 'f) suit_runner option option" where
  "suit_runner_run im m cb runner =
     (if has_error runner then Some (Some runner) else run_loop im m cb runner)"

definition suit_runner_finished :: "('u, 'f) suit_runner \<Rightarrow> bool" where
  "suit_runner_finished runner = (\<not> has_error runner \<and> \<not> suspended runner)"

definition suit_runner_has_error :: "('u, 'f) suit_runner \<Rightarrow> bool" where
  "suit_runner_has_error runner = has_error runner"

definition suit_runner_suspended :: "('u, 'f) suit_runner \<Rightarrow> bool" where
  "suit_runner_suspended runner = (\<not> has_error runner \<and> suspended runner)"

definition suit_runner_get_error :: "('u, 'f) suit_runner \<Rightarrow> bool" where
  "suit_runner_get_error runner = has_error runner"

definition suit_runner_suspend :: "('u, 'f) suit_runner \<Rightarrow> 'f option \<Rightarrow> ('u, 'f) suit_runner" where
  "suit_runner_suspend runner f = runner\<lparr>suspended := True, on_resume := f\<rparr>"

text \<open>\<open>call\<close> runs the function that was left for the resumption.\<close>

definition suit_runner_resume ::
    "('f \<Rightarrow> ('u, 'f) suit_runner \<Rightarrow> 'a \<Rightarrow> ('u, 'f) suit_runner) \<Rightarrow> ('u, 'f) suit_runner \<Rightarrow> 'a \<Rightarrow>
     ('u, 'f) suit_runner" where
  "suit_runner_resume call runner user =
     (if has_error runner then runner
      else if suspended runner then
        let runner = runner\<lparr>suspended := False\<rparr>; f = on_resume runner;
            runner = runner\<lparr>on_resume := None\<rparr> in
        case f of None \<Rightarrow> runner | Some f \<Rightarrow> call f runner user
      else runner)"

end
