(* ===== verification/Suit_Runner_Proofs.thy ===== *)
theory Suit_Runner_Proofs
  imports Suit_Runner
begin

text \<open>
  What the interpreter of \<open>Suit_Runner\<close> guarantees: the parameter table as a map, the shape of the
  stack, absence of null pointers, and that every run ends. The user's callbacks enter through the
  locale \<open>runner_client\<close>.
\<close>

section \<open>The parameter table\<close>

definition binder_ok :: "('u, 'f) suit_runner \<Rightarrow> bool" where
  "binder_ok r \<longleftrightarrow> n_binder r \<le> SUIT_BINDER_MAX \<and> length (bindings r) = SUIT_BINDER_MAX"

lemma lookup_from_Some:
  "lookup_from bs t k i n = Some j \<Longrightarrow>
     i \<le> j \<and> j < i + n \<and> binder_target (bs ! j) = t \<and> ucast (binder_key (bs ! j)) = k"
  by (induction n arbitrary: i) (fastforce split: if_splits)+

lemma lookup_from_cong:
  "(\<And>j. i \<le> j \<Longrightarrow> j < i + n \<Longrightarrow>
      binder_target (bs ! j) = binder_target (bs' ! j) \<and> binder_key (bs ! j) = binder_key (bs' ! j)) \<Longrightarrow>
   lookup_from bs t k i n = lookup_from bs' t k i n"
  by (induction n arbitrary: i) auto

lemma lookup_from_Suc:
  "lookup_from bs t k i (Suc n) =
     (case lookup_from bs t k i n of
        Some j \<Rightarrow> Some j
      | None \<Rightarrow> if binder_target (bs ! (i + n)) = t \<and> ucast (binder_key (bs ! (i + n))) = k
                then Some (i + n) else None)"
proof (induction n arbitrary: i)
  case (Suc n)
  show ?case
    using Suc.IH [of "Suc i"]
    by (simp only: lookup_from.simps(2) [of bs t k i "Suc n"] lookup_from.simps(2) [of bs t k i n])
      (auto simp del: lookup_from.simps split: option.split)
qed simp

text \<open>The table as a map from targets and 32-bit keys.\<close>

definition parameters :: "('u, 'f) suit_runner \<Rightarrow> ptr \<times> u64 \<Rightarrow> tcbor_range option" where
  "parameters r = (\<lambda>(t, k). suit_runner_get_parameter r t k)"

lemma key_32: "(ucast (ucast k :: u32) :: u64) = k \<longleftrightarrow> unat k < 2 ^ 32" for k :: u64
proof -
  have "unat (ucast (ucast k :: u32) :: u64) = unat k mod 2 ^ 32"
  proof -
    have "unat (ucast k :: u32) = take_bit 32 (unat k)" by (simp only: unsigned_ucast_eq) simp
    moreover have "take_bit 32 (unat k) < 2 ^ 64"
      by (rule less_le_trans [OF take_bit_nat_less_exp]) simp
    moreover have "unat (ucast w :: u64) = take_bit 64 (unat w)" for w :: u32
      by (simp only: unsigned_ucast_eq) simp
    ultimately show ?thesis by (simp only: take_bit_nat_eq_self) (simp only: take_bit_eq_mod)
  qed
  then show ?thesis by (auto simp: word_unat_eq_iff mod_eq_self_iff_div_eq_0 div_eq_0_iff)
qed

lemma set_parameter_cases:
  assumes "set_parameter r t k v over = (ok, r')"
  obtains (Kept) i where "ok" "\<not> over" "r' = r" "lookup_binder r t k = Some i"
  | (Changed) i where "ok" "over" "lookup_binder r t k = Some i"
      "r' = r\<lparr>bindings := (bindings r)[i := (bindings r ! i)\<lparr>value_cbor := v\<rparr>]\<rparr>"
  | (Full) "\<not> ok" "r' = r" "n_binder r = SUIT_BINDER_MAX" "lookup_binder r t k = None"
  | (New) i where "ok" "lookup_binder r t k = None" "i = n_binder r" "i \<noteq> SUIT_BINDER_MAX"
      "r' = (snd (alloc_binder r t k))
        \<lparr>bindings := (bindings (snd (alloc_binder r t k)))
           [i := (bindings (snd (alloc_binder r t k)) ! i)\<lparr>value_cbor := v\<rparr>]\<rparr>"
  using assms
  by (auto simp: set_parameter_def alloc_binder_def Let_def split: option.split_asm if_split_asm)

lemma set_parameter_binder_ok:
  assumes "set_parameter r t k v over = (ok, r')" and "binder_ok r"
  shows "binder_ok r'"
  using assms(1) by (cases rule: set_parameter_cases) (use assms(2) in \<open>auto simp: binder_ok_def alloc_binder_def Let_def\<close>)

text \<open>
  Setting a parameter whose key has 32 bits is an update of the map; one that is already set is
  only changed by an override. The table refuses a new parameter when its 32 entries are used.
\<close>

lemma lookup_value_update:
  assumes "\<And>j. binder_target (bs' ! j) = binder_target (bindings r ! j) \<and> binder_key (bs' ! j) = binder_key (bindings r ! j)"
  shows "lookup_binder (r\<lparr>bindings := bs'\<rparr>) t k = lookup_binder r t k"
  using assms by (auto simp: lookup_binder_def intro: lookup_from_cong)

lemma set_parameter_refines:
  assumes s: "set_parameter r t k v over = (ok, r')" and b: "binder_ok r" and k: "unat k < 2 ^ 32"
  shows "parameters r' =
      (if parameters r (t, k) \<noteq> None \<and> \<not> over \<or> \<not> ok then parameters r
       else (parameters r)((t, k) \<mapsto> v))" (is ?map)
    and "\<not> ok \<longleftrightarrow> parameters r (t, k) = None \<and> n_binder r = SUIT_BINDER_MAX" (is ?ok)
proof -
  have pn: "parameters r (t, k) = None \<longleftrightarrow> lookup_binder r t k = None"
    by (simp add: parameters_def suit_runner_get_parameter_def split: option.split)
  have "?map \<and> ?ok"
    using s
  proof (cases rule: set_parameter_cases)
    case (Changed i)
    let ?bs = "(bindings r)[i := (bindings r ! i)\<lparr>value_cbor := v\<rparr>]"
    have lt: "i < length (bindings r)" and hit: "binder_target (bindings r ! i) = t" "ucast (binder_key (bindings r ! i)) = k"
      using lookup_from_Some [of "bindings r" t k 0 "n_binder r" i] Changed(3) b
      by (auto simp: lookup_binder_def binder_ok_def)
    have same: "binder_target (?bs ! j) = binder_target (bindings r ! j) \<and> binder_key (?bs ! j) = binder_key (bindings r ! j)" for j
      using lt by (cases "j = i") auto
    have lk: "lookup_binder r' t' k' = lookup_binder r t' k'" for t' k'
      using lookup_value_update [OF same] Changed(4) by simp
    have other: "lookup_binder r t' k' \<noteq> Some i" if "(t', k') \<noteq> (t, k)" for t' k'
      using lookup_from_Some [of "bindings r" t' k' 0 "n_binder r" i] that hit by (auto simp: lookup_binder_def)
    have "parameters r' (t', k') = ((parameters r)((t, k) \<mapsto> v)) (t', k')" for t' k'
      using lk Changed(3,4) lt other [of t' k']
      by (auto simp: parameters_def suit_runner_get_parameter_def nth_list_update split: option.split)
    then have "parameters r' = (parameters r)((t, k) \<mapsto> v)" by (intro ext) (metis surj_pair)
    then show ?thesis using Changed(1-3) pn by simp
  next
    case (New i)
    let ?bs = "(bindings r)[i := (bindings r ! i)\<lparr>binder_target := t, binder_key := ucast k, value_cbor := v\<rparr>]"
    have lt: "i < length (bindings r)" using New(3,4) b by (auto simp: binder_ok_def)
    have r': "n_binder r' = Suc i" "bindings r' = ?bs"
      using New(3-5) lt by (simp_all add: alloc_binder_def Let_def)
    have "(ucast (ucast k :: u32) :: u64) = k" using k by (simp add: key_32)
    then have new: "lookup_binder r' t' k' =
        (case lookup_binder r t' k' of Some j \<Rightarrow> Some j | None \<Rightarrow> if t = t' \<and> k = k' then Some i else None)" for t' k'
      unfolding lookup_binder_def r' lookup_from_Suc
      using lt lookup_from_cong [of 0 i ?bs "bindings r" t' k'] New(3) by (simp split: option.split)
    have "parameters r' (t', k') = ((parameters r)((t, k) \<mapsto> v)) (t', k')" for t' k'
    proof (cases "lookup_binder r t' k'")
      case None
      then show ?thesis
        using new [of t' k'] lt by (auto simp: parameters_def suit_runner_get_parameter_def r')
    next
      case (Some j)
      then have "j < i" "(t', k') \<noteq> (t, k)"
        using lookup_from_Some [of "bindings r" t' k' 0 "n_binder r" j] New(2,3) by (auto simp: lookup_binder_def)
      then show ?thesis
        using new [of t' k'] Some by (auto simp: parameters_def suit_runner_get_parameter_def r')
    qed
    then have "parameters r' = (parameters r)((t, k) \<mapsto> v)" by (intro ext) (metis surj_pair)
    then show ?thesis using New(1,2) pn New(3,4) by simp
  qed (use pn in auto)
  then show ?map ?ok by blast+
qed

text \<open>A wider key is cut to 32 bits when it is stored, so that it sets another parameter.\<close>

lemma wide_key_aliases:
  assumes "binder_ok r" and "n_binder r \<noteq> SUIT_BINDER_MAX"
    and "lookup_binder r t k = None" and "parameters r (t, ucast (ucast k :: u32)) = None"
  shows "\<exists>r'. set_parameter r t k v over = (True, r') \<and> parameters r' (t, ucast (ucast k :: u32)) = Some v"
proof -
  let ?i = "n_binder r"
  have lt: "?i < length (bindings r)" using assms(1,2) by (auto simp: binder_ok_def)
  let ?bs = "(bindings r)[?i := (bindings r ! ?i)\<lparr>binder_target := t, binder_key := ucast k, value_cbor := v\<rparr>]"
  let ?r = "r\<lparr>n_binder := Suc ?i, bindings := ?bs\<rparr>"
  have s: "set_parameter r t k v over = (True, ?r)"
    using assms(2,3) lt by (simp add: set_parameter_def alloc_binder_def Let_def)
  have "lookup_binder r t (ucast (ucast k :: u32)) = None"
    using assms(4) by (simp add: parameters_def suit_runner_get_parameter_def split: option.splits)
  then have "lookup_from ?bs t (ucast (ucast k :: u32)) 0 ?i = None"
    using lookup_from_cong [of 0 ?i ?bs "bindings r" t] by (simp add: lookup_binder_def)
  then have "lookup_binder ?r t (ucast (ucast k :: u32)) = Some ?i"
    using lt by (simp add: lookup_binder_def lookup_from_Suc del: lookup_from.simps)
  then have "parameters ?r (t, ucast (ucast k :: u32)) = Some v"
    using lt by (simp add: parameters_def suit_runner_get_parameter_def)
  with s show ?thesis by blast
qed

section \<open>What the callbacks may do\<close>

text \<open>
  The contract between the interpreter and its user: a callback works on the user's data and may
  suspend the runner; it leaves the rest of the runner alone.
\<close>

definition user_part :: "('u, 'f) suit_runner \<Rightarrow> ('u, 'f) suit_runner \<Rightarrow> bool" where
  "user_part r r' \<longleftrightarrow>
     r' = r\<lparr>run_user := run_user r', suspended := suspended r', on_resume := on_resume r'\<rparr>"

locale runner_client =
  fixes cb :: "('u, 'f) suit_callbacks"
  assumes store_user: "store_cb cb r obj b = (ok, r') \<Longrightarrow> user_part r r'"
    and fetch_user: "fetch_cb cb r obj b = (ok, r') \<Longrightarrow> user_part r r'"

text \<open>A handler changes the parameter table and what the callbacks may change, nothing else.\<close>

definition handler_part :: "('u, 'f) suit_runner \<Rightarrow> ('u, 'f) suit_runner \<Rightarrow> bool" where
  "handler_part r r' \<longleftrightarrow>
     run_context r' = run_context r \<and> run_sequence r' = run_sequence r \<and>
     selected_components r' = selected_components r \<and>
     selected_dependencies r' = selected_dependencies r \<and>
     program_counter r' = program_counter r \<and> n_stack r' = n_stack r \<and> stack r' = stack r \<and>
     has_error r' = has_error r \<and> (binder_ok r \<longrightarrow> binder_ok r')"

lemma handler_part_refl [simp]: "handler_part r r"
  by (simp add: handler_part_def)

lemma handler_part_trans: "handler_part r s \<Longrightarrow> handler_part s t \<Longrightarrow> handler_part r t"
  by (simp add: handler_part_def)

lemma user_handler_part:
  assumes "user_part r r'"
  shows "handler_part r r'"
proof -
  obtain u s f where "r' = r\<lparr>run_user := u, suspended := s, on_resume := f\<rparr>"
    using assms unfolding user_part_def by blast
  then show ?thesis by (simp add: handler_part_def binder_ok_def)
qed

lemma set_parameter_part:
  assumes "set_parameter r t k v over = (ok, r')"
  shows "handler_part r r'"
  using assms set_parameter_binder_ok [OF assms]
  by (cases rule: set_parameter_cases) (auto simp: handler_part_def alloc_binder_def Let_def)

lemma set_parameters_loop_part:
  "set_parameters_loop m mp r t over = (ok, mp', r') \<Longrightarrow> handler_part r r'"
proof (induction m mp r t over rule: set_parameters_loop.induct)
  case (1 m mp r t over)
  note unfold = set_parameters_loop.simps [of m mp r t over]
  show ?case
  proof (cases "tcbor_is_end_of_context mp")
    case True
    then show ?thesis using "1.prems" by (simp add: unfold)
  next
    case ne: False
    obtain x mp1 where u: "tcbor_read_uint m mp = (x, mp1)" by fastforce
    obtain y mp2 where s: "tcbor_read_subobject m mp1 = (y, mp2)" by fastforce
    show ?thesis
    proof (cases "\<exists>k v. x = Some k \<and> y = Some v")
      case False
      then show ?thesis using "1.prems" ne u s by (cases x; cases y) (auto simp: unfold)
    next
      case True
      then obtain k v where xy: "x = Some k" "y = Some v" by blast
      obtain b r1 where sp: "set_parameter r t k v over = (b, r1)" by fastforce
      show ?thesis
      proof (cases b)
        case True
        have "handler_part r1 r'"
          using "1.IH" [OF ne u [symmetric] xy(1) s [symmetric] xy(2) sp [symmetric]] "1.prems" ne u s xy sp True
          by (simp add: unfold)
        then show ?thesis using set_parameter_part [OF sp] handler_part_trans by blast
      next
        case False
        then show ?thesis using "1.prems" ne u s xy sp set_parameter_part [OF sp] by (simp add: unfold)
      qed
    qed
  qed
qed

lemma directive_set_parameters_part:
  assumes "directive_set_parameters m r obj cmd p = (ok, r')"
  shows "handler_part r r'"
proof -
  obtain x c where mp: "tcbor_read_map m (tcbor_toplevel p) = (x, c)" by fastforce
  show ?thesis
  proof (cases x)
    case None
    then show ?thesis using assms mp by (simp add: directive_set_parameters_def Let_def)
  next
    case (Some mp0)
    obtain b mp1 r1 where lp: "set_parameters_loop m mp0 r (obj_addr obj)
        (cmd = SUIT_DIRECTIVE_OVERRIDE_PARAMETERS) = (b, mp1, r1)" by (rule prod_cases3)
    have "r' = r1" using assms mp Some lp
      by (cases b) (auto simp: directive_set_parameters_def Let_def split: prod.split_asm)
    then show ?thesis using set_parameters_loop_part [OF lp] by simp
  qed
qed

context runner_client
begin

lemma directive_fetch_part:
  assumes "directive_fetch m cb r obj cmd p = Some (ok, r')"
  shows "handler_part r r'"
  using assms store_user fetch_user
  by (auto simp: directive_fetch_def intro!: user_handler_part
      split: if_split_asm option.split_asm prod.split_asm)

lemma call_handler_part:
  assumes "call_handler m cb h r obj cmd p = Some (ok, r')"
  shows "handler_part r r'"
  using assms
  by (cases h)
    (auto simp: call_handler_def condition_vendor_identifier_def condition_class_identifier_def
      condition_image_match_def directive_process_dependency_def parse_rep_policy_def
      dest: directive_set_parameters_part directive_fetch_part)

lemma call_handler_defined:
  assumes "pc_manifest (program_counter r) = Some i"
  shows "call_handler m cb h r obj cmd p \<noteq> None"
  using assms
  by (cases h) (auto simp: call_handler_def directive_fetch_def split: option.split prod.split)

end

section \<open>The shape of the machine\<close>

definition in_table :: "('u, 'f) suit_runner \<Rightarrow> suit_continuation \<Rightarrow> bool" where
  "in_table r pc \<longleftrightarrow> (\<exists>i < n_manifest (run_context r). pc_manifest pc = Some i)"

text \<open>
  The stack never holds more than two continuations: the exit, and a sequence below a command.
  A try entry is never reached, and every continuation that is run refers to a manifest.
\<close>

definition machine_ok :: "('u, 'f) suit_runner \<Rightarrow> bool" where
  "machine_ok r \<longleftrightarrow>
     length (stack r) = SUIT_STACK_MAX \<and>
     (case pc_next (program_counter r) of
        SUIT_NEXT_EXIT \<Rightarrow> n_stack r = 0
      | SUIT_NEXT_EXECUTE_SEQUENCE common target \<Rightarrow>
          n_stack r = 1 \<and> pc_next (stack r ! 0) = SUIT_NEXT_EXIT \<and> in_table r (program_counter r)
      | SUIT_NEXT_EXECUTE_COMMAND cc \<Rightarrow>
          n_stack r = 2 \<and> pc_next (stack r ! 0) = SUIT_NEXT_EXIT \<and> in_table r (program_counter r) \<and>
          (\<exists>common target. pc_next (stack r ! 1) = SUIT_NEXT_EXECUTE_SEQUENCE common target) \<and>
          in_table r (stack r ! 1) \<and> find_handler (cmd_command cc) False \<noteq> None
      | SUIT_NEXT_EXECUTE_TRY_ENTRY entries \<Rightarrow> False)"

definition runner_ok :: "('u, 'f) suit_runner \<Rightarrow> bool" where
  "runner_ok r \<longleftrightarrow> context_ok (run_context r) \<and> binder_ok r \<and> machine_ok r"

lemma mark_error_part [simp]:
  "run_context (suit_runner_mark_error r) = run_context r"
  "program_counter (suit_runner_mark_error r) = program_counter r"
  "n_stack (suit_runner_mark_error r) = n_stack r" "stack (suit_runner_mark_error r) = stack r"
  "has_error (suit_runner_mark_error r)" "suspended (suit_runner_mark_error r) = suspended r"
  "binder_ok (suit_runner_mark_error r) = binder_ok r"
  by (simp_all add: suit_runner_mark_error_def binder_ok_def)

text \<open>What one step does to the machine: leave it, or push the continuation of a command.\<close>

definition left_alone :: "('u, 'f) suit_runner \<Rightarrow> ('u, 'f) suit_runner \<Rightarrow> bool" where
  "left_alone r r' \<longleftrightarrow>
     run_context r' = run_context r \<and> (binder_ok r \<longrightarrow> binder_ok r') \<and>
     program_counter r' = program_counter r \<and> n_stack r' = n_stack r \<and> stack r' = stack r"

definition command_pushed :: "('u, 'f) suit_runner \<Rightarrow> ('u, 'f) suit_runner \<Rightarrow> bool" where
  "command_pushed r r' \<longleftrightarrow>
     run_context r' = run_context r \<and> (binder_ok r \<longrightarrow> binder_ok r') \<and>
     n_stack r \<noteq> SUIT_STACK_MAX \<and>
     n_stack r' = n_stack r + 1 \<and> stack r' = (stack r)[n_stack r := program_counter r] \<and>
     pc_manifest (program_counter r') = pc_manifest (program_counter r) \<and>
     (\<exists>cc. pc_next (program_counter r') = SUIT_NEXT_EXECUTE_COMMAND cc \<and>
        find_handler (cmd_command cc) False \<noteq> None)"

lemma left_alone_refl [simp]: "left_alone r r"
  by (simp add: left_alone_def)

lemma left_alone_error: "left_alone r r' \<Longrightarrow> left_alone r (suit_runner_mark_error r')"
  by (simp add: left_alone_def)

lemma handler_left_alone: "handler_part r r' \<Longrightarrow> left_alone r r'"
  by (simp add: left_alone_def handler_part_def)

lemma find_in_handlers_common:
  "find_in_handlers hs c is_common = Some h \<Longrightarrow> find_in_handlers hs c False = Some h"
  by (induction hs) (auto split: if_splits)

lemma find_handler_common: "find_handler c is_common = Some h \<Longrightarrow> find_handler c False = Some h"
  by (simp add: find_handler_def find_in_handlers_common)

lemma get_object_defined:
  "pc_manifest (program_counter r) = Some i \<Longrightarrow> get_object r dst index component \<noteq> None"
  by (simp add: get_object_def Let_def)

context runner_client
begin

lemma step_handler_part:
  assumes "pc_manifest (program_counter r) = Some i"
  shows "\<exists>r'. step_handler (call_handler m cb h r obj cmd p) (\<lambda>r. r) = Some (False, r') \<and> left_alone r r'"
proof -
  obtain ok r1 where c: "call_handler m cb h r obj cmd p = Some (ok, r1)"
    using call_handler_defined [OF assms, of m h obj cmd p] by auto
  have "left_alone r r1" using handler_left_alone [OF call_handler_part [OF c]] .
  then show ?thesis
    using c left_alone_error by (cases ok) (auto simp: step_handler_def step_error_def)
qed

lemma step_error_part: "\<exists>r'. step_error r = Some (False, r') \<and> (left_alone r r' \<or> command_pushed r r')"
  using left_alone_error [OF left_alone_refl] by (auto simp: step_error_def)

lemma push_command_part:
  assumes "find_handler command False \<noteq> None"
  shows "\<exists>r'. push_command r command param component sel = Some (False, r') \<and>
    (left_alone r r' \<or> command_pushed r r')"
  using assms step_error_part [of r]
  by (auto simp: push_command_def push_program_counter_def Let_def command_pushed_def binder_ok_def)

lemma execute_selected_part:
  assumes pc: "pc_manifest (program_counter r) = Some i" and h: "find_handler command False \<noteq> None"
  shows "\<exists>r'. execute_selected im m cb r h command param component = Some (False, r') \<and>
    (left_alone r r' \<or> command_pushed r r')"
proof -
  have obj: "\<exists>r'. (case get_object r dst index component of
       None \<Rightarrow> None | Some None \<Rightarrow> step_error r
     | Some (Some target) \<Rightarrow> step_handler (call_handler m cb h r target command param) (\<lambda>r. r)) = Some (False, r') \<and>
       (left_alone r r' \<or> command_pushed r r')" for dst index
  proof (cases "get_object r dst index component")
    case None
    then show ?thesis using get_object_defined [OF pc] by blast
  next
    case (Some o1)
    then show ?thesis
      using step_error_part [of r] step_handler_part [OF pc, of m h _ command param] by (cases o1) auto
  qed
  define sel where "sel = (if component then selected_components r else selected_dependencies r)"
  obtain x c1 where b: "tcbor_read_bool m (tcbor_toplevel sel) = (x, c1)" by fastforce
  obtain y c2 where u: "tcbor_read_uint m c1 = (y, c2)" by fastforce
  obtain z c3 where a: "tcbor_read_array m c2 = (z, c3)" by fastforce
  show ?thesis
    unfolding execute_selected_def Let_def sel_def [symmetric]
    using b u a push_command_part [OF h, of r param component] obj step_error_part [of r]
    by (cases x; cases y; cases z) auto
qed

lemma execute_command_step:
  assumes "pc_manifest (program_counter r) = Some i"
  shows "\<exists>r'. execute_command im m cb r command param is_common = Some (False, r') \<and>
    (left_alone r r' \<or> command_pushed r r')"
proof (cases "command = SUIT_DIRECTIVE_SET_COMPONENT_INDEX \<or> command = SUIT_DIRECTIVE_SET_DEPENDENCY_INDEX")
  case True
  then show ?thesis by (auto simp: execute_command_def left_alone_def binder_ok_def)
next
  case False
  show ?thesis
  proof (cases "find_handler command is_common")
    case None
    then show ?thesis using False step_error_part [of r] by (simp add: execute_command_def)
  next
    case (Some h)
    then have "find_handler command False \<noteq> None" using find_handler_common by auto
    note sel = execute_selected_part [OF assms this]
    show ?thesis
      unfolding execute_command_def Let_def using False Some step_error_part [of r] sel by simp
  qed
qed

end

section \<open>What is left to do\<close>

definition seq_bytes :: "suit_continuation \<Rightarrow> nat" where
  "seq_bytes pc =
     (case pc_next pc of
        SUIT_NEXT_EXECUTE_SEQUENCE common target \<Rightarrow> span (ctx_r common) + span (ctx_r target)
      | _ \<Rightarrow> 0)"

definition bytes_left :: "('u, 'f) suit_runner \<Rightarrow> nat" where
  "bytes_left r =
     (case pc_next (program_counter r) of
        SUIT_NEXT_EXECUTE_COMMAND cc \<Rightarrow> seq_bytes (stack r ! 1)
      | _ \<Rightarrow> seq_bytes (program_counter r))"

fun selection_left :: "selection \<Rightarrow> nat" where
  "selection_left (Selected_all index) = 2 ^ 64 - unat index"
| "selection_left (Selected_array array) = span (ctx_r array)"

definition command_left :: "('u, 'f) suit_runner \<Rightarrow> nat" where
  "command_left r =
     (case pc_next (program_counter r) of
        SUIT_NEXT_EXECUTE_COMMAND cc \<Rightarrow> selection_left (cmd_selection cc)
      | _ \<Rightarrow> 0)"

text \<open>The order in which the rounds descend: bytes of the sequences, stack, objects of a command.\<close>

definition run_order :: "(('u, 'f) suit_runner \<times> ('u, 'f) suit_runner) set" where
  "run_order =
     inv_image (less_than <*lex*> less_than <*lex*> less_than) (\<lambda>r. (bytes_left r, n_stack r, command_left r))"

lemma wf_run_order: "wf run_order"
  by (auto simp: run_order_def intro: wf_inv_image wf_lex_prod)

lemma run_order_iff:
  "(r', r) \<in> run_order \<longleftrightarrow>
     bytes_left r' < bytes_left r \<or> bytes_left r' = bytes_left r \<and>
       (n_stack r' < n_stack r \<or> n_stack r' = n_stack r \<and> command_left r' < command_left r)"
  by (auto simp: run_order_def)

text \<open>A round that goes on keeps the invariant and descends; one that stops keeps the invariant.\<close>

definition good_round :: "('u, 'f) suit_runner \<Rightarrow> ('u, 'f) suit_runner round option \<Rightarrow> bool" where
  "good_round r x \<longleftrightarrow>
     (case x of
        None \<Rightarrow> False
      | Some (Stop r') \<Rightarrow>
          runner_ok r' \<and> run_context r' = run_context r \<and>
          (has_error r' \<or> pc_next (program_counter r') = SUIT_NEXT_EXIT)
      | Some (Again r') \<Rightarrow>
          runner_ok r' \<and> run_context r' = run_context r \<and> \<not> has_error r' \<and> (r', r) \<in> run_order)"

text \<open>The part of the loop body after the step.\<close>

definition after_step :: "(bool \<times> ('u, 'f) suit_runner) option \<Rightarrow> ('u, 'f) suit_runner round option" where
  "after_step x =
     (case x of
        None \<Rightarrow> None
      | Some (pop_pc, runner) \<Rightarrow>
          if has_error runner then Some (Stop runner)
          else if pop_pc then
            case pop_program_counter runner of
              (False, runner) \<Rightarrow> Some (Stop (suit_runner_mark_error runner))
            | (True, runner) \<Rightarrow> Some (Again runner)
          else Some (Again runner))"

lemma run_round_eq:
  "run_round im m cb r =
     (case pc_next (program_counter r) of
        SUIT_NEXT_EXIT \<Rightarrow> Some (Stop r)
      | SUIT_NEXT_EXECUTE_SEQUENCE common target \<Rightarrow> after_step (run_sequence_step im m cb r common target)
      | SUIT_NEXT_EXECUTE_TRY_ENTRY entries \<Rightarrow> after_step (run_try_step r)
      | SUIT_NEXT_EXECUTE_COMMAND cc \<Rightarrow> after_step (run_command_step im m cb r cc))"
  by (simp add: run_round_def after_step_def split: next_action.split)

lemma machine_sequence:
  assumes "machine_ok r" and "pc_next (program_counter r) = SUIT_NEXT_EXECUTE_SEQUENCE common target"
  shows "n_stack r = 1" "length (stack r) = SUIT_STACK_MAX" "pc_next (stack r ! 0) = SUIT_NEXT_EXIT"
    "in_table r (program_counter r)"
  using assms by (auto simp: machine_ok_def)

lemma machine_command:
  assumes "machine_ok r" and "pc_next (program_counter r) = SUIT_NEXT_EXECUTE_COMMAND cc"
  shows "n_stack r = 2" "length (stack r) = SUIT_STACK_MAX" "pc_next (stack r ! 0) = SUIT_NEXT_EXIT"
    "in_table r (program_counter r)" "in_table r (stack r ! 1)"
    "\<exists>common target. pc_next (stack r ! 1) = SUIT_NEXT_EXECUTE_SEQUENCE common target"
    "find_handler (cmd_command cc) False \<noteq> None"
  using assms by (auto simp: machine_ok_def)

lemma pop_sequence:
  assumes "runner_ok r" and pc: "pc_next (program_counter r) = SUIT_NEXT_EXECUTE_SEQUENCE common target"
    and "\<not> has_error r"
  shows "good_round r (after_step (Some (True, r)))"
proof -
  note mc = machine_sequence [OF _ pc]
  have ok: "context_ok (run_context r)" "binder_ok r" "machine_ok r" using assms(1) by (auto simp: runner_ok_def)
  let ?r = "r\<lparr>n_stack := 0, program_counter := stack r ! 0\<rparr>"
  have "after_step (Some (True, r)) = Some (Again ?r)"
    using assms(3) mc(1) [OF ok(3)] by (simp add: after_step_def pop_program_counter_def)
  moreover have "runner_ok ?r"
    using ok mc [OF ok(3)] by (simp add: runner_ok_def machine_ok_def binder_ok_def)
  moreover have "(?r, r) \<in> run_order"
    using mc [OF ok(3)] by (auto simp: run_order_iff bytes_left_def seq_bytes_def)
  ultimately show ?thesis using assms(3) by (simp add: good_round_def)
qed

lemma pop_command:
  assumes "runner_ok r" and pc: "pc_next (program_counter r) = SUIT_NEXT_EXECUTE_COMMAND cc"
    and "\<not> has_error r"
  shows "good_round r (after_step (Some (True, r)))"
proof -
  have ok: "context_ok (run_context r)" "binder_ok r" "machine_ok r" using assms(1) by (auto simp: runner_ok_def)
  note mc = machine_command [OF ok(3) pc]
  obtain common target where sq: "pc_next (stack r ! 1) = SUIT_NEXT_EXECUTE_SEQUENCE common target"
    using mc(6) by blast
  let ?r = "r\<lparr>n_stack := 1, program_counter := stack r ! 1\<rparr>"
  have "after_step (Some (True, r)) = Some (Again ?r)"
    using assms(3) mc(1) by (simp add: after_step_def pop_program_counter_def)
  moreover have "runner_ok ?r"
    using ok mc sq by (simp add: runner_ok_def machine_ok_def binder_ok_def in_table_def)
  moreover have "(?r, r) \<in> run_order"
    using mc(1) sq pc by (simp add: run_order_iff bytes_left_def)
  ultimately show ?thesis using assms(3) by (simp add: good_round_def)
qed

text \<open>A step of a sequence: \<open>r1\<close> is the runner with the command and its parameter consumed.\<close>

lemma sequence_step_good:
  assumes ok: "runner_ok r" and pc: "pc_next (program_counter r) = SUIT_NEXT_EXECUTE_SEQUENCE common target"
    and r1: "r1 = r\<lparr>program_counter := (program_counter r)\<lparr>pc_next := SUIT_NEXT_EXECUTE_SEQUENCE c t\<rparr>\<rparr>"
    and r2: "left_alone r1 r2 \<or> command_pushed r1 r2"
    and dec: "has_error r2 \<or> span (ctx_r c) + span (ctx_r t) < span (ctx_r common) + span (ctx_r target)"
  shows "good_round r (after_step (Some (False, r2)))"
proof -
  have ok': "context_ok (run_context r)" "binder_ok r" "machine_ok r" using ok by (auto simp: runner_ok_def)
  note mc = machine_sequence [OF ok'(3) pc]
  have "runner_ok r2 \<and> run_context r2 = run_context r \<and>
      bytes_left r2 = span (ctx_r c) + span (ctx_r t)"
    using r2
  proof
    assume "left_alone r1 r2"
    then show ?thesis
      using ok' mc r1
      by (auto simp: left_alone_def runner_ok_def machine_ok_def in_table_def binder_ok_def bytes_left_def seq_bytes_def)
  next
    assume p: "command_pushed r1 r2"
    have "1 < length (stack r)" using mc(2) by (simp add: SUIT_STACK_MAX_def)
    then show ?thesis
      using p ok' mc r1
      by (auto simp: command_pushed_def runner_ok_def machine_ok_def in_table_def binder_ok_def
          bytes_left_def seq_bytes_def nth_list_update)
  qed
  moreover have "bytes_left r = span (ctx_r common) + span (ctx_r target)"
    using pc by (simp add: bytes_left_def seq_bytes_def)
  ultimately show ?thesis
    using dec by (auto simp: after_step_def good_round_def run_order_iff)
qed

text \<open>A step of a command: the selection moves on, the machine stays.\<close>

lemma command_step_good:
  assumes ok: "runner_ok r" and pc: "pc_next (program_counter r) = SUIT_NEXT_EXECUTE_COMMAND cc"
    and r2: "run_context r2 = run_context r" "binder_ok r2" "n_stack r2 = n_stack r" "stack r2 = stack r"
      "program_counter r2 = (program_counter r)\<lparr>pc_next := SUIT_NEXT_EXECUTE_COMMAND (cc\<lparr>cmd_selection := sel\<rparr>)\<rparr>"
    and dec: "has_error r2 \<or> selection_left sel < selection_left (cmd_selection cc)"
  shows "good_round r (after_step (Some (False, r2)))"
proof -
  have ok': "context_ok (run_context r)" "machine_ok r" using ok by (auto simp: runner_ok_def)
  note mc = machine_command [OF ok'(2) pc]
  have "runner_ok r2"
    using ok'(1) mc r2 by (simp add: runner_ok_def machine_ok_def in_table_def)
  moreover have "bytes_left r2 = bytes_left r" "command_left r2 = selection_left sel"
    "command_left r = selection_left (cmd_selection cc)"
    using pc r2 by (simp_all add: bytes_left_def command_left_def)
  ultimately show ?thesis
    using dec r2(1,3) by (auto simp: after_step_def good_round_def run_order_iff)
qed

text \<open>An object that exists has an index below the size of the arrays.\<close>

lemma manifest_limits:
  assumes "context_ok p" and "i < n_manifest p"
  shows "n_components (man_common (manifests p ! i)) \<le> SUIT_COMPONENT_MAX"
    and "n_dependencies (man_common (manifests p ! i)) \<le> SUIT_DEPENDENCY_MAX"
proof -
  have "accepted (manifests p ! i)" using assms by (simp add: context_ok_def)
  then have "common_in (man_common_bstr (manifests p ! i)) (man_common (manifests p ! i))"
    by (auto simp: accepted_def manifest_in_defs)
  then show "n_components (man_common (manifests p ! i)) \<le> SUIT_COMPONENT_MAX"
    "n_dependencies (man_common (manifests p ! i)) \<le> SUIT_DEPENDENCY_MAX"
    by (simp_all add: common_in_def components_in_def)
qed

lemma get_object_bound:
  assumes "context_ok (run_context r)" and "in_table r (program_counter r)"
    and "get_object r dst index component = Some (Some obj)"
  shows "unat index < 8" and "obj_addr obj = dst" and "is_component obj = component"
    and "obj_index obj = unat index"
proof -
  obtain i where i: "i < n_manifest (run_context r)" "pc_manifest (program_counter r) = Some i"
    using assms(2) by (auto simp: in_table_def)
  have "unat index < (if component then n_components (man_common (manifests (run_context r) ! i))
     else n_dependencies (man_common (manifests (run_context r) ! i)))"
    and o1: "obj = \<lparr>obj_addr = dst, is_component = component, obj_manifest = i, obj_index = unat index\<rparr>"
    using assms(3) i(2) by (auto simp: get_object_def Let_def split: if_split_asm)
  then show "unat index < 8"
    using manifest_limits [OF assms(1) i(1)] by (auto simp: suit_limits split: if_split_asm)
  show "obj_addr obj = dst" "is_component obj = component" "obj_index obj = unat index"
    by (simp_all add: o1)
qed

context runner_client
begin

lemma run_sequence_step_good:
  assumes ok: "runner_ok r" and pc: "pc_next (program_counter r) = SUIT_NEXT_EXECUTE_SEQUENCE common target"
    and ne: "\<not> has_error r"
  shows "good_round r (after_step (run_sequence_step im m cb r common target))"
proof (cases "tcbor_is_end_of_context common \<and> tcbor_is_end_of_context target")
  case True
  then show ?thesis using pop_sequence [OF ok pc ne] by (simp add: run_sequence_step_def)
next
  case False
  have "in_table r (program_counter r)"
    using machine_sequence(4) [OF _ pc] ok by (simp add: runner_ok_def)
  then obtain i where i: "pc_manifest (program_counter r) = Some i" by (auto simp: in_table_def)
  define is_common where "is_common = (\<not> tcbor_is_end_of_context common)"
  define ctx where "ctx = (if is_common then common else target)"
  define put where "put = (\<lambda>c. r\<lparr>program_counter := (program_counter r)\<lparr>pc_next :=
     (if is_common then SUIT_NEXT_EXECUTE_SEQUENCE c target else SUIT_NEXT_EXECUTE_SEQUENCE common c)\<rparr>\<rparr>)"
  have put_eq: "put c = r\<lparr>program_counter := (program_counter r)\<lparr>pc_next :=
     SUIT_NEXT_EXECUTE_SEQUENCE (if is_common then c else common) (if is_common then target else c)\<rparr>\<rparr>" for c
    by (simp add: put_def)
  note good = sequence_step_good [OF ok pc put_eq]
  have err: "good_round r (after_step (step_error (put c)))" for c
    using good [of c "suit_runner_mark_error (put c)"] left_alone_error [OF left_alone_refl, of "put c"]
    by (simp add: step_error_def)
  have eq: "run_sequence_step im m cb r common target =
      (case tcbor_read_uint m ctx of
          (None, c) \<Rightarrow> step_error (put c)
        | (Some command, c) \<Rightarrow>
            case tcbor_read_subobject m c of
              (None, c) \<Rightarrow> step_error (put c)
            | (Some param, c) \<Rightarrow> execute_command im m cb (put c) command param is_common)"
    using False unfolding run_sequence_step_def Let_def is_common_def ctx_def put_def by (simp only: if_False)
  obtain x c1 where u: "tcbor_read_uint m ctx = (x, c1)" by fastforce
  obtain y c2 where s: "tcbor_read_subobject m c1 = (y, c2)" by fastforce
  show ?thesis
  proof (cases "\<exists>command param. x = Some command \<and> y = Some param")
    case False
    then show ?thesis unfolding eq using u s err by (cases x; cases y) simp_all
  next
    case True
    then obtain command param where xy: "x = Some command" "y = Some param" by blast
    have "span (ctx_r c2) < span (ctx_r ctx)"
      using uint.shrinks [of m ctx command c1] subobject.shrinks [of m c1 param c2] u s xy by simp
    then have dec: "span (ctx_r (if is_common then c2 else common)) + span (ctx_r (if is_common then target else c2))
        < span (ctx_r common) + span (ctx_r target)"
      by (simp add: ctx_def split: if_splits)
    have "pc_manifest (program_counter (put c2)) = Some i" by (simp add: put_eq i)
    from execute_command_step [OF this] obtain r2 where
      ex: "execute_command im m cb (put c2) command param is_common = Some (False, r2)"
      and r2: "left_alone (put c2) r2 \<or> command_pushed (put c2) r2"
      by blast
    then show ?thesis unfolding eq using u s xy good [OF r2] dec by simp
  qed
qed

lemma run_command_all_good:
  assumes ok: "runner_ok r" and pc: "pc_next (program_counter r) = SUIT_NEXT_EXECUTE_COMMAND cc"
    and ne: "\<not> has_error r" and sel: "cmd_selection cc = Selected_all index"
  shows "good_round r (after_step (run_command_step im m cb r cc))"
proof -
  have ok': "context_ok (run_context r)" "binder_ok r" "machine_ok r" using ok by (auto simp: runner_ok_def)
  note mc = machine_command [OF ok'(3) pc]
  obtain h where h: "find_handler (cmd_command cc) False = Some h" using mc(7) by blast
  obtain i where i: "pc_manifest (program_counter r) = Some i" using mc(4) by (auto simp: in_table_def)
  note good = command_step_good [OF ok pc]
  have keep: "cc\<lparr>cmd_selection := cmd_selection cc\<rparr> = cc"
    "(program_counter r)\<lparr>pc_next := SUIT_NEXT_EXECUTE_COMMAND cc\<rparr> = program_counter r"
    using pc by (simp, cases "program_counter r") simp
  obtain o1 where o1: "get_object r (target_at im All_target) index (cmd_is_component cc) = Some o1"
    using get_object_defined [OF i] by blast
  show ?thesis
  proof (cases o1)
    case None
    then show ?thesis using o1 sel pop_command [OF ok pc ne] by (simp add: run_command_step_def Let_def)
  next
    case (Some obj)
    have lt: "unat index < 8" using get_object_bound [OF ok'(1) mc(4)] o1 Some by blast
    then have "unat (index + 1) = unat index + 1" using unat_add_exact [of index 1] by simp
    then have dec: "selection_left (Selected_all (index + 1)) < selection_left (cmd_selection cc)"
      using lt sel by simp
    obtain b r1 where c: "call_handler m cb h r obj (cmd_command cc) (cmd_param cc) = Some (b, r1)"
      using call_handler_defined [OF i, of m h obj "cmd_command cc" "cmd_param cc"] by auto
    note part = call_handler_part [OF c, unfolded handler_part_def]
    have eq: "run_command_step im m cb r cc =
      (if b then Some (False, put_selection cc (Selected_all (index + 1)) r1) else step_error r1)"
      using sel o1 Some h c by (simp add: run_command_step_def Let_def step_handler_def)
    show ?thesis
    proof (cases b)
      case True
      then show ?thesis
        unfolding eq using good [of "put_selection cc (Selected_all (index + 1)) r1" "Selected_all (index + 1)"]
          part ok'(2) dec by (simp add: put_selection_def binder_ok_def)
    next
      case False
      then show ?thesis
        unfolding eq step_error_def using good [of "suit_runner_mark_error r1" "cmd_selection cc", unfolded keep]
          part ok'(2) by simp
    qed
  qed
qed

lemma run_command_array_good:
  assumes ok: "runner_ok r" and pc: "pc_next (program_counter r) = SUIT_NEXT_EXECUTE_COMMAND cc"
    and ne: "\<not> has_error r" and sel: "cmd_selection cc = Selected_array array"
  shows "good_round r (after_step (run_command_step im m cb r cc))"
proof (cases "tcbor_is_end_of_context array")
  case True
  then show ?thesis using sel pop_command [OF ok pc ne] by (simp add: run_command_step_def Let_def)
next
  case not_end: False
  have ok': "binder_ok r" "machine_ok r" using ok by (auto simp: runner_ok_def)
  note mc = machine_command [OF ok'(2) pc]
  obtain h where h: "find_handler (cmd_command cc) False = Some h" using mc(7) by blast
  obtain x a1 where u: "tcbor_read_uint m array = (x, a1)" by fastforce
  let ?r = "put_selection cc (Selected_array a1) r"
  have step: "good_round r (after_step (Some (False, r2)))"
    if "left_alone ?r r2" "has_error r2 \<or> span (ctx_r a1) < span (ctx_r array)" for r2
    using command_step_good [OF ok pc, of r2 "Selected_array a1"] that ok'(1) sel
    by (simp add: left_alone_def put_selection_def binder_ok_def)
  have err: "good_round r (after_step (step_error ?r))"
    unfolding step_error_def by (rule step) (use left_alone_error [OF left_alone_refl, of ?r] in simp_all)
  obtain i where i: "pc_manifest (program_counter ?r) = Some i"
    using mc(4) by (auto simp: in_table_def put_selection_def)
  show ?thesis
  proof (cases x)
    case None
    then show ?thesis using sel not_end u err by (simp add: run_command_step_def Let_def)
  next
    case (Some index)
    have dec: "span (ctx_r a1) < span (ctx_r array)" using uint.shrinks u Some by blast
    obtain o1 where o1: "get_object ?r (target_at im Array_target) index (cmd_is_component cc) = Some o1"
      using get_object_defined [OF i] by blast
    have "run_command_step im m cb r cc =
      (case o1 of None \<Rightarrow> step_error ?r
       | Some target \<Rightarrow> step_handler (call_handler m cb h ?r target (cmd_command cc) (cmd_param cc)) (\<lambda>r. r))"
      using sel not_end u Some o1 h by (simp add: run_command_step_def Let_def split: option.split)
    moreover have "good_round r (after_step
        (step_handler (call_handler m cb h ?r obj (cmd_command cc) (cmd_param cc)) (\<lambda>r. r)))" for obj
      using step dec step_handler_part [OF i, of m h obj "cmd_command cc" "cmd_param cc"] by force
    ultimately show ?thesis using err by (cases o1) simp_all
  qed
qed

lemma run_command_step_good:
  assumes "runner_ok r" and "pc_next (program_counter r) = SUIT_NEXT_EXECUTE_COMMAND cc" and "\<not> has_error r"
  shows "good_round r (after_step (run_command_step im m cb r cc))"
  using run_command_all_good [OF assms] run_command_array_good [OF assms] by (cases "cmd_selection cc") blast+

lemma run_round_good:
  assumes ok: "runner_ok r" and ne: "\<not> has_error r"
  shows "good_round r (run_round im m cb r)"
proof (cases "pc_next (program_counter r)")
  case (SUIT_NEXT_EXECUTE_SEQUENCE common target)
  then show ?thesis using run_sequence_step_good [OF ok _ ne] by (simp add: run_round_eq)
next
  case (SUIT_NEXT_EXECUTE_COMMAND cc)
  then show ?thesis using run_command_step_good [OF ok _ ne] by (simp add: run_round_eq)
next
  case (SUIT_NEXT_EXECUTE_TRY_ENTRY entries)
  then show ?thesis using ok by (simp add: runner_ok_def machine_ok_def)
next
  case SUIT_NEXT_EXIT
  then show ?thesis using ok by (simp add: run_round_eq good_round_def)
qed

text \<open>Every run ends, without a null pointer, in a runner that keeps the invariant.\<close>

lemma run_loop_ends:
  "runner_ok r \<Longrightarrow> \<not> has_error r \<Longrightarrow>
     \<exists>r'. run_loop im m cb r = Some (Some r') \<and> runner_ok r' \<and> run_context r' = run_context r \<and>
       (has_error r' \<or> suspended r' \<or> pc_next (program_counter r') = SUIT_NEXT_EXIT)"
proof (induction r rule: wf_induct_rule [OF wf_run_order])
  case (1 r)
  show ?case
  proof (cases "suspended r")
    case True
    then show ?thesis using "1.prems" by (subst run_loop.simps) simp
  next
    case False
    note good = run_round_good [OF "1.prems", of im m]
    show ?thesis
    proof (cases "run_round im m cb r")
      case None
      then show ?thesis using good by (simp add: good_round_def)
    next
      case (Some rnd)
      show ?thesis
      proof (cases rnd)
        case (Stop r')
        then show ?thesis
          using good Some False by (subst run_loop.simps) (auto simp: good_round_def)
      next
        case (Again r')
        then have r': "runner_ok r'" "\<not> has_error r'" "(r', r) \<in> run_order" "run_context r' = run_context r"
          using good Some by (simp_all add: good_round_def)
        from "1.IH" [OF r'(3,1,2)] show ?thesis
          using Some Again False r'(4) by (subst run_loop.simps) simp
      qed
    qed
  qed
qed

lemma run_ends:
  assumes "runner_ok r"
  shows "\<exists>r'. suit_runner_run im m cb r = Some (Some r') \<and> runner_ok r' \<and>
    run_context r' = run_context r \<and>
    (has_error r' \<or> suspended r' \<or> pc_next (program_counter r') = SUIT_NEXT_EXIT)"
  using run_loop_ends [OF assms] assms by (cases "has_error r") (simp_all add: suit_runner_run_def)

end

section \<open>The start\<close>

lemma call_sequence_cases:
  assumes "call_command_sequence im m r (Some i) = Some (b, r')"
  obtains (Fail) "\<not> b" "r' = r"
  | (Ok) common target where "b" "n_stack r \<noteq> SUIT_STACK_MAX"
      "r' = r\<lparr>stack := (stack r)[n_stack r := program_counter r], n_stack := n_stack r + 1,
        program_counter := \<lparr>pc_manifest = Some i, pc_next = SUIT_NEXT_EXECUTE_SEQUENCE common target\<rparr>\<rparr>"
proof -
  define cs where "cs = (let c = command_sequence (man_common (manifests (run_context r) ! i)) in
    if tcbor_range_is_null c then empty_array im else c)"
  note P = assms [unfolded call_command_sequence_def option.case Let_def, folded cs_def [unfolded Let_def]]
  show thesis
  proof (cases "get_command_sequence_body r (manifests (run_context r) ! i)")
    case None
    then show thesis using P Fail by simp
  next
    case (Some body)
    define ts where "ts = (if tcbor_range_is_null body then empty_array im else body)"
    note P = P [unfolded Some option.case, folded ts_def]
    obtain x tc where t: "tcbor_read_array m (tcbor_toplevel ts) = (x, tc)" by fastforce
    obtain y cc where c: "tcbor_read_array m (tcbor_toplevel cs) = (y, cc)" by fastforce
    show thesis
    proof (cases "\<exists>target common. x = Some target \<and> y = Some common")
      case False
      then show thesis using P t c Fail by (cases x; cases y) simp_all
    next
      case True
      then obtain target common where xy: "x = Some target" "y = Some common" by blast
      show thesis
      proof (cases "n_stack r = SUIT_STACK_MAX")
        case True
        then show thesis using P t c xy Fail by (simp add: push_program_counter_def)
      next
        case False
        then show thesis
          using P t c xy by (intro Ok [of common target]) (simp_all add: push_program_counter_def)
      qed
    qed
  qed
qed

lemma call_sequence_defined: "call_command_sequence im m r man = None \<longleftrightarrow> man = None"
  by (cases man) (auto simp: call_command_sequence_def Let_def split: option.split prod.split bool.split)

lemma call_dependency_eq: "call_dependency im m r man = call_command_sequence im m r man"
  by (simp add: call_dependency_def split: option.split prod.split bool.split)

text \<open>
  The initialisation uses a null pointer exactly when the context holds no manifest. Otherwise
  the runner satisfies the invariant: it is at the start of the sequence or, when the sequence
  could not be opened, at its exit.
\<close>

lemma runner_init_defined:
  "suit_runner_init im m context sequence user = None \<longleftrightarrow> n_manifest context = 0"
  by (simp add: suit_runner_init_def Let_def call_dependency_eq call_sequence_defined
      suit_context_get_root_manifest_def)

lemma start_defined:
  "n_manifest context \<noteq> 0 \<Longrightarrow> \<exists>r :: ('u, 'f) suit_runner. suit_runner_init im m context sequence user = Some r"
  by (cases "suit_runner_init im m context sequence user :: ('u, 'f) suit_runner option")
    (simp_all add: runner_init_defined)

lemma runner_ok_stack: "runner_ok r \<Longrightarrow> n_stack r \<le> 2"
  by (auto simp: runner_ok_def machine_ok_def split: next_action.splits)

lemma runner_init_ok:
  fixes r :: "('u, 'f) suit_runner"
  assumes "suit_runner_init im m context sequence user = Some r" and ctx: "context_ok context"
  shows "runner_ok r" and "\<not> has_error r" and "\<not> suspended r" and "n_binder r = 0"
    and "run_user r = user" and "run_context r = context"
    and "pc_next (program_counter r) = SUIT_NEXT_EXIT \<or>
      (\<exists>common target. pc_next (program_counter r) = SUIT_NEXT_EXECUTE_SEQUENCE common target)"
proof -
  have ne: "n_manifest context \<noteq> 0"
  proof
    assume "n_manifest context = 0"
    then have "suit_runner_init im m context sequence user = (None :: ('u, 'f) suit_runner option)"
      by (simp add: runner_init_defined)
    with assms(1) show False by simp
  qed
  define r0 where "r0 =
    \<lparr>run_context = context, run_user = user, run_sequence = sequence,
     selected_components = cbor_true im, selected_dependencies = tcbor_range_null,
     n_binder = 0, bindings = replicate SUIT_BINDER_MAX zero_binder,
     program_counter = \<lparr>pc_manifest = Some 0, pc_next = SUIT_NEXT_EXIT\<rparr>,
     n_stack = 0, stack = replicate SUIT_STACK_MAX zero_continuation,
     has_error = False, suspended = False, on_resume = None :: 'f option\<rparr>"
  have "\<exists>b. call_command_sequence im m r0 (Some 0) = Some (b, r)"
    using assms(1) ne
    by (auto simp: suit_runner_init_def Let_def call_dependency_eq suit_context_get_root_manifest_def r0_def)
  then obtain b where c: "call_command_sequence im m r0 (Some 0) = Some (b, r)" by blast
  have "runner_ok r \<and> \<not> has_error r \<and> \<not> suspended r \<and> n_binder r = 0 \<and> run_user r = user \<and>
    run_context r = context \<and> (pc_next (program_counter r) = SUIT_NEXT_EXIT \<or>
      (\<exists>common target. pc_next (program_counter r) = SUIT_NEXT_EXECUTE_SEQUENCE common target))"
    using c
    by (cases rule: call_sequence_cases)
      (use ctx ne in \<open>auto simp: r0_def runner_ok_def machine_ok_def binder_ok_def in_table_def
        SUIT_STACK_MAX_def SUIT_BINDER_MAX_def nth_list_update\<close>)
  then show "runner_ok r" "\<not> has_error r" "\<not> suspended r" "n_binder r = 0" "run_user r = user" "run_context r = context"
    "pc_next (program_counter r) = SUIT_NEXT_EXIT \<or>
      (\<exists>common target. pc_next (program_counter r) = SUIT_NEXT_EXECUTE_SEQUENCE common target)"
    by blast+
qed

text \<open>
  A sequence that cannot be opened is not reported: the runner is left at its exit, and a run of
  it ends at once without an error.
\<close>

lemma malformed_install_finishes:
  assumes "suit_context_get_root_manifest context = Some i"
    and "\<not> tcbor_range_is_null (sev_body (man_install (manifests context ! i)))"
    and "fst (tcbor_read_array m (tcbor_toplevel (sev_body (man_install (manifests context ! i))))) = None"
  shows "\<exists>r. suit_runner_init im m context SUIT_COMMAND_SEQUENCE_INSTALL user = Some r \<and>
    suit_runner_run im m cb r = Some (Some r) \<and> suit_runner_finished r"
proof -
  define r where "r =
    \<lparr>run_context = context, run_user = user, run_sequence = SUIT_COMMAND_SEQUENCE_INSTALL,
     selected_components = cbor_true im, selected_dependencies = tcbor_range_null,
     n_binder = 0, bindings = replicate SUIT_BINDER_MAX zero_binder,
     program_counter = \<lparr>pc_manifest = Some i, pc_next = SUIT_NEXT_EXIT\<rparr>,
     n_stack = 0, stack = replicate SUIT_STACK_MAX zero_continuation,
     has_error = False, suspended = False, on_resume = None :: 'b option\<rparr>"
  obtain c where "tcbor_read_array m (tcbor_toplevel (sev_body (man_install (manifests context ! i)))) = (None, c)"
    using assms(3) by (metis prod.collapse)
  then have "call_command_sequence im m r (Some i) = Some (False, r)"
    using assms(2) by (simp add: call_command_sequence_def Let_def get_command_sequence_body_def r_def)
  then have "suit_runner_init im m context SUIT_COMMAND_SEQUENCE_INSTALL user = Some r"
    using assms(1) by (simp add: suit_runner_init_def Let_def call_dependency_eq r_def)
  moreover have "suit_runner_run im m cb r = Some (Some r)"
    unfolding suit_runner_run_def by (subst run_loop.simps) (simp add: r_def run_round_eq)
  moreover have "suit_runner_finished r" by (simp add: suit_runner_finished_def r_def)
  ultimately show ?thesis by blast
qed

end
