(* ===== verification/Ta_Store.thy ===== *)
theory Ta_Store
  imports Tcbor
begin

text \<open>
  \<^verbatim>\<open>teep-agent-ta/ta-store.c\<close>, \<^verbatim>\<open>ta-store.h\<close> and \<^verbatim>\<open>tools.c\<close>: the path of a component and
  the name of its file, the installation of an image on a PC, and the string functions
  the enclave builds bring along. A C string is the list of the bytes before its NUL.
\<close>

section \<open>Strings\<close>

definition ascii :: "string \<Rightarrow> u8 list" where
  "ascii s = map of_char s"

lemma length_ascii [simp]: "length (ascii s) = length s"
  by (simp add: ascii_def)

text \<open>The bytes of a buffer up to its first NUL; \<open>None\<close> when it has none.\<close>

fun c_string :: "u8 list \<Rightarrow> u8 list option" where
  "c_string [] = None"
| "c_string (c # cs) = (if c = 0 then Some [] else map_option ((#) c) (c_string cs))"

lemma c_string_append: "0 \<notin> set s \<Longrightarrow> c_string (s @ 0 # rest) = Some s"
  by (induction s) auto

lemma c_string_SomeD: "c_string b = Some s \<Longrightarrow> 0 \<notin> set s \<and> length s < length b \<and> take (length s) b = s"
  by (induction b arbitrary: s) (auto split: if_splits)

lemma c_string_None: "c_string b = None \<longleftrightarrow> 0 \<notin> set b"
  by (induction b) auto

text \<open>
  The \<^verbatim>\<open>strncpy\<close> of the C library into the buffer \<open>dst\<close>: at most \<open>n\<close> bytes of the string, then
  NUL up to \<open>n\<close>. The bytes from \<open>n\<close> on are left alone.
\<close>

definition strncpy :: "u8 list \<Rightarrow> u8 list \<Rightarrow> nat \<Rightarrow> u8 list" where
  "strncpy dst src n = take n (src @ replicate n 0) @ drop n dst"

text \<open>The one of \<^verbatim>\<open>tools.c\<close>: no padding, and a NUL written at \<open>dst[n]\<close>.\<close>

primrec copy_string :: "u8 list \<Rightarrow> u8 list \<Rightarrow> nat \<Rightarrow> nat \<Rightarrow> u8 list" where
  "copy_string dst src i 0 = dst"
| "copy_string dst src i (Suc n) =
     (if i < length src then copy_string (dst[i := src ! i]) src (i + 1) n else dst[i := 0])"

definition tools_strncpy :: "u8 list \<Rightarrow> u8 list \<Rightarrow> nat \<Rightarrow> u8 list option" where
  "tools_strncpy dst src n =
     (if n < length dst then Some ((copy_string dst src 0 n)[n := 0]) else None)"

lemma length_copy_string [simp]: "length (copy_string dst src i n) = length dst"
  by (induction n arbitrary: dst i) auto

lemma copy_string_nth:
  "j < length dst \<Longrightarrow> copy_string dst src i n ! j =
     (if i \<le> j \<and> j < i + n then (if j < length src then src ! j else if j = max i (length src) then 0 else dst ! j)
      else dst ! j)"
  by (induction n arbitrary: dst i) (auto simp: nth_list_update max_def le_Suc_eq Suc_le_eq dest: le_neq_implies_less)

lemma tools_strncpy_string:
  assumes "n < length dst" and "0 \<notin> set src"
  shows "\<exists>b. tools_strncpy dst src n = Some b \<and> length b = length dst \<and> c_string b = Some (take n src)"
proof -
  let ?k = "min n (length src)"
  let ?b = "(copy_string dst src 0 n)[n := 0]"
  have "?b ! ?k = 0" and lt: "?k < length ?b"
    using assms(1) by (auto simp: nth_list_update copy_string_nth min_def)
  moreover have "take ?k ?b = take n src"
    by (rule nth_equalityI) (use assms(1) in \<open>auto simp: nth_list_update copy_string_nth\<close>)
  ultimately have "?b = take n src @ 0 # drop (Suc ?k) ?b"
    using id_take_nth_drop [OF lt] by simp
  then have "c_string ?b = Some (take n src)"
    using c_string_append [of "take n src"] assms(2) by (metis in_set_takeD)
  then show ?thesis using assms(1) by (simp add: tools_strncpy_def)
qed

text \<open>
  \<^verbatim>\<open>local_strstr\<close>: the inner loop runs over both strings until one ends or they differ; the outer
  one gives up as soon as the first string ends inside of the inner loop. The result is the
  offset of the match.
\<close>

fun match_prefix :: "u8 list \<Rightarrow> u8 list \<Rightarrow> u8 list \<times> u8 list" where
  "match_prefix (p # ps) (q # qs) = (if p \<noteq> q then (p # ps, q # qs) else match_prefix ps qs)"
| "match_prefix ps qs = (ps, qs)"

fun strstr_from :: "u8 list \<Rightarrow> u8 list \<Rightarrow> nat \<Rightarrow> nat option" where
  "strstr_from [] y i = None"
| "strstr_from (c # x) y i =
     (case match_prefix (c # x) y of (p, q) \<Rightarrow>
        if q = [] then Some i else if p = [] then None else strstr_from x y (i + 1))"

definition local_strstr :: "u8 list \<Rightarrow> u8 list \<Rightarrow> nat option" where
  "local_strstr x y = (if y = [] then Some 0 else strstr_from x y 0)"

lemma match_prefix_found: "snd (match_prefix p q) = [] \<longleftrightarrow> take (length q) p = q"
  by (induction p q rule: match_prefix.induct) auto

lemma match_prefix_short: "match_prefix p q = ([], b # bs) \<Longrightarrow> length p < length q"
  by (induction p q rule: match_prefix.induct) (auto split: if_splits)

text \<open>The offset is that of the first occurrence, and there is none exactly when the result is \<open>None\<close>.\<close>

lemma strstr_from_eq:
  assumes "y \<noteq> []"
  shows "strstr_from x y i =
    (if \<exists>k. take (length y) (drop k x) = y then Some (i + (LEAST k. take (length y) (drop k x) = y)) else None)"
proof (induction x arbitrary: i)
  case Nil
  then show ?case using assms by simp
next
  case (Cons c x)
  let ?at = "\<lambda>k. take (length y) (drop k (c # x)) = y"
  obtain p q where pq: "match_prefix (c # x) y = (p, q)" by fastforce
  have q: "q = [] \<longleftrightarrow> ?at 0" using match_prefix_found [of "c # x" y] pq by simp
  show ?case
  proof (cases "?at 0")
    case True
    then have "(LEAST k. ?at k) = 0" by (intro Least_equality) auto
    moreover have "\<exists>k. ?at k" using True by blast
    ultimately show ?thesis using pq q True by simp
  next
    case no: False
    then obtain b bs where qb: "q = b # bs" using q by (cases q) auto
    show ?thesis
    proof (cases p)
      case Nil
      then have "length (c # x) < length y" using match_prefix_short pq qb by blast
      then have "\<not> ?at k" for k by (metis length_drop length_take min.strict_coboundedI1 le_less_trans diff_le_self min.cobounded1 less_irrefl min_def)
      then show ?thesis using pq qb Nil by auto
    next
      case (Cons a as)
      have ex: "(\<exists>k. ?at k) \<longleftrightarrow> (\<exists>k. take (length y) (drop k x) = y)"
        using no by (metis drop_Suc_Cons not0_implies_Suc drop0)
      have "(LEAST k. ?at k) = Suc (LEAST k. take (length y) (drop k x) = y)" if some: "\<exists>k. ?at k"
      proof -
        obtain k where k: "?at k" using some by blast
        show ?thesis using Least_Suc [of ?at k, OF k no] by simp
      qed
      then show ?thesis using Cons.IH [of "i + 1"] pq qb Cons ex by auto
    qed
  qed
qed

section \<open>The path of a component\<close>

record component_path =
  path_device :: string
  path_storage :: string
  path_uuid :: "u8 list"
  path_filename :: "u8 list"

definition hex_digit :: "nat \<Rightarrow> u8" where
  "hex_digit n = of_nat (if n < 10 then 48 + n else 87 + n)"

definition hex_byte :: "u8 \<Rightarrow> u8 list" where
  "hex_byte b = [hex_digit (unat b div 16), hex_digit (unat b mod 16)]"

text \<open>The loop that prints the sixteen bytes of the UUID, and the suffix.\<close>

definition uuid_filename :: "u8 list \<Rightarrow> u8 list" where
  "uuid_filename uuid =
     concat (map (\<lambda>i. hex_byte (uuid ! i) @ (if i = 3 \<or> i = 5 \<or> i = 7 \<or> i = 9 then ascii ''-'' else []))
       [0 ..< 16]) @ ascii ''.ta''"

lemma unat_hex_digit: "n < 16 \<Longrightarrow> unat (hex_digit n) = (if n < 10 then 48 + n else 87 + n)"
  by (simp add: hex_digit_def unat_of_nat)

lemma hex_digit_inj:
  assumes "hex_digit a = hex_digit b" and "a < 16" and "b < 16"
  shows "a = b"
proof -
  have "(if a < 10 then 48 + a else 87 + a) = (if b < 10 then 48 + b else 87 + b)"
    using unat_hex_digit [OF assms(2)] unat_hex_digit [OF assms(3)] assms(1) by metis
  then show ?thesis by (cases "a < 10"; cases "b < 10") simp_all
qed

lemma hex_byte_inj: "hex_byte a = hex_byte b \<longleftrightarrow> a = b"
proof
  assume e: "hex_byte a = hex_byte b"
  have lt: "unat x div 16 < 16" for x :: u8
  proof -
    have "unat x < 2 ^ LENGTH(8)" by (rule unsigned_less)
    then show ?thesis by simp
  qed
  have "unat a div 16 = unat b div 16" "unat a mod 16 = unat b mod 16"
    using e lt by (auto simp: hex_byte_def intro: hex_digit_inj)
  then have "unat a = unat b" by (metis div_mult_mod_eq)
  then show "a = b" by (simp only: word_unat_eq_iff)
qed simp

lemma length_hex_byte [simp]: "length (hex_byte b) = 2"
  by (simp add: hex_byte_def)

lemma length_uuid_filename: "length (uuid_filename uuid) = 39"
  by (simp add: uuid_filename_def length_concat upt_conv_Cons)

lemma hex_byte_append: "hex_byte a @ xs = hex_byte b @ ys \<longleftrightarrow> a = b \<and> xs = ys"
  using hex_byte_inj by (auto simp: append_eq_append_conv)

lemma uuid_filename_inj:
  assumes "uuid_filename a = uuid_filename b" and "length a = 16" and "length b = 16"
  shows "a = b"
proof -
  have "\<forall>i \<in> set [0 ..< 16]. a ! i = b ! i"
    using assms(1) by (simp add: uuid_filename_def upt_conv_Cons hex_byte_append hex_byte_inj)
  then show ?thesis using assms(2,3) by (intro nth_equalityI) auto
qed

section \<open>Installing an image\<close>

text \<open>
  The files of the host. \<open>fs_opens\<close>: whether \<^verbatim>\<open>fopen\<close> or \<^verbatim>\<open>open\<close> can open a file of that name
  for writing. \<open>fs_room\<close>: how many bytes a write can still store.
\<close>

record file_system =
  fs_files :: "u8 list \<Rightarrow> u8 list option"
  fs_opens :: "u8 list \<Rightarrow> bool"
  fs_room :: nat

definition install_ta :: "file_system \<Rightarrow> u8 list \<Rightarrow> u8 list \<Rightarrow> bool \<times> file_system" where
  "install_ta fs filename content =
     (if \<not> fs_opens fs filename then (False, fs)
      else
        let fs = fs\<lparr>fs_files := (fs_files fs)(filename \<mapsto> [])\<rparr>;
            bytes = min (fs_room fs) (length content);
            fs = fs\<lparr>fs_files := (fs_files fs)(filename \<mapsto> take bytes content)\<rparr> in
        (if bytes < length content then False else True, fs))"

definition store_component :: "file_system \<Rightarrow> component_path \<Rightarrow> u8 list \<Rightarrow> bool \<times> file_system" where
  "store_component fs path content = install_ta fs (path_filename path) content"

lemma install_ta_True:
  assumes "install_ta fs filename content = (True, fs')"
  shows "fs_files fs' = (fs_files fs)(filename \<mapsto> content)"
  using assms by (auto simp: install_ta_def Let_def split: if_splits)

lemma install_ta_others:
  assumes "install_ta fs filename content = (ok, fs')" and "f \<noteq> filename"
  shows "fs_files fs' f = fs_files fs f"
  using assms by (auto simp: install_ta_def Let_def split: if_splits)

lemma install_ta_iff:
  "fst (install_ta fs filename content) \<longleftrightarrow> fs_opens fs filename \<and> length content \<le> fs_room fs"
  by (auto simp: install_ta_def Let_def)

end
