(* ===== verification/Agent_Callbacks.thy ===== *)
theory Agent_Callbacks
  imports Suit_Runner_Proofs Ta_Store
begin

text \<open>
  The functions of \<^verbatim>\<open>teep-agent-ta/teep-agent-ta.c\<close> the SUIT interpreter calls back: they find
  the file of a component, store an image that came with the envelope, and suspend the runner for
  one that has to be downloaded. The contract \<open>runner_client\<close> of the interpreter is discharged
  for them here, so that every run of the agent's interpreter ends.
\<close>

section \<open>The identifier of a component\<close>

text \<open>\<^verbatim>\<open>memcmp(a, b, n) == 0\<close>. The literals of the program are in memory at \<open>lit\<close>.\<close>

definition memcmp_equal :: "memory \<Rightarrow> ptr \<Rightarrow> ptr \<Rightarrow> u64 \<Rightarrow> bool" where
  "memcmp_equal m a b n = (peek m a (unat n) = peek m b (unat n))"

definition read_id_part ::
    "(string \<Rightarrow> ptr) \<Rightarrow> memory \<Rightarrow> tcbor_context \<Rightarrow> string \<Rightarrow> bool \<times> tcbor_context" where
  "read_id_part lit m array s =
     (case tcbor_read_bstr m array of
        (None, array) \<Rightarrow> (False, array)
      | (Some bstr, array) \<Rightarrow> (memcmp_equal m (rbegin bstr) (lit s) (rend bstr - rbegin bstr), array))"

text \<open>The fields of the destination are written as the parts of the identifier are accepted.\<close>

definition parse_component_id ::
    "(string \<Rightarrow> ptr) \<Rightarrow> memory \<Rightarrow> suit_component \<Rightarrow> component_path \<Rightarrow> bool \<times> component_path" where
  "parse_component_id lit m component dst =
     (case tcbor_read_array m (tcbor_toplevel (id_cbor component)) of
        (None, ctx) \<Rightarrow> (False, dst)
      | (Some array, ctx) \<Rightarrow>
          case read_id_part lit m array ''TEEP-Device'' of
            (False, array) \<Rightarrow> (False, dst)
          | (True, array) \<Rightarrow>
              let dst = dst\<lparr>path_device := ''TEEP-Device''\<rparr> in
              case read_id_part lit m array ''SecureFS'' of
                (False, array) \<Rightarrow> (False, dst)
              | (True, array) \<Rightarrow>
                  let dst = dst\<lparr>path_storage := ''SecureFS''\<rparr> in
                  case tcbor_read_bstr m array of
                    (None, array) \<Rightarrow> (False, dst)
                  | (Some bstr, array) \<Rightarrow>
                      if rend bstr - rbegin bstr \<noteq> 16 then (False, dst)
                      else
                        let dst = dst\<lparr>path_uuid := peek m (rbegin bstr) 16\<rparr> in
                        case read_id_part lit m array ''ta'' of
                          (False, array) \<Rightarrow> (False, dst)
                        | (True, array) \<Rightarrow>
                            let dst = dst\<lparr>path_filename := uuid_filename (path_uuid dst)\<rparr> in
                            case tcbor_close ctx array of (ok, ctx) \<Rightarrow> (ok, dst))"

section \<open>The callbacks\<close>

text \<open>What the callbacks work on: two fields of the session, and the files of the host.\<close>

record agent_user =
  fetch_uri :: tcbor_range
  fetch_component_path :: component_path
  user_fs :: file_system

datatype resumption = Fetch_complete

type_synonym agent_runner = "(agent_user, resumption) suit_runner"

definition target_component :: "agent_runner \<Rightarrow> suit_object \<Rightarrow> suit_component" where
  "target_component runner target =
     components (man_common (manifests (run_context runner) ! obj_manifest target)) ! obj_index target"

text \<open>The local variable \<^verbatim>\<open>path\<close> starts uninitialised; its fields are all written before use.\<close>

definition no_path :: component_path where
  "no_path = \<lparr>path_device = [], path_storage = [], path_uuid = [], path_filename = []\<rparr>"

definition store ::
    "(string \<Rightarrow> ptr) \<Rightarrow> memory \<Rightarrow> agent_runner \<Rightarrow> suit_object \<Rightarrow> tcbor_range \<Rightarrow> bool \<times> agent_runner" where
  "store lit m runner target body =
     (if is_component target then
        case parse_component_id lit m (target_component runner target) no_path of
          (False, path) \<Rightarrow> (False, runner)
        | (True, path) \<Rightarrow>
            case store_component (user_fs (run_user runner)) path (bytes_of m body) of
              (ok, fs) \<Rightarrow> (True, runner\<lparr>run_user := (run_user runner)\<lparr>user_fs := fs\<rparr>\<rparr>)
      else (True, runner))"

definition fetch_complete :: "agent_runner \<Rightarrow> 'a \<Rightarrow> agent_runner" where
  "fetch_complete runner user = runner"

fun call_resumption :: "resumption \<Rightarrow> agent_runner \<Rightarrow> 'a \<Rightarrow> agent_runner" where
  "call_resumption Fetch_complete = fetch_complete"

definition fetch_and_store ::
    "(string \<Rightarrow> ptr) \<Rightarrow> memory \<Rightarrow> agent_runner \<Rightarrow> suit_object \<Rightarrow> tcbor_range \<Rightarrow> bool \<times> agent_runner" where
  "fetch_and_store lit m runner target uri =
     (if is_component target then
        case parse_component_id lit m (target_component runner target)
               (fetch_component_path (run_user runner)) of
          (ok, path) \<Rightarrow>
            let runner = runner\<lparr>run_user := (run_user runner)\<lparr>fetch_component_path := path\<rparr>\<rparr> in
            if \<not> ok then (False, runner)
            else
              let runner = runner\<lparr>run_user := (run_user runner)\<lparr>fetch_uri := uri\<rparr>\<rparr> in
              (True, suit_runner_suspend runner (Some Fetch_complete))
      else (False, runner))"

definition suit_callbacks :: "(string \<Rightarrow> ptr) \<Rightarrow> memory \<Rightarrow> (agent_user, resumption) suit_callbacks" where
  "suit_callbacks lit m = \<lparr>store_cb = store lit m, fetch_cb = fetch_and_store lit m\<rparr>"

lemma store_user_part: "store lit m r obj b = (ok, r') \<Longrightarrow> user_part r r'"
  by (auto simp: store_def user_part_def split: if_split_asm prod.split_asm bool.split_asm)

lemma fetch_user_part: "fetch_and_store lit m r obj b = (ok, r') \<Longrightarrow> user_part r r'"
  by (auto simp: fetch_and_store_def user_part_def suit_runner_suspend_def Let_def
      split: if_split_asm prod.split_asm)

interpretation agent: runner_client "suit_callbacks lit m" for lit m
  by (rule runner_client.intro) (auto simp: suit_callbacks_def intro: store_user_part fetch_user_part)

section \<open>Which identifiers are accepted\<close>

text \<open>The program image: the literals are in memory with their NUL.\<close>

definition literals_at :: "(string \<Rightarrow> ptr) \<Rightarrow> memory \<Rightarrow> bool" where
  "literals_at lit m \<longleftrightarrow>
     (\<forall>s \<in> {''TEEP-Device'', ''SecureFS'', ''ta''}. peek m (lit s) (length s + 1) = ascii s @ [0])"

lemma memcmp_literal:
  assumes "literals_at lit m" and "s \<in> {''TEEP-Device'', ''SecureFS'', ''ta''}"
    and "unat n \<le> length s + 1"
  shows "memcmp_equal m p (lit s) n \<longleftrightarrow> peek m p (unat n) = take (unat n) (ascii s @ [0])"
proof -
  have "take (unat n) (peek m (lit s) (length s + 1)) = peek m (lit s) (unat n)"
    using assms(3) by (rule take_peek)
  moreover have "peek m (lit s) (length s + 1) = ascii s @ [0]"
    using assms(1,2) unfolding literals_at_def by (rule bspec)
  ultimately show ?thesis unfolding memcmp_equal_def by simp
qed

lemma read_id_part_at:
  assumes at: "at m c (encode (CBstr bs) @ t)" and "literals_at lit m"
    and "s \<in> {''TEEP-Device'', ''SecureFS'', ''ta''}" and "length bs \<le> length s + 1"
  obtains c' where "read_id_part lit m c s = (bs = take (length bs) (ascii s @ [0]), c')"
    "bytes_of m (ctx_r c') = t" "ctx_index c' = ctx_index c + 1" "ctx_count c' = ctx_count c"
proof -
  obtain r c' where r: "tcbor_read_bstr m c = (Some r, c')" "bytes_of m r = bs"
    "bytes_of m (ctx_r c') = t" "ctx_index c' = ctx_index c + 1" "ctx_count c' = ctx_count c"
    by (rule read_bstr_at [OF at])
  have n: "unat (rend r - rbegin r) = length bs" using r(2) length_bytes_of [of m r] by (simp add: span_def)
  have "peek m (rbegin r) (length bs) = bs" using r(2) n by (simp add: bytes_of_def span_def)
  then have "memcmp_equal m (rbegin r) (lit s) (rend r - rbegin r) \<longleftrightarrow> bs = take (length bs) (ascii s @ [0])"
    using memcmp_literal [OF assms(2,3), of "rend r - rbegin r"] assms(4) n by simp
  then show thesis using that r by (simp add: read_id_part_def)
qed

text \<open>
  On a well-formed identifier of four byte strings the result is whether each text is a prefix
  of the expected literal and its NUL, the empty text included, and the UUID has sixteen bytes.
\<close>

definition id_prefix :: "u8 list \<Rightarrow> string \<Rightarrow> bool" where
  "id_prefix bs s = (bs = take (length bs) (ascii s @ [0]))"

definition id_accepted :: "u8 list \<Rightarrow> u8 list \<Rightarrow> u8 list \<Rightarrow> u8 list \<Rightarrow> bool" where
  "id_accepted device storage uuid name =
     (id_prefix device ''TEEP-Device'' \<and> id_prefix storage ''SecureFS'' \<and> length uuid = 16 \<and>
      id_prefix name ''ta'')"

definition uuid_path :: "u8 list \<Rightarrow> component_path" where
  "uuid_path uuid =
     \<lparr>path_device = ''TEEP-Device'', path_storage = ''SecureFS'', path_uuid = uuid,
      path_filename = uuid_filename uuid\<rparr>"

lemma parse_component_id_encoded:
  assumes bytes: "bytes_of m (id_cbor c) =
      encode (CArray [CBstr device, CBstr storage, CBstr uuid, CBstr name])"
    and lit: "literals_at lit m"
    and len: "length device \<le> 12" "length storage \<le> 9" "length name \<le> 3"
  obtains dst' where "parse_component_id lit m c dst = (id_accepted device storage uuid name, dst')"
    "id_accepted device storage uuid name \<Longrightarrow> dst' = uuid_path uuid"
proof -
  note result = that
  have at: "at m (tcbor_toplevel (id_cbor c))
      (encode (CArray [CBstr device, CBstr storage, CBstr uuid, CBstr name]) @ [])"
    using bytes by (simp add: at_def)
  obtain arr c1 where arr: "tcbor_read_array m (tcbor_toplevel (id_cbor c)) = (Some arr, c1)"
    "bytes_of m (ctx_r arr) = encode_all [CBstr device, CBstr storage, CBstr uuid, CBstr name] @ []"
    "ctx_index arr = 0" "ctx_count arr = of_nat (length [CBstr device, CBstr storage, CBstr uuid, CBstr name])"
    by (rule read_array_at [OF at])
  have l0: "left_in arr (Suc (Suc (Suc (Suc 0))))" using arr(3,4) by (simp add: left_in_def)
  have at0: "at m arr (encode (CBstr device) @ encode_all [CBstr storage, CBstr uuid, CBstr name])"
    using arr(2) left_in_Suc [OF l0] by (simp add: at_def encode_all_def)
  obtain a1 where r1: "read_id_part lit m arr ''TEEP-Device'' = (id_prefix device ''TEEP-Device'', a1)"
    "bytes_of m (ctx_r a1) = encode_all [CBstr storage, CBstr uuid, CBstr name]"
    "ctx_index a1 = ctx_index arr + 1" "ctx_count a1 = ctx_count arr"
    by (rule read_id_part_at [OF at0 lit, of "''TEEP-Device''"]) (use len in \<open>simp_all add: id_prefix_def\<close>)
  have l1: "left_in a1 (Suc (Suc (Suc 0)))" using left_in_next [OF l0 r1(3,4)] .
  have at1: "at m a1 (encode (CBstr storage) @ encode_all [CBstr uuid, CBstr name])"
    using r1(2) left_in_Suc [OF l1] by (simp add: at_def encode_all_def)
  obtain a2 where r2: "read_id_part lit m a1 ''SecureFS'' = (id_prefix storage ''SecureFS'', a2)"
    "bytes_of m (ctx_r a2) = encode_all [CBstr uuid, CBstr name]"
    "ctx_index a2 = ctx_index a1 + 1" "ctx_count a2 = ctx_count a1"
    by (rule read_id_part_at [OF at1 lit, of "''SecureFS''"]) (use len in \<open>simp_all add: id_prefix_def\<close>)
  have l2: "left_in a2 (Suc (Suc 0))" using left_in_next [OF l1 r2(3,4)] .
  have at2: "at m a2 (encode (CBstr uuid) @ encode_all [CBstr name])"
    using r2(2) left_in_Suc [OF l2] by (simp add: at_def encode_all_def)
  obtain u a3 where r3: "tcbor_read_bstr m a2 = (Some u, a3)" "bytes_of m u = uuid"
    "bytes_of m (ctx_r a3) = encode_all [CBstr name]"
    "ctx_index a3 = ctx_index a2 + 1" "ctx_count a3 = ctx_count a2"
    by (rule read_bstr_at [OF at2])
  have l3: "left_in a3 (Suc 0)" using left_in_next [OF l2 r3(4,5)] .
  have at3: "at m a3 (encode (CBstr name) @ [])"
    using r3(3) left_in_Suc [OF l3] by (simp add: at_def encode_all_def)
  obtain a4 where r4: "read_id_part lit m a3 ''ta'' = (id_prefix name ''ta'', a4)"
    "ctx_index a4 = ctx_index a3 + 1" "ctx_count a4 = ctx_count a3"
    by (rule read_id_part_at [OF at3 lit, of "''ta''"]) (use len in \<open>simp_all add: id_prefix_def\<close>)
  have "tcbor_is_end_of_context a4" using left_in_next [OF l3 r4(2,3)] by (simp add: left_in_0)
  then have cl: "tcbor_close c1 a4 = (True, c1\<lparr>ctx_r := ctx_r a4\<rparr>)" by (simp add: tcbor_close_def)
  have sp: "unat (rend u - rbegin u) = length uuid"
    using r3(2) length_bytes_of [of m u] by (simp add: span_def)
  then have n: "rend u - rbegin u = 16 \<longleftrightarrow> length uuid = 16" by (auto simp: word_unat_eq_iff)
  have b: "peek m (rbegin u) 16 = uuid" if "length uuid = 16"
    using r3(2) sp that by (simp add: bytes_of_def span_def del: peek.simps)
  show thesis
  proof (rule result)
    show "parse_component_id lit m c dst =
      (id_accepted device storage uuid name, snd (parse_component_id lit m c dst))"
      using arr(1) r1(1) r2(1) r3(1) r4(1) cl n
      by (cases "id_prefix device ''TEEP-Device''"; cases "id_prefix storage ''SecureFS''";
          cases "id_prefix name ''ta''"; cases "length uuid = 16")
        (simp_all add: parse_component_id_def id_accepted_def Let_def)
    show "snd (parse_component_id lit m c dst) = uuid_path uuid" if "id_accepted device storage uuid name"
      using arr(1) r1(1) r2(1) r3(1) r4(1) cl n b that
      by (simp add: parse_component_id_def id_accepted_def Let_def uuid_path_def del: peek.simps)
  qed
qed

end
