(* ===== verification/Suit_Auth.thy ===== *)
theory Suit_Auth
  imports Suit_Envelope
begin

text \<open>
  Authentication of an envelope (\<^verbatim>\<open>suit_authenticate_envelope\<close> and its helpers in
  \<^verbatim>\<open>lib/suit/lib/suit-parser.c\<close>). The cryptography is that of mbed TLS and t_cose, which the
  repository only calls: it is the parameter \<open>crypto\<close> of the definitions.
\<close>

unbundle bit_operations_syntax

text \<open>
  \<open>pk_parse\<close>: \<^verbatim>\<open>mbedtls_pk_parse_public_key\<close> on the text of a key. \<open>cose_verify\<close>: whether
  \<^verbatim>\<open>t_cose_sign1_verify_detached\<close> accepts a message and a detached payload (\<open>None\<close> is the null
  buffer). \<open>md_size\<close>: the size of a SHA-256 digest, \<open>None\<close> when the library has no SHA-256.
  \<open>md\<close>: the digest of the chunks passed to \<^verbatim>\<open>mbedtls_md_update\<close>, \<open>None\<close> when a call fails.
\<close>

record 'pk crypto =
  sign1_tag :: u64
  pk_parse :: "u8 list \<Rightarrow> 'pk option"
  cose_verify :: "'pk \<Rightarrow> u8 list option \<Rightarrow> u8 list option \<Rightarrow> bool"
  md_size :: "nat option"
  md :: "u8 list list \<Rightarrow> u8 list option"

definition SUIT_DIGEST_ALG_SHA256 :: i32 where
  "SUIT_DIGEST_ALG_SHA256 = - 16"

section \<open>The wrapper as data\<close>

function wrapper_loop :: "memory \<Rightarrow> tcbor_context \<Rightarrow> bool \<times> tcbor_context" where
  "wrapper_loop m array =
     (if tcbor_is_end_of_context array then (True, array)
      else
        case tcbor_read_bstr m array of
          (None, array) \<Rightarrow> (False, array)
        | (Some auth_block, array) \<Rightarrow> wrapper_loop m array)"
  by pat_completeness auto
termination
  by (relation "measure (\<lambda>(m, array). span (ctx_r array))") (auto dest: bstr.shrinks [OF sym])

declare wrapper_loop.simps [simp del]

definition suit_parse_authentication_wrapper ::
    "memory \<Rightarrow> tcbor_range \<Rightarrow> suit_digest \<Rightarrow> bool \<times> suit_digest" where
  "suit_parse_authentication_wrapper m authentication_wrapper_bstr d =
     (case tcbor_read_array m (tcbor_toplevel authentication_wrapper_bstr) of
        (None, ctx) \<Rightarrow> (False, d)
      | (Some array, ctx) \<Rightarrow>
          case tcbor_read_bstr m array of
            (None, array) \<Rightarrow> (False, d)
          | (Some digest_bstr, array) \<Rightarrow>
              case read_digest m (tcbor_toplevel digest_bstr) d of
                (False, digest_ctx, d) \<Rightarrow> (False, d)
              | (True, digest_ctx, d) \<Rightarrow>
                  case wrapper_loop m array of
                    (False, array) \<Rightarrow> (False, d)
                  | (True, array) \<Rightarrow> case tcbor_close ctx array of (ok, ctx) \<Rightarrow> (ok, d))"

section \<open>One signature\<close>

definition read_tag :: "memory \<Rightarrow> tcbor_range \<Rightarrow> u64 option" where
  "read_tag m bstr = fst (tcbor_read_tag m (tcbor_toplevel bstr))"

definition to_UsefulBufC :: "memory \<Rightarrow> tcbor_range \<Rightarrow> u8 list option" where
  "to_UsefulBufC m r = (if tcbor_range_is_null r then None else Some (bytes_of m r))"

definition verify_auth_block ::
    "'pk crypto \<Rightarrow> memory \<Rightarrow> tcbor_range \<Rightarrow> tcbor_range \<Rightarrow> u8 list \<Rightarrow> bool" where
  "verify_auth_block cr m auth_block digest_bstr key_pem =
     (case read_tag m auth_block of
        None \<Rightarrow> False
      | Some tag \<Rightarrow>
          if tag = sign1_tag cr then
            case pk_parse cr key_pem of
              None \<Rightarrow> False
            | Some pk \<Rightarrow> cose_verify cr pk (to_UsefulBufC m auth_block) (to_UsefulBufC m digest_bstr)
          else False)"

section \<open>The digest of the manifest\<close>

text \<open>The bytes the code puts before the manifest, with the loop over the bytes of the length.\<close>

definition bstr_header :: "u64 \<Rightarrow> u8 list" where
  "bstr_header len =
     (if len < 24 then [0x40 OR ucast len]
      else
        let k = (if len < 0x100 then 0 else if len < 0x10000 then 1
                 else if len < 0x100000000 then 2 else 3 :: nat) in
        (0x40 OR (24 + of_nat k)) #
        map (\<lambda>i. ucast (drop_bit (i * 8) len AND 0xFF)) (rev [0 ..< 2 ^ k]))"

definition verify_digest :: "'pk crypto \<Rightarrow> memory \<Rightarrow> tcbor_range \<Rightarrow> tcbor_range \<Rightarrow> bool" where
  "verify_digest cr m digest_bstr manifest_bstr =
     (case read_digest m (tcbor_toplevel digest_bstr)
             \<lparr>algorithm_id = 0, digest_bytes = tcbor_range_null\<rparr> of
        (False, ctx, digest) \<Rightarrow> False
      | (True, ctx, digest) \<Rightarrow>
          if algorithm_id digest \<noteq> SUIT_DIGEST_ALG_SHA256 then False
          else
            case md_size cr of
              None \<Rightarrow> False
            | Some n \<Rightarrow>
                case md cr [bstr_header (rend manifest_bstr - rbegin manifest_bstr), bytes_of m manifest_bstr] of
                  None \<Rightarrow> False
                | Some manifest_digest \<Rightarrow>
                    \<not> tcbor_range_is_null (digest_bytes digest) \<and>
                    span (digest_bytes digest) = n \<and>
                    bytes_of m (digest_bytes digest) = take n manifest_digest)"

section \<open>The envelope\<close>

text \<open>The loop over the authentication blocks; the flag is \<^verbatim>\<open>authentecated\<close>.\<close>

function auth_loop ::
    "'pk crypto \<Rightarrow> memory \<Rightarrow> tcbor_range \<Rightarrow> u8 list \<Rightarrow> tcbor_context \<Rightarrow> bool \<Rightarrow>
     bool \<times> tcbor_context \<times> bool" where
  "auth_loop cr m digest_bstr key_pem array authenticated =
     (if tcbor_is_end_of_context array then (True, array, authenticated)
      else
        case tcbor_read_bstr m array of
          (None, array) \<Rightarrow> (False, array, authenticated)
        | (Some auth_block, array) \<Rightarrow>
            if \<not> verify_auth_block cr m auth_block digest_bstr key_pem then (False, array, authenticated)
            else auth_loop cr m digest_bstr key_pem array True)"
  by pat_completeness auto
termination
  by (relation "measure (\<lambda>(cr, m, d, k, array, a). span (ctx_r array))") (auto dest: bstr.shrinks [OF sym])

declare auth_loop.simps [simp del]

definition suit_authenticate_envelope :: "'pk crypto \<Rightarrow> memory \<Rightarrow> tcbor_range \<Rightarrow> u8 list \<Rightarrow> bool" where
  "suit_authenticate_envelope cr m envelope_bstr key_pem =
     (case suit_envelope_get_field_by_key m envelope_bstr SUIT_AUTHENTICATION_WRAPPER of
        None \<Rightarrow> False
      | Some authentication_wrapper_bstr \<Rightarrow>
          case tcbor_read_array m (tcbor_toplevel authentication_wrapper_bstr) of
            (None, ctx) \<Rightarrow> False
          | (Some array, ctx) \<Rightarrow>
              case tcbor_read_bstr m array of
                (None, array) \<Rightarrow> False
              | (Some digest_bstr, array) \<Rightarrow>
                  case auth_loop cr m digest_bstr key_pem array False of
                    (False, array, authenticated) \<Rightarrow> False
                  | (True, array, authenticated) \<Rightarrow>
                      case tcbor_close ctx array of
                        (False, ctx) \<Rightarrow> False
                      | (True, ctx) \<Rightarrow>
                          if \<not> authenticated then False
                          else
                            case suit_envelope_get_field_by_key m envelope_bstr SUIT_MANIFEST of
                              None \<Rightarrow> False
                            | Some manifest_bstr \<Rightarrow> verify_digest cr m digest_bstr manifest_bstr)"

section \<open>The header is the CBOR head of a byte string\<close>

lemma be_bytes_drop: "be_bytes k n = map (\<lambda>i. of_nat (n div 256 ^ i)) (rev [0 ..< k])"
proof (induction k arbitrary: n)
  case (Suc k)
  have "rev [0 ..< Suc k] = map Suc (rev [0 ..< k]) @ [0]"
    by (simp add: rev_map [symmetric] map_Suc_upt upt_conv_Cons)
  then show ?case by (simp add: Suc div_mult2_eq del: upt_Suc)
qed simp

lemma byte_of_word: "ucast (drop_bit (i * 8) len AND 0xFF) = (of_nat (unat len div 256 ^ i) :: u8)"
  for len :: u64
proof -
  have "(0xFF :: u64) = mask 8" by (simp add: mask_eq_exp_minus_1)
  then have "ucast (drop_bit (i * 8) len AND 0xFF) = (ucast (take_bit 8 (drop_bit (i * 8) len)) :: u8)"
    by (simp only: take_bit_eq_mask)
  also have "\<dots> = (ucast (drop_bit (i * 8) len) :: u8)"
    by (rule bit_word_eqI) (simp add: bit_simps)
  also have "\<dots> = of_nat (unat (drop_bit (i * 8) len))" by (simp only: of_nat_unat)
  also have "unat (drop_bit (i * 8) len) = unat len div 256 ^ i"
  proof -
    have "unat (drop_bit (i * 8) len) = drop_bit (i * 8) (take_bit 64 (unat len))"
      by (simp only: unsigned_drop_bit_eq) simp
    then have "unat (drop_bit (i * 8) len) = unat len div 2 ^ (i * 8)"
      using unat_ptr_less [of len] by (simp only: take_bit_nat_eq_self drop_bit_eq_div)
    moreover have "(2 :: nat) ^ (i * 8) = 256 ^ i" using power_mult [of "2 :: nat" 8 i] by (simp add: mult.commute)
    ultimately show ?thesis by simp
  qed
  finally show ?thesis .
qed

lemma or_disjoint: "(0x40 :: u8) OR w = 0x40 + w" if "unat w < 32" for w :: u8
proof (rule disjunctive_add [symmetric])
  have "unat (take_bit 5 w) = unat w" using that by (simp only: unsigned_take_bit_eq) (simp add: take_bit_nat_eq_self)
  then have "take_bit 5 w = w" by (simp only: word_unat_eq_iff)
  then have "\<not> bit w 6" using bit_take_bit_iff [of 5 w 6] by simp
  then show "\<not> bit (0x40 :: u8) n \<or> \<not> bit w n" for n
    using bit_exp_iff [of 6 n, where ?'a = u8] by (cases "n = 6") auto
qed

text \<open>So the digest is taken over the manifest wrapped as a byte string again.\<close>

lemma bstr_header_encode: "bstr_header len = encode_head 2 (unat len)"
proof -
  define n where "n = unat len"
  have cmp: "len < 24 \<longleftrightarrow> n < 24" "len < 0x100 \<longleftrightarrow> n < 2 ^ 8" "len < 0x10000 \<longleftrightarrow> n < 2 ^ 16"
    "len < 0x100000000 \<longleftrightarrow> n < 2 ^ 32"
    by (simp_all add: word_less_nat_alt n_def)
  have body: "map (\<lambda>i. ucast (drop_bit (i * 8) len AND 0xFF)) (rev [0 ..< k]) = be_bytes k n" for k
    by (simp only: be_bytes_drop byte_of_word n_def)
  have small: "(0x40 OR ucast len :: u8) = of_nat (32 * 2 + n)" if "n < 24"
  proof -
    have u: "(ucast len :: u8) = of_nat n" by (simp only: n_def of_nat_unat)
    have "unat (of_nat n :: u8) < 32" using that by (simp add: unat_of_nat)
    then show ?thesis by (simp only: u or_disjoint) simp
  qed
  have tag: "(0x40 OR (24 + of_nat k) :: u8) = of_nat (32 * 2 + (24 + k))" if "k < 4" for k
  proof -
    have "unat (24 + of_nat k :: u8) < 32"
      using that by (simp add: unat_word_ariths unat_of_nat)
    then show ?thesis by (simp only: or_disjoint) simp
  qed
  show ?thesis
  proof (cases "n < 24")
    case True
    then show ?thesis
      unfolding bstr_header_def encode_head_def cmp n_def [symmetric] by (simp only: if_True small)
  next
    case False
    then show ?thesis
      unfolding bstr_header_def Let_def encode_head_def cmp n_def [symmetric] body if_not_P [OF False]
      by (simp only: tag split: if_split) simp
  qed
qed

lemma header_and_body: "bstr_header (rend r - rbegin r) @ bytes_of m r = encode (CBstr (bytes_of m r))"
  by (simp add: bstr_header_encode span_def)

section \<open>What an authenticated envelope guarantees\<close>

text \<open>The blocks the loop has gone through, as a relation on the array it reads.\<close>

inductive blocks_from :: "memory \<Rightarrow> tcbor_context \<Rightarrow> tcbor_range list \<Rightarrow> bool" for m where
  no_block: "tcbor_is_end_of_context array \<Longrightarrow> blocks_from m array []"
| one_block: "\<not> tcbor_is_end_of_context array \<Longrightarrow> tcbor_read_bstr m array = (Some b, array') \<Longrightarrow>
    blocks_from m array' bs \<Longrightarrow> blocks_from m array (b # bs)"

lemma auth_loop_blocks:
  "auth_loop cr m d k array a = (True, array', a') \<Longrightarrow>
     \<exists>bs. blocks_from m array bs \<and> (\<forall>b \<in> set bs. verify_auth_block cr m b d k) \<and> a' = (a \<or> bs \<noteq> [])"
proof (induction cr m d k array a rule: auth_loop.induct)
  case (1 cr m d k array a)
  show ?case
  proof (cases "tcbor_is_end_of_context array")
    case True
    then show ?thesis
      using "1.prems" by (auto simp: auth_loop.simps [of cr m d k array] intro: no_block intro!: exI [of _ "[]"])
  next
    case False
    with "1.prems" obtain b array1 where rd: "tcbor_read_bstr m array = (Some b, array1)"
      and ok: "verify_auth_block cr m b d k" and lp: "auth_loop cr m d k array1 True = (True, array', a')"
      by (auto simp: auth_loop.simps [of cr m d k array] split: prod.splits option.splits if_splits)
    from "1.IH" [OF False rd [symmetric] refl] ok lp obtain bs where
      "blocks_from m array1 bs" "\<forall>b \<in> set bs. verify_auth_block cr m b d k" "a'"
      by auto
    then show ?thesis using one_block [OF False rd] ok by (intro exI [of _ "b # bs"]) auto
  qed
qed

lemma blocks_inside: "blocks_from m array bs \<Longrightarrow> inside (ctx_r array) bnd \<Longrightarrow> \<forall>b \<in> set bs. inside b bnd"
proof (induction rule: blocks_from.induct)
  case (one_block array b array' bs)
  have "inside (ctx_r array') bnd"
    using inside_trans [OF advances_inside [OF bstr.advances [OF one_block.hyps(2)]] one_block.prems] .
  then show ?case using one_block.IH bstr.inside_input [OF one_block.hyps(2) one_block.prems] by simp
qed simp

lemma verify_digest_cases:
  assumes "verify_digest cr m d man"
  obtains c alg h n out where
    "read_digest m (tcbor_toplevel d) \<lparr>algorithm_id = 0, digest_bytes = tcbor_range_null\<rparr> =
       (True, c, \<lparr>algorithm_id = SUIT_DIGEST_ALG_SHA256, digest_bytes = h\<rparr>)"
    "md_size cr = Some n" "md cr [bstr_header (rend man - rbegin man), bytes_of m man] = Some out"
    "bytes_of m h = take n out"
proof -
  obtain b c dg where rd: "read_digest m (tcbor_toplevel d) \<lparr>algorithm_id = 0, digest_bytes = tcbor_range_null\<rparr> = (b, c, dg)"
    by (rule prod_cases3)
  then show thesis
    using assms by (cases dg) (auto simp: verify_digest_def intro: that split: if_splits option.splits bool.splits)
qed

lemma authenticate_cases:
  assumes "suit_authenticate_envelope cr m env pem"
  obtains w array ctx d array1 array2 man where
    "suit_envelope_get_field_by_key m env SUIT_AUTHENTICATION_WRAPPER = Some w"
    "tcbor_read_array m (tcbor_toplevel w) = (Some array, ctx)"
    "tcbor_read_bstr m array = (Some d, array1)"
    "auth_loop cr m d pem array1 False = (True, array2, True)"
    "suit_envelope_get_field_by_key m env SUIT_MANIFEST = Some man" "verify_digest cr m d man"
proof -
  note P = assms [unfolded suit_authenticate_envelope_def]
  from P obtain w where w: "suit_envelope_get_field_by_key m env SUIT_AUTHENTICATION_WRAPPER = Some w"
    by (cases "suit_envelope_get_field_by_key m env SUIT_AUTHENTICATION_WRAPPER") auto
  obtain x ctx where arr: "tcbor_read_array m (tcbor_toplevel w) = (x, ctx)" by fastforce
  with P w obtain array where x: "x = Some array" by (cases x) auto
  obtain y array1 where d: "tcbor_read_bstr m array = (y, array1)" by fastforce
  with P w arr x obtain dg where y: "y = Some dg" by (cases y) auto
  obtain ok array2 a where lp: "auth_loop cr m dg pem array1 False = (ok, array2, a)" by (rule prod_cases3)
  with P w arr x d y have ok: "ok" by (cases ok) auto
  obtain cl ctx' where cl: "tcbor_close ctx array2 = (cl, ctx')" by fastforce
  with P w arr x d y lp ok have c: "cl" by (cases cl) auto
  with P w arr x d y lp ok cl have a: "a" by (cases a) auto
  with P w arr x d y lp ok cl c obtain man where
    man: "suit_envelope_get_field_by_key m env SUIT_MANIFEST = Some man"
    by (cases "suit_envelope_get_field_by_key m env SUIT_MANIFEST") auto
  have "verify_digest cr m dg man" using P w arr x d y lp ok cl c a man by simp
  with that [OF w arr [unfolded x] d [unfolded y] _ man] lp ok a show thesis by simp
qed

lemma authenticated_envelope:
  assumes a: "suit_authenticate_envelope cr m env pem" and env: "addressable env"
  shows "\<exists>pk d blks man n out.
      pk_parse cr pem = Some pk \<and> blks \<noteq> [] \<and> inside d env \<and>
      (\<forall>b \<in> set blks. inside b env \<and> read_tag m b = Some (sign1_tag cr) \<and>
         cose_verify cr pk (Some (bytes_of m b)) (Some (bytes_of m d))) \<and>
      suit_envelope_get_field_by_key m env SUIT_MANIFEST = Some man \<and> md_size cr = Some n \<and>
      (\<exists>hdr. md cr [hdr, bytes_of m man] = Some out \<and> hdr @ bytes_of m man = encode (CBstr (bytes_of m man))) \<and>
      (\<exists>c h. read_digest m (tcbor_toplevel d) \<lparr>algorithm_id = 0, digest_bytes = tcbor_range_null\<rparr> =
        (True, c, \<lparr>algorithm_id = SUIT_DIGEST_ALG_SHA256, digest_bytes = h\<rparr>) \<and> bytes_of m h = take n out)"
proof -
  from a obtain w array ctx d array1 array2 man where
    w: "suit_envelope_get_field_by_key m env SUIT_AUTHENTICATION_WRAPPER = Some w"
    and array: "tcbor_read_array m (tcbor_toplevel w) = (Some array, ctx)"
    and d: "tcbor_read_bstr m array = (Some d, array1)"
    and lp: "auth_loop cr m d pem array1 False = (True, array2, True)"
    and man: "suit_envelope_get_field_by_key m env SUIT_MANIFEST = Some man"
    and dg: "verify_digest cr m d man"
    by (rule authenticate_cases)
  have "span w \<noteq> 0" using array.shrinks [OF array] by simp
  then have "w \<noteq> tcbor_range_null" by (auto simp: span_def tcbor_range_null_def)
  then have w_in: "inside w env"
    using get_field_inside [OF w [unfolded suit_envelope_get_field_by_key_def]] by (simp add: null_or_inside_def)
  have a_in: "inside (ctx_r array) env"
    using inside_trans [OF advances_inside [OF array.child_advances [OF array]]] w_in by simp
  have d_in: "inside d env" using bstr.inside_input [OF d a_in] .
  have a1_in: "inside (ctx_r array1) env"
    using inside_trans [OF advances_inside [OF bstr.advances [OF d]] a_in] .
  from auth_loop_blocks [OF lp] obtain blks where blks: "blocks_from m array1 blks" "blks \<noteq> []"
    and ok: "\<forall>b \<in> set blks. verify_auth_block cr m b d pem" by auto
  have b_in: "\<forall>b \<in> set blks. inside b env" using blocks_inside [OF blks(1) a1_in] .
  have nn: "inside r env \<Longrightarrow> to_UsefulBufC m r = Some (bytes_of m r)" for r
    using inside_not_null [OF _ env] by (simp add: to_UsefulBufC_def)
  obtain b0 where "b0 \<in> set blks" using blks(2) by (cases blks) auto
  then obtain pk where pk: "pk_parse cr pem = Some pk"
    using ok by (fastforce simp: verify_auth_block_def split: option.splits if_splits)
  have sig: "\<forall>b \<in> set blks. inside b env \<and> read_tag m b = Some (sign1_tag cr) \<and>
         cose_verify cr pk (Some (bytes_of m b)) (Some (bytes_of m d))"
    using ok b_in nn d_in pk by (fastforce simp: verify_auth_block_def split: option.splits if_splits)
  from dg obtain c alg h n out where
    "read_digest m (tcbor_toplevel d) \<lparr>algorithm_id = 0, digest_bytes = tcbor_range_null\<rparr> =
       (True, c, \<lparr>algorithm_id = SUIT_DIGEST_ALG_SHA256, digest_bytes = h\<rparr>)"
    "md_size cr = Some n" "md cr [bstr_header (rend man - rbegin man), bytes_of m man] = Some out"
    "bytes_of m h = take n out"
    by (rule verify_digest_cases)
  with pk blks(2) d_in sig man header_and_body [of man m] show ?thesis by blast
qed

section \<open>Authentication of an encoded envelope\<close>

text \<open>The reference, over byte lists: one signature block, and the digest of the manifest.\<close>

definition tag_of :: "u8 list \<Rightarrow> nat option" where
  "tag_of bs = (case spec_read bs of Inr (Num h n, t) \<Rightarrow> if unat h div 32 = 6 then Some n else None | _ \<Rightarrow> None)"

definition block_valid :: "'pk crypto \<Rightarrow> u8 list \<Rightarrow> u8 list \<Rightarrow> u8 list \<Rightarrow> bool" where
  "block_valid cr pem dig blk =
     (tag_of blk = Some (unat (sign1_tag cr)) \<and>
      (case pk_parse cr pem of None \<Rightarrow> False | Some pk \<Rightarrow> cose_verify cr pk (Some blk) (Some dig)))"

definition digest_valid :: "'pk crypto \<Rightarrow> u8 list \<Rightarrow> u8 list \<Rightarrow> bool" where
  "digest_valid cr h man =
     (case md_size cr of None \<Rightarrow> False
      | Some n \<Rightarrow>
          case md cr [encode_head 2 (length man), man] of None \<Rightarrow> False
          | Some out \<Rightarrow> length h = n \<and> h = take n out)"

lemma read_tag_spec: "map_option unat (read_tag m r) = tag_of (bytes_of m r)"
proof (cases "tcbor_primitive_read_any m r")
  case (Pair x e)
  note P = this
  have ne: "\<not> tcbor_is_end_of_context (tcbor_toplevel r)" by (simp add: tcbor_is_end_of_context_def)
  have sp: "spec_read (bytes_of m r) = abs_read m (x, e)" using read_any_refines [of m r] P by simp
  show ?thesis
  proof (cases x)
    case None
    then show ?thesis
      using P sp ne
      by (simp add: read_tag_def tcbor_read_tag_def read_matching_def tcbor_read_any_def tag_of_def)
  next
    case (Some ar)
    obtain a r' where ar: "ar = (a, r')" by (cases ar)
    have "fst (tcbor_read_tag m (tcbor_toplevel r)) = (if tcbor_is_tag a then Some (any_value a) else None)"
      using P Some ar ne by (simp add: tcbor_read_tag_def read_matching_def tcbor_read_any_def)
    moreover have "tcbor_is_tag a \<longleftrightarrow> unat (header a) div 32 = 6"
      by (simp add: tcbor_is_tag_def major_def high_bits_eq)
    moreover have "tcbor_is_bstr a \<or> tcbor_is_tstr a \<Longrightarrow> unat (header a) div 32 \<noteq> 6"
      by (auto simp: tcbor_is_bstr_def tcbor_is_tstr_def major_def high_bits_eq)
    ultimately show ?thesis
      using sp Some ar by (auto simp: read_tag_def tag_of_def abs_any_def)
  qed
qed

lemma verify_block_valid:
  assumes "inside b env" "inside d env" "addressable env"
  shows "verify_auth_block cr m b d pem = block_valid cr pem (bytes_of m d) (bytes_of m b)"
proof -
  have "to_UsefulBufC m r = Some (bytes_of m r)" if "inside r env" for r
    using inside_not_null [OF that assms(3)] by (simp add: to_UsefulBufC_def)
  moreover have "tag_of (bytes_of m b) = map_option unat (read_tag m b)" by (simp add: read_tag_spec)
  ultimately show ?thesis
    using assms(1,2)
    by (auto simp: verify_auth_block_def block_valid_def word_unat_eq_iff split: option.splits)
qed

lemma auth_loop_end: "auth_loop cr m d k array a = (True, array', a') \<Longrightarrow> tcbor_is_end_of_context array'"
proof (induction cr m d k array a rule: auth_loop.induct)
  case (1 cr m d k array a)
  then show ?case
    by (cases "tcbor_is_end_of_context array")
      (auto simp: auth_loop.simps [of cr m d k array] split: prod.splits option.splits if_splits)
qed

lemma auth_loop_encoded:
  assumes env: "addressable env" and d: "inside d env"
  shows "bytes_of m (ctx_r array) = encode_all (map CBstr blks) @ rest \<Longrightarrow> left_in array (length blks) \<Longrightarrow>
     inside (ctx_r array) env \<Longrightarrow>
     (case auth_loop cr m d pem array a of (ok, array', a') \<Rightarrow>
        ok = (\<forall>b \<in> set blks. block_valid cr pem (bytes_of m d) b) \<and> (ok \<longrightarrow> a' = (a \<or> blks \<noteq> [])))"
proof (induction blks arbitrary: array a)
  case Nil
  then have "tcbor_is_end_of_context array" by (simp add: left_in_0)
  then show ?case by (simp add: auth_loop.simps)
next
  case (Cons b blks)
  have at: "at m array (encode (CBstr b) @ (encode_all (map CBstr blks) @ rest))"
    and l: "left_in array (Suc (length blks))"
    using Cons.prems(1,2) left_in_Suc by (auto simp: at_def encode_all_def)
  have ne: "\<not> tcbor_is_end_of_context array" using at by (simp add: at_def tcbor_is_end_of_context_def)
  obtain r array1 where rd: "tcbor_read_bstr m array = (Some r, array1)" "bytes_of m r = b"
    "bytes_of m (ctx_r array1) = encode_all (map CBstr blks) @ rest"
    "ctx_index array1 = ctx_index array + 1" "ctx_count array1 = ctx_count array"
    by (rule read_bstr_at [OF at])
  have "inside r env" using bstr.inside_input [OF rd(1) Cons.prems(3)] .
  then have v: "verify_auth_block cr m r d pem = block_valid cr pem (bytes_of m d) b"
    by (simp add: verify_block_valid [OF _ d env] rd(2))
  have "inside (ctx_r array1) env"
    using inside_trans [OF advances_inside [OF bstr.advances [OF rd(1)]] Cons.prems(3)] .
  from Cons.IH [OF rd(3) left_in_next [OF l rd(4,5)] this, of True] show ?case
    using ne rd(1) v by (simp add: auth_loop.simps [of cr m d pem array] split: prod.splits)
qed

lemma verify_digest_encoded:
  assumes bytes: "bytes_of m d = encode (CArray [CNint 15, CBstr h]) @ rest"
    and d: "inside d env" and env: "addressable env"
  shows "verify_digest cr m d man = digest_valid cr h (bytes_of m man)"
proof -
  have at: "at m (tcbor_toplevel d) (encode (CArray [CNint 15, CBstr h]) @ rest)"
    using bytes by (simp add: at_def)
  obtain arr c1 where arr: "tcbor_read_array m (tcbor_toplevel d) = (Some arr, c1)"
    "bytes_of m (ctx_r arr) = encode_all [CNint 15, CBstr h] @ rest" "ctx_index arr = 0"
    "ctx_count arr = of_nat (length [CNint 15, CBstr h])"
    by (rule read_array_at [OF at])
  have l0: "left_in arr (Suc (Suc 0))" using arr(3,4) by (simp add: left_in_def)
  have at0: "at m arr (encode (CNint 15) @ (encode (CBstr h) @ rest))"
    using arr(2) left_in_Suc [OF l0] by (simp add: at_def encode_all_def)
  obtain alg a1 where alg: "tcbor_read_int m arr = (Some alg, a1)" "sint alg = - 1 - int 15"
    "bytes_of m (ctx_r a1) = encode (CBstr h) @ rest" "ctx_index a1 = ctx_index arr + 1"
    "ctx_count a1 = ctx_count arr"
    by (rule read_int_nint_at [OF at0]) simp
  have l1: "left_in a1 (Suc 0)" using left_in_next [OF l0 alg(4,5)] .
  have at1: "at m a1 (encode (CBstr h) @ rest)" using alg(3) left_in_Suc [OF l1] by (simp add: at_def)
  obtain hr a2 where h: "tcbor_read_bstr m a1 = (Some hr, a2)" "bytes_of m hr = h"
    "ctx_index a2 = ctx_index a1 + 1" "ctx_count a2 = ctx_count a1"
    by (rule read_bstr_at [OF at1])
  have e2: "tcbor_is_end_of_context a2" using left_in_next [OF l1 h(3,4)] by (simp add: left_in_0)
  then have sk: "tcbor_skip_all m a2 = (True, a2)"
    by (simp add: tcbor_skip_all_def tcbor_skip_def tcbor_primitive_skip.simps tcbor_is_end_of_context_def)
  have "sint alg = sint SUIT_DIGEST_ALG_SHA256" by (simp add: alg(2) SUIT_DIGEST_ALG_SHA256_def)
  then have "alg = SUIT_DIGEST_ALG_SHA256" by (rule signed_word_eqI)
  then obtain c where rd: "read_digest m (tcbor_toplevel d) \<lparr>algorithm_id = 0, digest_bytes = tcbor_range_null\<rparr> =
      (True, c, \<lparr>algorithm_id = SUIT_DIGEST_ALG_SHA256, digest_bytes = hr\<rparr>)"
    using arr(1) alg(1) h(1) sk e2 by (simp add: read_digest_def tcbor_close_def)
  have "inside (ctx_r arr) d" using advances_inside [OF array.child_advances [OF arr(1)]] by simp
  then have "inside hr env"
    using inside_trans [OF bstr.inside [OF h(1)] inside_trans [OF advances_inside [OF int.advances [OF alg(1)]] inside_trans [OF _ d]]]
    by simp
  then have nn: "\<not> tcbor_range_is_null hr" using inside_not_null env by blast
  have sp: "span hr = length h" using h(2) length_bytes_of [of m hr] by simp
  have hd: "bstr_header (rend man - rbegin man) = encode_head 2 (length (bytes_of m man))"
    by (simp add: bstr_header_encode span_def)
  show ?thesis
    by (simp add: rd nn sp h(2) verify_digest_def digest_valid_def hd split: option.split)
qed

lemma field_found:
  assumes "bytes_of m env = encode (CTag 107 (CMap ps)) @ rest"
    and "\<forall>(k, v) \<in> set ps. envelope_key k \<and> wf_cbor v" and "addressable env"
    and "key \<in> {SUIT_AUTHENTICATION_WRAPPER, SUIT_MANIFEST}"
    and "find_field (\<lambda>k. k = CUint (unat key)) ps None = Some (Some bs)"
  shows "\<exists>w. suit_envelope_get_field_by_key m env key = Some w \<and> inside w env \<and> bytes_of m w = bs"
proof -
  have "map_option (abs_field m) (suit_envelope_get_field_by_key m env key) = Some (Some bs)"
    unfolding suit_envelope_get_field_by_key_def
    using get_field_encoded [OF assms(1-3), of False tcbor_range_null key] assms(4,5)
    by (auto simp: key_hit_def [abs_def])
  then obtain w where w: "suit_envelope_get_field_by_key m env key = Some w" "abs_field m w = Some bs"
    by auto
  then have "w \<noteq> tcbor_range_null" by auto
  then have "inside w env"
    using get_field_inside [OF w(1) [unfolded suit_envelope_get_field_by_key_def]] by (simp add: null_or_inside_def)
  with w show ?thesis by (auto simp: abs_field_def split: if_splits)
qed

lemma authenticate_encoded:
  assumes bytes: "bytes_of m env = encode (CTag 107 (CMap ps)) @ rest"
    and keys: "\<forall>(k, v) \<in> set ps. envelope_key k \<and> wf_cbor v" and env: "addressable env"
    and wrap: "find_field (\<lambda>k. k = CUint 2) ps None =
      Some (Some (encode (CArray (CBstr (encode (CArray [CNint 15, CBstr h])) # map CBstr blks))))"
    and man: "find_field (\<lambda>k. k = CUint 3) ps None = Some (Some man)"
  shows "suit_authenticate_envelope cr m env pem =
    (blks \<noteq> [] \<and> (\<forall>b \<in> set blks. block_valid cr pem (encode (CArray [CNint 15, CBstr h])) b) \<and>
     digest_valid cr h man)"
proof -
  let ?dig = "encode (CArray [CNint 15, CBstr h])"
  obtain w where w: "suit_envelope_get_field_by_key m env SUIT_AUTHENTICATION_WRAPPER = Some w"
    "inside w env" "bytes_of m w = encode (CArray (CBstr ?dig # map CBstr blks))"
    using field_found [OF bytes keys env, of SUIT_AUTHENTICATION_WRAPPER] wrap by auto
  obtain mr where mr: "suit_envelope_get_field_by_key m env SUIT_MANIFEST = Some mr" "bytes_of m mr = man"
    using field_found [OF bytes keys env, of SUIT_MANIFEST] man by auto
  have at: "at m (tcbor_toplevel w) (encode (CArray (CBstr ?dig # map CBstr blks)) @ [])"
    using w(3) by (simp add: at_def)
  obtain arr ctx where arr: "tcbor_read_array m (tcbor_toplevel w) = (Some arr, ctx)"
    "bytes_of m (ctx_r arr) = encode_all (CBstr ?dig # map CBstr blks) @ []" "ctx_index arr = 0"
    "ctx_count arr = of_nat (length (CBstr ?dig # map CBstr blks))"
    "length (CBstr ?dig # map CBstr blks) < 2 ^ 64"
    by (rule read_array_at [OF at])
  have l: "left_in arr (Suc (length blks))"
    using left_in_open [OF arr(3-5)] by simp
  have at1: "at m arr (encode (CBstr ?dig) @ (encode_all (map CBstr blks) @ []))"
    using arr(2) left_in_Suc [OF l] by (simp add: at_def encode_all_def del: encode.simps)
  obtain d a1 where d: "tcbor_read_bstr m arr = (Some d, a1)" "bytes_of m d = ?dig"
    "bytes_of m (ctx_r a1) = encode_all (map CBstr blks) @ []" "ctx_index a1 = ctx_index arr + 1"
    "ctx_count a1 = ctx_count arr"
    by (rule read_bstr_at [OF at1])
  have a_in: "inside (ctx_r arr) env"
    using inside_trans [OF advances_inside [OF array.child_advances [OF arr(1)]]] w(2) by simp
  have d_in: "inside d env" using bstr.inside_input [OF d(1) a_in] .
  have a1_in: "inside (ctx_r a1) env"
    using inside_trans [OF advances_inside [OF bstr.advances [OF d(1)]] a_in] .
  obtain ok a2 a where lp: "auth_loop cr m d pem a1 False = (ok, a2, a)" by (rule prod_cases3)
  have res: "ok = (\<forall>b \<in> set blks. block_valid cr pem ?dig b)" "ok \<longrightarrow> a = (blks \<noteq> [])"
    using auth_loop_encoded [OF env d_in d(3) left_in_next [OF l d(4,5)] a1_in, of cr pem False] lp d(2)
    by auto
  have dg: "verify_digest cr m d mr = digest_valid cr h man"
    unfolding mr(2) [symmetric]
    by (rule verify_digest_encoded [where rest = "[]", OF _ d_in env]) (simp only: d(2) append_Nil2)
  show ?thesis
  proof (cases ok)
    case True
    then have "tcbor_close ctx a2 = (True, ctx\<lparr>ctx_r := ctx_r a2\<rparr>)"
      using auth_loop_end lp by (simp add: tcbor_close_def)
    then show ?thesis
      using True w(1) arr(1) d(1) lp mr(1) res dg by (simp add: suit_authenticate_envelope_def)
  next
    case False
    then have "auth_loop cr m d pem a1 False = (False, a2, a)" using lp by simp
    then have "\<not> suit_authenticate_envelope cr m env pem"
      using w(1) arr(1) d(1) by (simp add: suit_authenticate_envelope_def)
    then show ?thesis using False res(1) by blast
  qed
qed

end
