(* ===== verification/Libteep.thy ===== *)
theory Libteep
  imports Prelude
begin

text \<open>
  The TEEP messages of \<^verbatim>\<open>lib/teep/libteep.c\<close>, with the additions to QCBOR of
  \<^verbatim>\<open>qcbor-ext.c\<close>: the parser of the five message types and the encoder. The QCBOR library is not
  in the repository, so that a decoder is the parameter \<open>'d qcbor\<close>, and the encoder is the
  sequence of the calls the code makes. A parser returns \<open>None\<close> where the code returns 0; what it
  has written by then is discarded by its callers.
\<close>

section \<open>What is used of QCBOR\<close>

record ubuf =
  ub_ptr :: ptr
  ub_len :: u64

definition NULLUsefulBufC :: ubuf where
  "NULLUsefulBufC = \<lparr>ub_ptr = 0, ub_len = 0\<rparr>"

definition UsefulBuf_IsNULLC :: "ubuf \<Rightarrow> bool" where
  "UsefulBuf_IsNULLC b = (ub_ptr b = 0)"

datatype qcbor_data =
    QCBOR_NONE
  | QCBOR_INT64 i64
  | QCBOR_UINT64 u64
  | QCBOR_ARRAY "16 word"
  | QCBOR_MAP "16 word"
  | QCBOR_BYTE_STRING ubuf
  | QCBOR_TEXT_STRING ubuf
  | QCBOR_OTHER

datatype qcbor_label = No_label | Label_int64 i64 | Label_other

record qcbor_item =
  item_data :: qcbor_data
  item_label :: qcbor_label
  item_nest :: u8
  item_next_nest :: u8

text \<open>
  \<open>q_next\<close> is \<^verbatim>\<open>QCBORDecode_GetNext\<close>: whether it succeeds, the item it fills in, and the decoder
  behind it. \<open>q_tell\<close> and \<open>q_input\<close> read the position and the input of the decoder. \<open>q_u32\<close> is
  \<^verbatim>\<open>QCBOR_Int64ToUInt32\<close>, and \<open>q_malloc\<close> says whether a block of that size can be had.
\<close>

record 'd qcbor =
  q_init :: "ubuf \<Rightarrow> 'd"
  q_next :: "'d \<Rightarrow> bool \<times> qcbor_item \<times> 'd"
  q_finish :: "'d \<Rightarrow> bool"
  q_tell :: "'d \<Rightarrow> u64"
  q_input :: "'d \<Rightarrow> ubuf"
  q_head :: "ubuf \<Rightarrow> u64 \<Rightarrow> ubuf"
  q_tail :: "ubuf \<Rightarrow> u64 \<Rightarrow> ubuf"
  q_u32 :: "i64 \<Rightarrow> u32 option"
  q_malloc :: "nat \<Rightarrow> bool"

text \<open>The additions of \<^verbatim>\<open>qcbor-ext.c\<close>. An item with its offset is a pair.\<close>

type_synonym qcbor_item_with_offset = "u64 \<times> qcbor_item"

definition QCBORDecode_Tell :: "'d qcbor \<Rightarrow> 'd \<Rightarrow> u64" where
  "QCBORDecode_Tell q dc = q_tell q dc"

definition QCBORDecode_GetNextWithOffset ::
    "'d qcbor \<Rightarrow> 'd \<Rightarrow> bool \<times> qcbor_item_with_offset \<times> 'd" where
  "QCBORDecode_GetNextWithOffset q dc =
     (let offset = QCBORDecode_Tell q dc in
      case q_next q dc of (ok, item, dc) \<Rightarrow> (ok, (offset, item), dc))"

definition QCBORDecode_Slice :: "'d qcbor \<Rightarrow> 'd \<Rightarrow> u64 \<Rightarrow> u64 \<Rightarrow> ubuf" where
  "QCBORDecode_Slice q dc b e = q_tail q (q_head q (q_input q dc) e) b"

text \<open>
  The loop that reads items until the nesting is back at a level; a failure ends it. The number
  bounds the items that are read: every item takes a byte of the input.
\<close>

fun until_level :: "'d qcbor \<Rightarrow> nat \<Rightarrow> u8 \<Rightarrow> u8 \<Rightarrow> 'd \<Rightarrow> bool \<times> 'd" where
  "until_level q fuel target level dc =
     (if level = target then (True, dc)
      else
        case fuel of
          0 \<Rightarrow> (False, dc)
        | Suc fuel \<Rightarrow>
            case q_next q dc of
              (ok, item, dc) \<Rightarrow>
                if \<not> ok then (False, dc) else until_level q fuel target (item_next_nest item) dc)"

declare until_level.simps [simp del]

definition left_over :: "'d qcbor \<Rightarrow> 'd \<Rightarrow> nat" where
  "left_over q dc = unat (ub_len (q_input q dc)) - unat (q_tell q dc)"

definition QCBORDecode_SubObjectFrom :: "'d qcbor \<Rightarrow> 'd \<Rightarrow> qcbor_item_with_offset \<Rightarrow> ubuf \<times> 'd" where
  "QCBORDecode_SubObjectFrom q dc first =
     (case first of (offset, item) \<Rightarrow>
        case until_level q (left_over q dc) (item_nest item) (item_next_nest item) dc of
          (False, dc) \<Rightarrow> (NULLUsefulBufC, dc)
        | (True, dc) \<Rightarrow> (QCBORDecode_Slice q dc offset (QCBORDecode_Tell q dc), dc))"

definition QCBORDecode_NextSubObject :: "'d qcbor \<Rightarrow> 'd \<Rightarrow> ubuf \<times> 'd" where
  "QCBORDecode_NextSubObject q dc =
     (case QCBORDecode_GetNextWithOffset q dc of
        (True, first, dc) \<Rightarrow> QCBORDecode_SubObjectFrom q dc first
      | (False, first, dc) \<Rightarrow> (NULLUsefulBufC, dc))"

section \<open>Messages\<close>

datatype teep_message_type =
    TEEP_QUERY_REQUEST
  | TEEP_QUERY_RESPONSE
  | TEEP_UPDATE
  | TEEP_SUCCESS
  | TEEP_ERROR

text \<open>The numbers of the types; four is none of them.\<close>

fun message_type_value :: "teep_message_type \<Rightarrow> i64" where
  "message_type_value TEEP_QUERY_REQUEST = 1"
| "message_type_value TEEP_QUERY_RESPONSE = 2"
| "message_type_value TEEP_UPDATE = 3"
| "message_type_value TEEP_SUCCESS = 5"
| "message_type_value TEEP_ERROR = 6"

definition message_type_of :: "i64 \<Rightarrow> teep_message_type option" where
  "message_type_of v =
     (if v = 1 then Some TEEP_QUERY_REQUEST else if v = 2 then Some TEEP_QUERY_RESPONSE
      else if v = 3 then Some TEEP_UPDATE else if v = 5 then Some TEEP_SUCCESS
      else if v = 6 then Some TEEP_ERROR else None)"

text \<open>The keys of the options.\<close>

abbreviation (input) TEEP_OPTION_SUPPORTED_CIPHER_SUITS :: i64 where "TEEP_OPTION_SUPPORTED_CIPHER_SUITS \<equiv> 1"
abbreviation (input) TEEP_OPTION_CHALLENGE :: i64 where "TEEP_OPTION_CHALLENGE \<equiv> 2"
abbreviation (input) TEEP_OPTION_VERSIONS :: i64 where "TEEP_OPTION_VERSIONS \<equiv> 3"
abbreviation (input) TEEP_OPTION_OCSP_DATA :: i64 where "TEEP_OPTION_OCSP_DATA \<equiv> 4"
abbreviation (input) TEEP_OPTION_SELECTED_CIPHER_SUIT :: i64 where "TEEP_OPTION_SELECTED_CIPHER_SUIT \<equiv> 5"
abbreviation (input) TEEP_OPTION_SELECTED_VERSION :: i64 where "TEEP_OPTION_SELECTED_VERSION \<equiv> 6"
abbreviation (input) TEEP_OPTION_EVIDENCE :: i64 where "TEEP_OPTION_EVIDENCE \<equiv> 7"
abbreviation (input) TEEP_OPTION_TC_LIST :: i64 where "TEEP_OPTION_TC_LIST \<equiv> 8"
abbreviation (input) TEEP_OPTION_EXT_LIST :: i64 where "TEEP_OPTION_EXT_LIST \<equiv> 9"
abbreviation (input) TEEP_OPTION_MANIFEST_LIST :: i64 where "TEEP_OPTION_MANIFEST_LIST \<equiv> 10"
abbreviation (input) TEEP_OPTION_MSG :: i64 where "TEEP_OPTION_MSG \<equiv> 11"
abbreviation (input) TEEP_OPTION_ERR_MSG :: i64 where "TEEP_OPTION_ERR_MSG \<equiv> 12"
abbreviation (input) TEEP_OPTION_EVIDENCE_FORMAT :: i64 where "TEEP_OPTION_EVIDENCE_FORMAT \<equiv> 13"
abbreviation (input) TEEP_OPTION_REQUESTED_TC_LIST :: i64 where "TEEP_OPTION_REQUESTED_TC_LIST \<equiv> 14"
abbreviation (input) TEEP_OPTION_UNNEEDED_TC_LIST :: i64 where "TEEP_OPTION_UNNEEDED_TC_LIST \<equiv> 15"
abbreviation (input) TEEP_OPTION_COMPONENT_ID :: i64 where "TEEP_OPTION_COMPONENT_ID \<equiv> 16"
abbreviation (input) TEEP_OPTION_TC_MANIFEST_SEQUENCE_NUMBER :: i64 where "TEEP_OPTION_TC_MANIFEST_SEQUENCE_NUMBER \<equiv> 17"
abbreviation (input) TEEP_OPTION_HAVE_BINARY :: i64 where "TEEP_OPTION_HAVE_BINARY \<equiv> 18"
abbreviation (input) TEEP_OPTION_SUIT_REPORTS :: i64 where "TEEP_OPTION_SUIT_REPORTS \<equiv> 19"
abbreviation (input) TEEP_OPTION_TOKEN :: i64 where "TEEP_OPTION_TOKEN \<equiv> 20"
abbreviation (input) TEEP_OPTION_SUPPORTED_FRESHNESS_MECHANISMS :: i64 where "TEEP_OPTION_SUPPORTED_FRESHNESS_MECHANISMS \<equiv> 21"

text \<open>Arrays and options of the structures: \<open>None\<close> when \<^verbatim>\<open>have_value\<close> is false.\<close>

type_synonym teep_uint32_array = "u32 list option"
type_synonym teep_uint32_option = "u32 option"
type_synonym teep_buffer_array = "ubuf list option"
type_synonym teep_component_id = ubuf
type_synonym teep_component_id_array = "teep_component_id list option"

record teep_tc_info =
  component_id :: teep_component_id
  tc_manifest_sequence_number :: teep_uint32_option
  have_binary :: teep_uint32_option

type_synonym teep_tc_info_array = "teep_tc_info list option"

record query_request =
  qr_supported_cipher_suits :: teep_uint32_array
  qr_supported_freshness_mechanisms :: teep_uint32_array
  qr_challenge :: ubuf
  qr_versions :: teep_uint32_array
  qr_ocsp_data :: ubuf
  data_item_requested :: u64

record query_response =
  selected_cipher_suit :: teep_uint32_option
  selected_version :: teep_uint32_option
  evidence_format :: ubuf
  evidence :: ubuf
  tc_list :: teep_tc_info_array
  requested_tc_list :: teep_tc_info_array
  unneeded_tc_list :: teep_component_id_array
  ext_list :: teep_uint32_array

record teep_update =
  manifest_list :: teep_buffer_array

record teep_success =
  success_msg :: ubuf
  success_suit_reports :: teep_buffer_array

record teep_error_message =
  err_msg :: ubuf
  err_supported_cipher_suits :: teep_uint32_array
  err_supported_freshness_mechanisms :: teep_uint32_array
  err_versions :: teep_uint32_array
  err_suit_reports :: teep_buffer_array
  err_code :: i64

text \<open>The union of the five bodies, discriminated by the type.\<close>

datatype teep_body =
    Query_request query_request
  | Query_response query_response
  | Update teep_update
  | Success teep_success
  | Error teep_error_message

fun body_type :: "teep_body \<Rightarrow> teep_message_type" where
  "body_type (Query_request b) = TEEP_QUERY_REQUEST"
| "body_type (Query_response b) = TEEP_QUERY_RESPONSE"
| "body_type (Update b) = TEEP_UPDATE"
| "body_type (Success b) = TEEP_SUCCESS"
| "body_type (Error b) = TEEP_ERROR"

record teep_message =
  msg_token :: ubuf
  msg_body :: teep_body

text \<open>A message as \<^verbatim>\<open>memset\<close> leaves it.\<close>

fun zero_body :: "teep_message_type \<Rightarrow> teep_body" where
  "zero_body TEEP_QUERY_REQUEST =
     Query_request \<lparr>qr_supported_cipher_suits = None, qr_supported_freshness_mechanisms = None,
       qr_challenge = NULLUsefulBufC, qr_versions = None, qr_ocsp_data = NULLUsefulBufC, data_item_requested = 0\<rparr>"
| "zero_body TEEP_QUERY_RESPONSE =
     Query_response \<lparr>selected_cipher_suit = None, selected_version = None, evidence_format = NULLUsefulBufC,
       evidence = NULLUsefulBufC, tc_list = None, requested_tc_list = None, unneeded_tc_list = None, ext_list = None\<rparr>"
| "zero_body TEEP_UPDATE = Update \<lparr>manifest_list = None\<rparr>"
| "zero_body TEEP_SUCCESS = Success \<lparr>success_msg = NULLUsefulBufC, success_suit_reports = None\<rparr>"
| "zero_body TEEP_ERROR =
     Error \<lparr>err_msg = NULLUsefulBufC, err_supported_cipher_suits = None,
       err_supported_freshness_mechanisms = None, err_versions = None, err_suit_reports = None, err_code = 0\<rparr>"

section \<open>Pieces of a message\<close>

text \<open>The arrays; \<open>n\<close> elements are still to be read.\<close>

primrec read_uint32s :: "'d qcbor \<Rightarrow> nat \<Rightarrow> 'd \<Rightarrow> (u32 list \<times> 'd) option" where
  "read_uint32s q 0 dc = Some ([], dc)"
| "read_uint32s q (Suc n) dc =
     (case q_next q dc of (ok, item, dc) \<Rightarrow>
        case item_data item of
          QCBOR_INT64 v \<Rightarrow>
            (case q_u32 q v of
               None \<Rightarrow> None
             | Some w \<Rightarrow> map_option (\<lambda>(ws, dc). (w # ws, dc)) (read_uint32s q n dc))
        | _ \<Rightarrow> None)"

definition parse_uint32_array :: "'d qcbor \<Rightarrow> 'd \<Rightarrow> qcbor_item \<Rightarrow> (teep_uint32_array \<times> 'd) option" where
  "parse_uint32_array q dc option =
     (case item_data option of
        QCBOR_ARRAY n \<Rightarrow>
          if \<not> q_malloc q (unat n * 4) then None
          else map_option (\<lambda>(ws, dc). (Some ws, dc)) (read_uint32s q (unat n) dc)
      | _ \<Rightarrow> None)"

definition parse_uint32_option :: "'d qcbor \<Rightarrow> qcbor_item \<Rightarrow> teep_uint32_option option" where
  "parse_uint32_option q option =
     (case item_data option of
        QCBOR_INT64 v \<Rightarrow> (case q_u32 q v of None \<Rightarrow> None | Some w \<Rightarrow> Some (Some w))
      | _ \<Rightarrow> None)"

primrec read_buffers :: "'d qcbor \<Rightarrow> bool \<Rightarrow> nat \<Rightarrow> 'd \<Rightarrow> (ubuf list \<times> 'd) option" where
  "read_buffers q binary 0 dc = Some ([], dc)"
| "read_buffers q binary (Suc n) dc =
     (case q_next q dc of (ok, item, dc) \<Rightarrow>
        case item_data item of
          QCBOR_BYTE_STRING b \<Rightarrow>
            if binary then map_option (\<lambda>(bs, dc). (b # bs, dc)) (read_buffers q binary n dc) else None
        | QCBOR_TEXT_STRING b \<Rightarrow>
            if \<not> binary then map_option (\<lambda>(bs, dc). (b # bs, dc)) (read_buffers q binary n dc) else None
        | _ \<Rightarrow> None)"

definition parse_buffer_array :: "'d qcbor \<Rightarrow> 'd \<Rightarrow> qcbor_item \<Rightarrow> bool \<Rightarrow> (teep_buffer_array \<times> 'd) option" where
  "parse_buffer_array q dc option binary =
     (case item_data option of
        QCBOR_ARRAY n \<Rightarrow>
          if \<not> q_malloc q (unat n * 16) then None
          else map_option (\<lambda>(bs, dc). (Some bs, dc)) (read_buffers q binary (unat n) dc)
      | _ \<Rightarrow> None)"

primrec skip_strings :: "'d qcbor \<Rightarrow> nat \<Rightarrow> 'd \<Rightarrow> 'd option" where
  "skip_strings q 0 dc = Some dc"
| "skip_strings q (Suc n) dc =
     (case q_next q dc of (ok, item, dc) \<Rightarrow>
        case item_data item of
          QCBOR_BYTE_STRING b \<Rightarrow> skip_strings q n dc
        | QCBOR_TEXT_STRING b \<Rightarrow> skip_strings q n dc
        | _ \<Rightarrow> None)"

definition teep_parse_component_id ::
    "'d qcbor \<Rightarrow> 'd \<Rightarrow> qcbor_item_with_offset \<Rightarrow> (teep_component_id \<times> 'd) option" where
  "teep_parse_component_id q dc component =
     (case component of (offset, item) \<Rightarrow>
        case item_data item of
          QCBOR_ARRAY n \<Rightarrow>
            map_option (\<lambda>dc. (QCBORDecode_Slice q dc offset (QCBORDecode_Tell q dc), dc))
              (skip_strings q (unat n) dc)
        | _ \<Rightarrow> None)"

text \<open>
  One entry of the information on a component. The case of \<^verbatim>\<open>HAVE_BINARY\<close> has no \<^verbatim>\<open>break\<close> and
  runs into the default case, which refuses.
\<close>

definition tc_info_entry ::
    "'d qcbor \<Rightarrow> bool \<Rightarrow> 'd \<Rightarrow> qcbor_item_with_offset \<Rightarrow> teep_tc_info \<Rightarrow> (teep_tc_info \<times> 'd) option" where
  "tc_info_entry q requested dc entry info =
     (case entry of (offset, item) \<Rightarrow>
        case item_label item of
          Label_int64 label \<Rightarrow>
            if label = TEEP_OPTION_COMPONENT_ID then
              (case teep_parse_component_id q dc (offset, item) of
                 None \<Rightarrow> None
               | Some (b, dc) \<Rightarrow> Some (info\<lparr>component_id := b\<rparr>, dc))
            else if label = TEEP_OPTION_TC_MANIFEST_SEQUENCE_NUMBER then
              (case parse_uint32_option q item of
                 None \<Rightarrow> None
               | Some w \<Rightarrow> Some (info\<lparr>tc_manifest_sequence_number := w\<rparr>, dc))
            else if label = TEEP_OPTION_HAVE_BINARY then
              (if \<not> requested then None
               else
                 case parse_uint32_option q item of
                   None \<Rightarrow> None
                 | Some w \<Rightarrow> None)
            else None
        | _ \<Rightarrow> None)"

primrec tc_info_entries ::
    "'d qcbor \<Rightarrow> bool \<Rightarrow> nat \<Rightarrow> 'd \<Rightarrow> teep_tc_info \<Rightarrow> (teep_tc_info \<times> 'd) option" where
  "tc_info_entries q requested 0 dc info = Some (info, dc)"
| "tc_info_entries q requested (Suc n) dc info =
     (case QCBORDecode_GetNextWithOffset q dc of (ok, item, dc) \<Rightarrow>
        case tc_info_entry q requested dc item info of
          None \<Rightarrow> None
        | Some (info, dc) \<Rightarrow> tc_info_entries q requested n dc info)"

definition zero_tc_info :: teep_tc_info where
  "zero_tc_info =
     \<lparr>component_id = NULLUsefulBufC, tc_manifest_sequence_number = None, have_binary = None\<rparr>"

primrec read_tc_infos :: "'d qcbor \<Rightarrow> bool \<Rightarrow> nat \<Rightarrow> 'd \<Rightarrow> (teep_tc_info list \<times> 'd) option" where
  "read_tc_infos q requested 0 dc = Some ([], dc)"
| "read_tc_infos q requested (Suc n) dc =
     (case q_next q dc of (ok, item, dc) \<Rightarrow>
        case item_data item of
          QCBOR_MAP k \<Rightarrow>
            (case tc_info_entries q requested (unat k) dc zero_tc_info of
               None \<Rightarrow> None
             | Some (info, dc) \<Rightarrow>
                 map_option (\<lambda>(infos, dc). (info # infos, dc)) (read_tc_infos q requested n dc))
        | _ \<Rightarrow> None)"

text \<open>\<^verbatim>\<open>sizeof\<close> of a \<open>teep_tc_info\<close>, a buffer of two words and two options of eight bytes.\<close>

definition parse_tc_info_array ::
    "'d qcbor \<Rightarrow> 'd \<Rightarrow> qcbor_item \<Rightarrow> bool \<Rightarrow> (teep_tc_info_array \<times> 'd) option" where
  "parse_tc_info_array q dc option requested =
     (case item_data option of
        QCBOR_ARRAY n \<Rightarrow>
          if \<not> q_malloc q (unat n * 32) then None
          else map_option (\<lambda>(infos, dc). (Some infos, dc)) (read_tc_infos q requested (unat n) dc)
      | _ \<Rightarrow> None)"

primrec read_component_ids :: "'d qcbor \<Rightarrow> nat \<Rightarrow> 'd \<Rightarrow> (teep_component_id list \<times> 'd) option" where
  "read_component_ids q 0 dc = Some ([], dc)"
| "read_component_ids q (Suc n) dc =
     (case QCBORDecode_GetNextWithOffset q dc of (ok, item, dc) \<Rightarrow>
        case teep_parse_component_id q dc item of
          None \<Rightarrow> None
        | Some (b, dc) \<Rightarrow> map_option (\<lambda>(bs, dc). (b # bs, dc)) (read_component_ids q n dc))"

definition parse_component_id_array ::
    "'d qcbor \<Rightarrow> 'd \<Rightarrow> qcbor_item \<Rightarrow> (teep_component_id_array \<times> 'd) option" where
  "parse_component_id_array q dc option =
     (case item_data option of
        QCBOR_ARRAY n \<Rightarrow>
          if \<not> q_malloc q (unat n * 16) then None
          else map_option (\<lambda>(bs, dc). (Some bs, dc)) (read_component_ids q (unat n) dc)
      | _ \<Rightarrow> None)"

section \<open>One option\<close>

text \<open>
  The loop that skips an unknown option: it reads items until the next item is at the level of the
  map. An item of no type ends it. The number bounds the items that are read.
\<close>

fun skip_level :: "'d qcbor \<Rightarrow> nat \<Rightarrow> u8 \<Rightarrow> u8 \<Rightarrow> 'd \<Rightarrow> 'd option" where
  "skip_level q fuel target level dc =
     (if level = target then Some dc
      else
        case fuel of
          0 \<Rightarrow> None
        | Suc fuel \<Rightarrow>
            case q_next q dc of (ok, item, dc) \<Rightarrow>
              if item_data item = QCBOR_NONE then None
              else skip_level q fuel target (item_next_nest item) dc)"

declare skip_level.simps [simp del]

definition skip_option ::
    "'d qcbor \<Rightarrow> teep_message \<Rightarrow> 'd \<Rightarrow> qcbor_item \<Rightarrow> u8 \<Rightarrow> (teep_message \<times> 'd) option" where
  "skip_option q msg dc option nest_level =
     map_option (\<lambda>dc. (msg, dc)) (skip_level q (left_over q dc) nest_level (item_next_nest option) dc)"

text \<open>Storing the result of one of the array parsers in the body of the message.\<close>

definition put_body :: "teep_message \<Rightarrow> ('a \<Rightarrow> teep_body) \<Rightarrow> ('a \<times> 'd) option \<Rightarrow> (teep_message \<times> 'd) option" where
  "put_body msg put result = map_option (\<lambda>(a, dc). (msg\<lparr>msg_body := put a\<rparr>, dc)) result"

fun byte_string :: "qcbor_data \<Rightarrow> ubuf option" where
  "byte_string (QCBOR_BYTE_STRING b) = Some b"
| "byte_string _ = None"

fun text_string :: "qcbor_data \<Rightarrow> ubuf option" where
  "text_string (QCBOR_TEXT_STRING b) = Some b"
| "text_string _ = None"

text \<open>The values that need no further reading, beside the decoder.\<close>

definition beside :: "'d \<Rightarrow> 'a option \<Rightarrow> ('a \<times> 'd) option" where
  "beside dc result = map_option (\<lambda>a. (a, dc)) result"

text \<open>The cases from \<open>TEEP_OPTION_TC_LIST\<close> on, with the default case.\<close>

definition parse_option_from_tc_list ::
    "'d qcbor \<Rightarrow> teep_message \<Rightarrow> 'd \<Rightarrow> qcbor_item \<Rightarrow> u8 \<Rightarrow> i64 \<Rightarrow> (teep_message \<times> 'd) option" where
  "parse_option_from_tc_list q msg dc option nest_level label =
     (let skip = skip_option q msg dc option nest_level;
          bytes = beside dc (byte_string (item_data option));
          txt = beside dc (text_string (item_data option)) in
     if label = TEEP_OPTION_TC_LIST then
       (case msg_body msg of
          Query_response b \<Rightarrow>
            put_body msg (\<lambda>a. Query_response (b\<lparr>tc_list := a\<rparr>)) (parse_tc_info_array q dc option False)
        | _ \<Rightarrow> skip)
     else if label = TEEP_OPTION_REQUESTED_TC_LIST then
       (case msg_body msg of
          Query_response b \<Rightarrow>
            put_body msg (\<lambda>a. Query_response (b\<lparr>requested_tc_list := a\<rparr>))
              (parse_tc_info_array q dc option True)
        | _ \<Rightarrow> skip)
     else if label = TEEP_OPTION_UNNEEDED_TC_LIST then
       (case msg_body msg of
          Query_response b \<Rightarrow>
            put_body msg (\<lambda>a. Query_response (b\<lparr>unneeded_tc_list := a\<rparr>))
              (parse_component_id_array q dc option)
        | _ \<Rightarrow> skip)
     else if label = TEEP_OPTION_EXT_LIST then
       (case msg_body msg of
          Query_response b \<Rightarrow>
            put_body msg (\<lambda>a. Query_response (b\<lparr>ext_list := a\<rparr>)) (parse_uint32_array q dc option)
        | _ \<Rightarrow> skip)
     else if label = TEEP_OPTION_MANIFEST_LIST then
       (case msg_body msg of
          Update b \<Rightarrow>
            put_body msg (\<lambda>a. Update (b\<lparr>manifest_list := a\<rparr>)) (parse_buffer_array q dc option True)
        | _ \<Rightarrow> skip)
     else if label = TEEP_OPTION_MSG then
       (case msg_body msg of
          Success b \<Rightarrow> put_body msg (\<lambda>s. Success (b\<lparr>success_msg := s\<rparr>)) txt
        | _ \<Rightarrow> skip)
     else if label = TEEP_OPTION_ERR_MSG then
       (case msg_body msg of
          Error b \<Rightarrow> put_body msg (\<lambda>s. Error (b\<lparr>err_msg := s\<rparr>)) txt
        | _ \<Rightarrow> skip)
     else if label = TEEP_OPTION_SUIT_REPORTS then
       (case msg_body msg of
          Success b \<Rightarrow>
            put_body msg (\<lambda>a. Success (b\<lparr>success_suit_reports := a\<rparr>)) (parse_buffer_array q dc option True)
        | Error b \<Rightarrow>
            put_body msg (\<lambda>a. Error (b\<lparr>err_suit_reports := a\<rparr>)) (parse_buffer_array q dc option True)
        | _ \<Rightarrow> skip)
     else if label = TEEP_OPTION_TOKEN then
       map_option (\<lambda>(s, dc). (msg\<lparr>msg_token := s\<rparr>, dc)) bytes
     else if label = TEEP_OPTION_SUPPORTED_FRESHNESS_MECHANISMS then
       (case msg_body msg of
          Query_request b \<Rightarrow>
            put_body msg (\<lambda>a. Query_request (b\<lparr>qr_supported_freshness_mechanisms := a\<rparr>))
              (parse_uint32_array q dc option)
        | Error b \<Rightarrow>
            put_body msg (\<lambda>a. Error (b\<lparr>err_supported_freshness_mechanisms := a\<rparr>))
              (parse_uint32_array q dc option)
        | _ \<Rightarrow> skip)
     else skip)"

definition parse_option ::
    "'d qcbor \<Rightarrow> teep_message \<Rightarrow> 'd \<Rightarrow> qcbor_item \<Rightarrow> u8 \<Rightarrow> (teep_message \<times> 'd) option" where
  "parse_option q msg dc option nest_level =
     (case item_label option of
        Label_int64 label \<Rightarrow>
          let skip = skip_option q msg dc option nest_level;
              bytes = beside dc (byte_string (item_data option));
              txt = beside dc (text_string (item_data option)) in
          if label = TEEP_OPTION_SUPPORTED_CIPHER_SUITS then
            (case msg_body msg of
               Query_request b \<Rightarrow>
                 put_body msg (\<lambda>a. Query_request (b\<lparr>qr_supported_cipher_suits := a\<rparr>))
                   (parse_uint32_array q dc option)
             | Error b \<Rightarrow>
                 put_body msg (\<lambda>a. Error (b\<lparr>err_supported_cipher_suits := a\<rparr>))
                   (parse_uint32_array q dc option)
             | _ \<Rightarrow> skip)
          else if label = TEEP_OPTION_CHALLENGE \<or> label = TEEP_OPTION_OCSP_DATA then
            (case msg_body msg of
               Query_request b \<Rightarrow>
                 if label = TEEP_OPTION_CHALLENGE
                 then put_body msg (\<lambda>s. Query_request (b\<lparr>qr_challenge := s\<rparr>)) bytes
                 else put_body msg (\<lambda>s. Query_request (b\<lparr>qr_ocsp_data := s\<rparr>)) bytes
             | _ \<Rightarrow> skip)
          else if label = TEEP_OPTION_VERSIONS then
            (case msg_body msg of
               Query_request b \<Rightarrow>
                 put_body msg (\<lambda>a. Query_request (b\<lparr>qr_versions := a\<rparr>)) (parse_uint32_array q dc option)
             | Error b \<Rightarrow>
                 put_body msg (\<lambda>a. Error (b\<lparr>err_versions := a\<rparr>)) (parse_uint32_array q dc option)
             | _ \<Rightarrow> skip)
          else if label = TEEP_OPTION_SELECTED_CIPHER_SUIT then
            (case msg_body msg of
               Query_response b \<Rightarrow>
                 put_body msg (\<lambda>w. Query_response (b\<lparr>selected_cipher_suit := w\<rparr>))
                   (beside dc (parse_uint32_option q option))
             | _ \<Rightarrow> skip)
          else if label = TEEP_OPTION_SELECTED_VERSION then
            (case msg_body msg of
               Query_response b \<Rightarrow>
                 put_body msg (\<lambda>w. Query_response (b\<lparr>selected_version := w\<rparr>))
                   (beside dc (parse_uint32_option q option))
             | _ \<Rightarrow> skip)
          else if label = TEEP_OPTION_EVIDENCE_FORMAT then
            (case msg_body msg of
               Query_response b \<Rightarrow> put_body msg (\<lambda>s. Query_response (b\<lparr>evidence_format := s\<rparr>)) txt
             | _ \<Rightarrow> skip)
          else if label = TEEP_OPTION_EVIDENCE then
            (case msg_body msg of
               Query_response b \<Rightarrow> put_body msg (\<lambda>s. Query_response (b\<lparr>evidence := s\<rparr>)) bytes
             | _ \<Rightarrow> skip)
          else parse_option_from_tc_list q msg dc option nest_level label
      | _ \<Rightarrow> None)"

section \<open>A message\<close>

primrec options_loop :: "'d qcbor \<Rightarrow> u8 \<Rightarrow> nat \<Rightarrow> teep_message \<Rightarrow> 'd \<Rightarrow> (teep_message \<times> 'd) option" where
  "options_loop q nest_level 0 msg dc = Some (msg, dc)"
| "options_loop q nest_level (Suc n) msg dc =
     (case q_next q dc of (ok, option, dc) \<Rightarrow>
        case parse_option q msg dc option nest_level of
          None \<Rightarrow> None
        | Some (msg, dc) \<Rightarrow> options_loop q nest_level n msg dc)"

definition parse_options :: "'d qcbor \<Rightarrow> teep_message \<Rightarrow> 'd \<Rightarrow> (teep_message \<times> 'd) option" where
  "parse_options q msg dc =
     (case q_next q dc of (ok, options, dc) \<Rightarrow>
        case item_data options of
          QCBOR_MAP n \<Rightarrow> options_loop q (item_next_nest options) (unat n) msg dc
        | _ \<Rightarrow> None)"

text \<open>The element behind the options: the items requested, or the code of an error.\<close>

definition parse_trailer :: "'d qcbor \<Rightarrow> teep_message \<Rightarrow> 'd \<Rightarrow> (teep_message \<times> 'd) option" where
  "parse_trailer q msg dc =
     (case msg_body msg of
        Query_request b \<Rightarrow>
          (case q_next q dc of (ok, item, dc) \<Rightarrow>
             case item_data item of
               QCBOR_INT64 v \<Rightarrow> Some (msg\<lparr>msg_body := Query_request (b\<lparr>data_item_requested := v\<rparr>)\<rparr>, dc)
             | _ \<Rightarrow> None)
      | Error b \<Rightarrow>
          (case q_next q dc of (ok, item, dc) \<Rightarrow>
             case item_data item of
               QCBOR_INT64 v \<Rightarrow> Some (msg\<lparr>msg_body := Error (b\<lparr>err_code := v\<rparr>)\<rparr>, dc)
             | _ \<Rightarrow> None)
      | _ \<Rightarrow> Some (msg, dc))"

text \<open>\<open>None\<close> is the null pointer.\<close>

definition sizeof_teep_message :: nat where
  "sizeof_teep_message = 168"

definition parse_teep_message :: "'d qcbor \<Rightarrow> ubuf \<Rightarrow> teep_message option" where
  "parse_teep_message q cbor =
     (case q_next q (q_init q cbor) of (ok, item, dc) \<Rightarrow>
        case item_data item of
          QCBOR_ARRAY n \<Rightarrow>
            (case q_next q dc of (ok, item, dc) \<Rightarrow>
               case item_data item of
                 QCBOR_INT64 type_val \<Rightarrow>
                   (case message_type_of type_val of
                      None \<Rightarrow> None
                    | Some type \<Rightarrow>
                        if \<not> q_malloc q sizeof_teep_message then None
                        else
                          case parse_options q \<lparr>msg_token = NULLUsefulBufC, msg_body = zero_body type\<rparr> dc of
                            None \<Rightarrow> None
                          | Some (msg, dc) \<Rightarrow>
                              case parse_trailer q msg dc of
                                None \<Rightarrow> None
                              | Some (msg, dc) \<Rightarrow> if q_finish q dc then Some msg else None)
               | _ \<Rightarrow> None)
        | _ \<Rightarrow> None)"

text \<open>The arrays of a message, and the ones that are freed with it.\<close>

datatype message_array =
    Supported_cipher_suits
  | Supported_freshness_mechanisms
  | Versions
  | Tc_list
  | Requested_tc_list
  | Unneeded_tc_list
  | Ext_list
  | Manifest_list
  | Suit_reports

fun free_parsed_teep_message :: "teep_message option \<Rightarrow> message_array list" where
  "free_parsed_teep_message None = []"
| "free_parsed_teep_message (Some msg) =
     (case msg_body msg of
        Query_request b \<Rightarrow> [Supported_cipher_suits, Supported_freshness_mechanisms, Versions]
      | Query_response b \<Rightarrow> [Tc_list, Requested_tc_list, Unneeded_tc_list, Ext_list]
      | Update b \<Rightarrow> [Manifest_list]
      | Success b \<Rightarrow> [Suit_reports]
      | Error b \<Rightarrow> [Supported_cipher_suits, Supported_freshness_mechanisms, Versions, Suit_reports])"

section \<open>The encoder\<close>

text \<open>The calls into the encoder of QCBOR. A string is its bytes.\<close>

datatype encoder_call =
    OpenArray
  | OpenMap
  | OpenArrayInMapN i64
  | CloseArray
  | CloseMap
  | AddInt64 i64
  | AddUInt64 u64
  | AddBytesToMapN i64 "u8 list"
  | AddSZString "u8 list"

text \<open>An encoder is the buffer it has been given and the calls so far.\<close>

record teep_message_encoder =
  enc_buffer :: "u8 list"
  enc_calls :: "encoder_call list"

definition add_calls :: "teep_message_encoder \<Rightarrow> encoder_call list \<Rightarrow> teep_message_encoder" where
  "add_calls enc calls = enc\<lparr>enc_calls := enc_calls enc @ calls\<rparr>"

definition teep_message_encoder_init :: "u8 list \<Rightarrow> teep_message_encoder" where
  "teep_message_encoder_init buffer = \<lparr>enc_buffer = buffer, enc_calls = [OpenArray]\<rparr>"

definition teep_message_encoder_add_header :: "teep_message_encoder \<Rightarrow> teep_message_type \<Rightarrow> teep_message_encoder" where
  "teep_message_encoder_add_header enc type = add_calls enc [AddInt64 (message_type_value type)]"

definition teep_message_encoder_open_options :: "teep_message_encoder \<Rightarrow> teep_message_encoder" where
  "teep_message_encoder_open_options enc = add_calls enc [OpenMap]"

definition teep_message_encoder_close_options :: "teep_message_encoder \<Rightarrow> teep_message_encoder" where
  "teep_message_encoder_close_options enc = add_calls enc [CloseMap]"

text \<open>The token is \<open>None\<close> when its buffer is null.\<close>

definition teep_message_encoder_add_token :: "teep_message_encoder \<Rightarrow> u8 list option \<Rightarrow> teep_message_encoder" where
  "teep_message_encoder_add_token enc token =
     (case token of None \<Rightarrow> enc | Some bs \<Rightarrow> add_calls enc [AddBytesToMapN TEEP_OPTION_TOKEN bs])"

definition teep_message_encoder_open_tc_list :: "teep_message_encoder \<Rightarrow> teep_message_encoder" where
  "teep_message_encoder_open_tc_list enc = add_calls enc [OpenArrayInMapN TEEP_OPTION_TC_LIST]"

definition teep_message_encoder_add_tc_to_tc_list :: "teep_message_encoder \<Rightarrow> u8 list \<Rightarrow> teep_message_encoder" where
  "teep_message_encoder_add_tc_to_tc_list enc ta = add_calls enc [AddSZString ta]"

definition teep_message_encoder_close_tc_list :: "teep_message_encoder \<Rightarrow> teep_message_encoder" where
  "teep_message_encoder_close_tc_list enc = add_calls enc [CloseArray]"

definition teep_message_encoder_open_requested_tc_list :: "teep_message_encoder \<Rightarrow> teep_message_encoder" where
  "teep_message_encoder_open_requested_tc_list enc = add_calls enc [OpenArrayInMapN TEEP_OPTION_REQUESTED_TC_LIST]"

definition teep_message_encoder_add_tc_to_requested_tc_list ::
    "teep_message_encoder \<Rightarrow> u8 list \<Rightarrow> teep_message_encoder" where
  "teep_message_encoder_add_tc_to_requested_tc_list enc ta =
     add_calls enc [OpenMap, OpenArrayInMapN TEEP_OPTION_COMPONENT_ID, AddSZString ta, CloseArray, CloseMap]"

definition teep_message_encoder_close_requested_tc_list :: "teep_message_encoder \<Rightarrow> teep_message_encoder" where
  "teep_message_encoder_close_requested_tc_list enc = add_calls enc [CloseArray]"

definition teep_message_encoder_open_unneeded_tc_list :: "teep_message_encoder \<Rightarrow> teep_message_encoder" where
  "teep_message_encoder_open_unneeded_tc_list enc = add_calls enc [OpenArrayInMapN TEEP_OPTION_UNNEEDED_TC_LIST]"

definition teep_message_encoder_add_tc_to_unneeded_tc_list ::
    "teep_message_encoder \<Rightarrow> u8 list \<Rightarrow> teep_message_encoder" where
  "teep_message_encoder_add_tc_to_unneeded_tc_list enc ta = add_calls enc [OpenArray, AddSZString ta, CloseArray]"

definition teep_message_encoder_close_unneeded_tc_list :: "teep_message_encoder \<Rightarrow> teep_message_encoder" where
  "teep_message_encoder_close_unneeded_tc_list enc = add_calls enc [CloseArray]"

definition teep_message_encoder_add_err_code :: "teep_message_encoder \<Rightarrow> u64 \<Rightarrow> teep_message_encoder" where
  "teep_message_encoder_add_err_code enc code = add_calls enc [AddUInt64 code]"

text \<open>
  \<open>emit\<close> is what QCBOR makes of the calls and a buffer: the buffer it leaves, and how many bytes of it
  are the encoded item, or \<open>None\<close> for an error.
\<close>

definition teep_message_encoder_finish ::
    "(encoder_call list \<Rightarrow> u8 list \<Rightarrow> u8 list \<times> nat option) \<Rightarrow> teep_message_encoder \<Rightarrow>
     u8 list \<times> nat option" where
  "teep_message_encoder_finish emit enc =
     (let enc = add_calls enc [CloseArray] in emit (enc_calls enc) (enc_buffer enc))"

lemmas teep_message_encoder_defs =
  add_calls_def teep_message_encoder_init_def teep_message_encoder_add_header_def
  teep_message_encoder_open_options_def teep_message_encoder_close_options_def
  teep_message_encoder_add_token_def teep_message_encoder_open_tc_list_def
  teep_message_encoder_add_tc_to_tc_list_def teep_message_encoder_close_tc_list_def
  teep_message_encoder_open_requested_tc_list_def
  teep_message_encoder_add_tc_to_requested_tc_list_def
  teep_message_encoder_close_requested_tc_list_def teep_message_encoder_open_unneeded_tc_list_def
  teep_message_encoder_add_tc_to_unneeded_tc_list_def
  teep_message_encoder_close_unneeded_tc_list_def teep_message_encoder_add_err_code_def
end
