(* ===== verification/Tee_Api.thy ===== *)
theory Tee_Api
  imports Prelude
begin

text \<open>
  What the agent uses of the TEE internal API (\<^verbatim>\<open>platform/pc/include\<close>): result codes, parameter
  types and parameters. The two alternatives of a parameter are kept side by side; the type given
  with it says which one is used.
\<close>

unbundle bit_operations_syntax

type_synonym TEE_Result = u32

abbreviation (input) TEE_SUCCESS :: TEE_Result where "TEE_SUCCESS \<equiv> 0x00000000"
abbreviation (input) TEE_ERROR_BAD_FORMAT :: TEE_Result where "TEE_ERROR_BAD_FORMAT \<equiv> 0xFFFF0005"
abbreviation (input) TEE_ERROR_BAD_PARAMETERS :: TEE_Result where "TEE_ERROR_BAD_PARAMETERS \<equiv> 0xFFFF0006"
abbreviation (input) TEE_ERROR_BAD_STATE :: TEE_Result where "TEE_ERROR_BAD_STATE \<equiv> 0xFFFF0007"
abbreviation (input) TEE_ERROR_NOT_IMPLEMENTED :: TEE_Result where "TEE_ERROR_NOT_IMPLEMENTED \<equiv> 0xFFFF0009"
abbreviation (input) TEE_ERROR_OUT_OF_MEMORY :: TEE_Result where "TEE_ERROR_OUT_OF_MEMORY \<equiv> 0xFFFF000C"

abbreviation (input) TEE_PARAM_TYPE_NONE :: u32 where "TEE_PARAM_TYPE_NONE \<equiv> 0"
abbreviation (input) TEE_PARAM_TYPE_VALUE_INPUT :: u32 where "TEE_PARAM_TYPE_VALUE_INPUT \<equiv> 1"
abbreviation (input) TEE_PARAM_TYPE_VALUE_OUTPUT :: u32 where "TEE_PARAM_TYPE_VALUE_OUTPUT \<equiv> 2"
abbreviation (input) TEE_PARAM_TYPE_VALUE_INOUT :: u32 where "TEE_PARAM_TYPE_VALUE_INOUT \<equiv> 3"
abbreviation (input) TEE_PARAM_TYPE_MEMREF_INPUT :: u32 where "TEE_PARAM_TYPE_MEMREF_INPUT \<equiv> 5"
abbreviation (input) TEE_PARAM_TYPE_MEMREF_OUTPUT :: u32 where "TEE_PARAM_TYPE_MEMREF_OUTPUT \<equiv> 6"
abbreviation (input) TEE_PARAM_TYPE_MEMREF_INOUT :: u32 where "TEE_PARAM_TYPE_MEMREF_INOUT \<equiv> 7"

definition TEE_PARAM_TYPES :: "u32 \<Rightarrow> u32 \<Rightarrow> u32 \<Rightarrow> u32 \<Rightarrow> u32" where
  "TEE_PARAM_TYPES t0 t1 t2 t3 = t0 OR push_bit 4 t1 OR push_bit 8 t2 OR push_bit 12 t3"

definition TEE_PARAM_TYPE_GET :: "u32 \<Rightarrow> nat \<Rightarrow> u32" where
  "TEE_PARAM_TYPE_GET t i = drop_bit (i * 4) t AND 0xF"

record TEE_Param =
  value_a :: u32
  value_b :: u32
  memref_buffer :: ptr
  memref_size :: u32

text \<open>The four types that were put in are the ones that are read out.\<close>

lemma param_type_get:
  assumes "t0 \<le> 0xF" "t1 \<le> 0xF" "t2 \<le> 0xF" "t3 \<le> 0xF"
  shows "map (TEE_PARAM_TYPE_GET (TEE_PARAM_TYPES t0 t1 t2 t3)) [0, 1, 2, 3] = [t0, t1, t2, t3]"
proof -
  have bits: "n < 4" if "bit t n" "t \<le> 0xF" for t :: u32 and n
  proof -
    have "unat t < 2 ^ 4" using that(2) by (simp add: word_le_nat_alt)
    then have "take_bit 4 t = t" by (simp add: word_unat_eq_iff unsigned_take_bit_eq take_bit_nat_eq_self)
    then show ?thesis using that(1) by (metis bit_take_bit_iff)
  qed
  have get: "TEE_PARAM_TYPE_GET t i = take_bit 4 (drop_bit (i * 4) t)" for t i
    by (simp add: TEE_PARAM_TYPE_GET_def take_bit_eq_mask mask_eq_exp_minus_1)
  have "TEE_PARAM_TYPE_GET (TEE_PARAM_TYPES t0 t1 t2 t3) i = [t0, t1, t2, t3] ! i" if i: "i < 4" for i
  proof (rule bit_word_eqI)
    fix n assume "n < LENGTH(32)"
    consider "i = 0" | "i = 1" | "i = 2" | "i = 3" using i by linarith
    then show "bit (TEE_PARAM_TYPE_GET (TEE_PARAM_TYPES t0 t1 t2 t3) i) n = bit ([t0, t1, t2, t3] ! i) n"
      using assms \<open>n < LENGTH(32)\<close>
      by cases (auto simp: get TEE_PARAM_TYPES_def bit_simps dest: bits)
  qed
  then show ?thesis by simp
qed

end
