(* ===== verification/Agent_Session.thy ===== *)
theory Agent_Session
  imports Agent_Callbacks Suit_Auth Libteep Tee_Api
begin

text \<open>
  The agent of \<^verbatim>\<open>teep-agent-ta/teep-agent-ta.c\<close>: the session with its states, the handling of what
  the broker brings back, the messages it builds, the choice of the next task of the broker, and the
  entry points of the trusted application. \<open>None\<close> stands for undefined behaviour: the use of a null
  pointer, a copy that does not fit, a second \<^verbatim>\<open>free\<close>.
\<close>

unbundle bit_operations_syntax

section \<open>The environment\<close>

text \<open>
  The environment of the agent: the image and its literals, cryptography, the QCBOR library on a
  memory, the allocator - what it gives for a size, given the blocks that are live, null when it
  fails - and the size of a session in the layout of the compiler.
\<close>

record ('d, 'pk) agent_env =
  env_image :: image
  env_literal :: "string \<Rightarrow> ptr"
  env_crypto :: "'pk crypto"
  env_qcbor :: "memory \<Rightarrow> 'd qcbor"
  env_emit :: "encoder_call list \<Rightarrow> u8 list \<Rightarrow> u8 list \<times> nat option"
  env_malloc :: "(ptr \<times> u64) list \<Rightarrow> u64 \<Rightarrow> ptr"
  env_sizeof_session :: u64

text \<open>What outlives a session: the memory, the blocks of the heap, the stored manifests, the files.\<close>

record world =
  w_memory :: memory
  w_blocks :: "(ptr \<times> u64) list"
  suit_manifests :: "ubuf list"
  w_files :: file_system

definition copy_bytes :: "memory \<Rightarrow> ptr \<Rightarrow> u8 list \<Rightarrow> memory" where
  "copy_bytes m p bs = (\<lambda>a. if a - p < of_nat (length bs) then bs ! unat (a - p) else m a)"

definition malloc_block :: "('d, 'pk) agent_env \<Rightarrow> world \<Rightarrow> u64 \<Rightarrow> ptr \<times> world" where
  "malloc_block env w n =
     (let p = env_malloc env (w_blocks w) n in
      if p = 0 then (0, w) else (p, w\<lparr>w_blocks := (p, n) # w_blocks w\<rparr>))"

definition free_block :: "world \<Rightarrow> ptr \<Rightarrow> world option" where
  "free_block w p =
     (if p = 0 then Some w
      else if p \<in> fst ` set (w_blocks w)
      then Some (w\<lparr>w_blocks := filter (\<lambda>(q, n). q \<noteq> p) (w_blocks w)\<rparr>)
      else None)"

section \<open>The session\<close>

datatype agent_state =
    AGENT_INIT
  | AGENT_POSTING_INITIAL_REQUEST
  | AGENT_POSTING_QUERY_RESPONSE
  | AGENT_POSTING_SUCCESS
  | AGENT_POSTING_ERROR
  | AGENT_INIT_RUNNER
  | AGENT_RUN_SUIT_RUNNER
  | AGENT_FETCH_COMPONENT
  | AGENT_FINISH

datatype broker_command = BROKER_HTTP_POST | BROKER_HTTP_GET | BROKER_FINISH

definition TEEP_MAX_MESSAGE_LEN :: nat where "TEEP_MAX_MESSAGE_LEN = 2048"
definition TEEP_MAX_URI_LEN :: nat where "TEEP_MAX_URI_LEN = 512"

record broker_task =
  command :: broker_command
  uri :: "u8 list"
  post_data :: "u8 list"
  post_data_len :: nat

record teep_manifest_request =
  requested :: bool
  unneeded :: bool
  request_id :: "u8 list"

text \<open>
  \<^verbatim>\<open>on_going_task\<close> is null or points to \<^verbatim>\<open>task_buffer\<close>, so that a truth value says it. The runner keeps
  what it needs of the session while it runs in its user part: \<open>fetch_uri\<close> and
  \<open>fetch_component_path\<close>.
\<close>

record teep_agent_session =
  session_addr :: ptr
  state :: agent_state
  tam_uri :: "u8 list"
  on_going_task :: bool
  task_buffer :: broker_task
  token :: ubuf
  n_requests :: nat
  requests :: "teep_manifest_request list"
  session_data_item_requested :: u64
  session_context :: suit_context
  session_runner :: agent_runner

definition tc_singer_pubkey :: "u8 list" where
  "tc_singer_pubkey =
     ascii ''-----BEGIN PUBLIC KEY-----'' @ [10] @
     ascii ''MFkwEwYHKoZIzj0CAQYIKoZIzj0DAQcDQgAExMJmSeV+ZMSbccfu7+o/Gsw+IhTc'' @ [10] @
     ascii ''r9tM9MRNd+pnVh4mHrMozWjWaWFkMdpOEHZpSKLToh1UsIYXgf+PoPtiMw=='' @ [10] @
     ascii ''-----END PUBLIC KEY-----'' @ [10]"

text \<open>A null pointer is not freed; when there is no memory the buffer keeps what has been freed.\<close>

definition store_bstr ::
    "('d, 'pk) agent_env \<Rightarrow> world \<Rightarrow> ubuf \<Rightarrow> ptr \<Rightarrow> u64 \<Rightarrow> (bool \<times> world \<times> ubuf) option" where
  "store_bstr env w p buf len =
     (case (if \<not> UsefulBuf_IsNULLC p then free_block w (ub_ptr p) else Some w) of
        None \<Rightarrow> None
      | Some w \<Rightarrow>
          case malloc_block env w len of (q, w) \<Rightarrow>
            if q = 0 then Some (False, w, p)
            else
              let w = w\<lparr>w_memory := copy_bytes (w_memory w) q (peek (w_memory w) buf (unat len))\<rparr> in
              Some (True, w, \<lparr>ub_ptr = q, ub_len = len\<rparr>))"

definition store_envelope ::
    "('d, 'pk) agent_env \<Rightarrow> world \<Rightarrow> nat \<Rightarrow> ptr \<Rightarrow> u64 \<Rightarrow> (bool \<times> world) option" where
  "store_envelope env w index buf len =
     (if index < 2 then
        if \<not> suit_authenticate_envelope (env_crypto env) (w_memory w)
               \<lparr>rbegin = buf, rend = buf + len\<rparr> tc_singer_pubkey
        then Some (False, w)
        else
          case store_bstr env w (suit_manifests w ! index) buf len of
            None \<Rightarrow> None
          | Some (ok, w, p) \<Rightarrow> Some (ok, w\<lparr>suit_manifests := (suit_manifests w)[index := p]\<rparr>)
      else Some (False, w))"

definition store_suit_envelope ::
    "('d, 'pk) agent_env \<Rightarrow> world \<Rightarrow> nat \<Rightarrow> ubuf \<Rightarrow> (bool \<times> world) option" where
  "store_suit_envelope env w index envelope = store_envelope env w index (ub_ptr envelope) (ub_len envelope)"

text \<open>\<open>raw\<close>: what \<^verbatim>\<open>malloc\<close> leaves in the fields that are not initialised.\<close>

definition teep_agent_session_create ::
    "('d, 'pk) agent_env \<Rightarrow> world \<Rightarrow> teep_agent_session \<Rightarrow> teep_agent_session option \<times> world" where
  "teep_agent_session_create env w raw =
     (case malloc_block env w (env_sizeof_session env) of (p, w) \<Rightarrow>
        if p = 0 then (None, w)
        else
          (Some (raw\<lparr>session_addr := p, state := AGENT_INIT, on_going_task := False,
                     token := NULLUsefulBufC, n_requests := 0,
                     session_context := suit_context_init\<rparr>), w))"

definition teep_agent_session_destroy :: "world \<Rightarrow> teep_agent_session option \<Rightarrow> world option" where
  "teep_agent_session_destroy w session =
     (case session of
        None \<Rightarrow> Some w
      | Some s \<Rightarrow>
          case free_block w (ub_ptr (token s)) of
            None \<Rightarrow> None
          | Some w \<Rightarrow> free_block w (session_addr s))"

section \<open>Options for development\<close>

abbreviation (input) AGENT_OPTION_SET_TAM_URI :: u32 where "AGENT_OPTION_SET_TAM_URI \<equiv> 0"
abbreviation (input) AGENT_OPTION_SET_CURRENT_TA_LIST :: u32 where "AGENT_OPTION_SET_CURRENT_TA_LIST \<equiv> 1"

definition comma :: u8 where "comma = 0x2C"
definition plus_sign :: u8 where "plus_sign = 0x2B"
definition minus_sign :: u8 where "minus_sign = 0x2D"

text \<open>The loop over the bytes of one name: the name so far, and the string behind it.\<close>

fun read_request_id :: "u8 list \<Rightarrow> nat \<Rightarrow> u8 list \<Rightarrow> u8 list \<times> u8 list" where
  "read_request_id name i [] = (name, [])"
| "read_request_id name i (c # s) =
     (if c = comma then (name, s)
      else read_request_id (if i < length name - 1 then name[i := c] else name) (i + 1) s)"

definition read_request :: "u8 list \<Rightarrow> teep_manifest_request \<times> u8 list" where
  "read_request s =
     (let r = \<lparr>requested = False, unneeded = False, request_id = replicate 128 0\<rparr>;
          (r, s) =
            (case s of
               c # s' \<Rightarrow>
                 if c = plus_sign then (r\<lparr>requested := True\<rparr>, s')
                 else if c = minus_sign then (r\<lparr>unneeded := True\<rparr>, s')
                 else (r, s)
             | [] \<Rightarrow> (r, s));
          (name, s) = read_request_id (request_id r) 0 s in
      (r\<lparr>request_id := name\<rparr>, s))"

text \<open>The loop over the names; \<open>k\<close> of them are still to be read, the next one into \<open>index\<close>.\<close>

primrec read_requests :: "teep_manifest_request list \<Rightarrow> nat \<Rightarrow> nat \<Rightarrow> u8 list \<Rightarrow> teep_manifest_request list" where
  "read_requests rs index 0 s = rs"
| "read_requests rs index (Suc k) s =
     (case read_request s of (r, s) \<Rightarrow> read_requests (rs[index := r]) (index + 1) k s)"

definition set_dev_option ::
    "teep_agent_session \<Rightarrow> u32 \<Rightarrow> u8 list \<Rightarrow> TEE_Result \<times> teep_agent_session" where
  "set_dev_option session option value =
     (if state session \<noteq> AGENT_INIT then (TEE_ERROR_BAD_STATE, session)
      else if option = AGENT_OPTION_SET_TAM_URI then
        (if TEEP_MAX_URI_LEN < length value + 1 then (TEE_ERROR_BAD_PARAMETERS, session)
         else (TEE_SUCCESS, session\<lparr>tam_uri := strncpy (tam_uri session) value (TEEP_MAX_URI_LEN - 1)\<rparr>))
      else if option = AGENT_OPTION_SET_CURRENT_TA_LIST then
        (if value = [] then (TEE_SUCCESS, session)
         else
           let n = 1 + length (filter (\<lambda>c. c = comma) value) in
           if 16 < n then (TEE_ERROR_BAD_PARAMETERS, session)
           else (TEE_SUCCESS,
             session\<lparr>requests := read_requests (requests session) 0 n value, n_requests := n\<rparr>))
      else (TEE_ERROR_BAD_PARAMETERS, session))"

section \<open>What the broker brings back\<close>

definition teep_error :: "teep_agent_session \<Rightarrow> teep_agent_session" where
  "teep_error session = session\<lparr>state := AGENT_POSTING_ERROR\<rparr>"

text \<open>The two loops over the manifests of an update: storing them, and adding them to the context.\<close>

primrec store_manifests ::
    "('d, 'pk) agent_env \<Rightarrow> nat \<Rightarrow> ubuf list \<Rightarrow> world \<Rightarrow> (bool \<times> world) option" where
  "store_manifests env i [] w = Some (True, w)"
| "store_manifests env i (e # es) w =
     (case store_suit_envelope env w i e of
        None \<Rightarrow> None
      | Some (False, w) \<Rightarrow> Some (False, w)
      | Some (True, w) \<Rightarrow> store_manifests env (i + 1) es w)"

text \<open>The envelopes are added from the last to the first; \<open>k\<close> of them are still to be added.\<close>

primrec add_manifests :: "world \<Rightarrow> nat \<Rightarrow> suit_context \<Rightarrow> bool \<times> suit_context" where
  "add_manifests w 0 context = (True, context)"
| "add_manifests w (Suc k) context =
     (let e = suit_manifests w ! k in
      case suit_context_add_envelope (w_memory w) context
             \<lparr>rbegin = ub_ptr e, rend = ub_ptr e + ub_len e\<rparr> of
        (False, context) \<Rightarrow> (False, context)
      | (True, context) \<Rightarrow> add_manifests w k context)"

definition handle_query_request ::
    "('d, 'pk) agent_env \<Rightarrow> world \<Rightarrow> teep_agent_session \<Rightarrow> ubuf \<Rightarrow> query_request \<Rightarrow>
     (TEE_Result \<times> world \<times> teep_agent_session) option" where
  "handle_query_request env w session msg_tok b =
     (if state session \<noteq> AGENT_POSTING_INITIAL_REQUEST then Some (TEE_SUCCESS, w, teep_error session)
      else
        let session = session\<lparr>state := AGENT_POSTING_QUERY_RESPONSE\<rparr> in
        case malloc_block env w (ub_len msg_tok) of (p, w) \<Rightarrow>
          if p = 0 \<and> ub_len msg_tok \<noteq> 0 then None
          else
            let w = w\<lparr>w_memory :=
                  copy_bytes (w_memory w) p (peek (w_memory w) (ub_ptr msg_tok) (unat (ub_len msg_tok)))\<rparr> in
            Some (TEE_SUCCESS, w,
              session\<lparr>token := \<lparr>ub_ptr = p, ub_len = ub_len msg_tok\<rparr>,
                      session_data_item_requested := data_item_requested b\<rparr>))"

definition handle_update ::
    "('d, 'pk) agent_env \<Rightarrow> world \<Rightarrow> teep_agent_session \<Rightarrow> teep_update \<Rightarrow>
     (TEE_Result \<times> world \<times> teep_agent_session) option" where
  "handle_update env w session b =
     (if state session \<noteq> AGENT_POSTING_QUERY_RESPONSE then Some (TEE_SUCCESS, w, teep_error session)
      else
        let p = (case manifest_list b of None \<Rightarrow> [] | Some es \<Rightarrow> es) in
        case store_manifests env 0 p w of
          None \<Rightarrow> None
        | Some (False, w) \<Rightarrow> Some (TEE_SUCCESS, w, session)
        | Some (True, w) \<Rightarrow>
            case add_manifests w (length p) (session_context session) of
              (False, context) \<Rightarrow> Some (TEE_SUCCESS, w, teep_error (session\<lparr>session_context := context\<rparr>))
            | (True, context) \<Rightarrow>
                Some (TEE_SUCCESS, w, session\<lparr>session_context := context, state := AGENT_INIT_RUNNER\<rparr>))"

definition handle_tam_message ::
    "('d, 'pk) agent_env \<Rightarrow> world \<Rightarrow> teep_agent_session \<Rightarrow> ptr \<Rightarrow> u64 \<Rightarrow>
     (TEE_Result \<times> world \<times> teep_agent_session) option" where
  "handle_tam_message env w session buffer len =
     (if len = 0 then Some (TEE_SUCCESS, w, session\<lparr>state := AGENT_FINISH\<rparr>)
      else if state session = AGENT_POSTING_ERROR then
        Some (TEE_ERROR_BAD_FORMAT, w, session\<lparr>state := AGENT_FINISH\<rparr>)
      else
        case parse_teep_message (env_qcbor env (w_memory w)) \<lparr>ub_ptr = buffer, ub_len = len\<rparr> of
          None \<Rightarrow> Some (TEE_ERROR_BAD_FORMAT, w, teep_error session)
        | Some msg \<Rightarrow>
            case msg_body msg of
              Query_request b \<Rightarrow> handle_query_request env w session (msg_token msg) b
            | Update b \<Rightarrow> handle_update env w session b
            | _ \<Rightarrow> Some (TEE_SUCCESS, w, teep_error session))"

definition handle_component_download ::
    "world \<Rightarrow> teep_agent_session \<Rightarrow> ptr \<Rightarrow> u64 \<Rightarrow> TEE_Result \<times> world \<times> teep_agent_session" where
  "handle_component_download w session buffer len =
     (if state session \<noteq> AGENT_FETCH_COMPONENT then (TEE_ERROR_BAD_STATE, w, teep_error session)
      else
        let path = fetch_component_path (run_user (session_runner session)) in
        case store_component (w_files w) path (peek (w_memory w) buffer (unat len)) of
          (ok, files) \<Rightarrow>
            (TEE_SUCCESS, w\<lparr>w_files := files\<rparr>,
             session\<lparr>session_runner := suit_runner_resume call_resumption (session_runner session) (),
                     state := AGENT_RUN_SUIT_RUNNER\<rparr>))"

definition broker_task_done ::
    "('d, 'pk) agent_env \<Rightarrow> world \<Rightarrow> teep_agent_session \<Rightarrow> ptr \<Rightarrow> u64 \<Rightarrow>
     (TEE_Result \<times> world \<times> teep_agent_session) option" where
  "broker_task_done env w session buffer len =
     (if \<not> on_going_task session then Some (TEE_ERROR_BAD_STATE, w, session)
      else
        case (case command (task_buffer session) of
                BROKER_FINISH \<Rightarrow> None
              | BROKER_HTTP_POST \<Rightarrow> Some (handle_tam_message env w session buffer len)
              | BROKER_HTTP_GET \<Rightarrow> Some (Some (handle_component_download w session buffer len))) of
          None \<Rightarrow> Some (TEE_ERROR_BAD_STATE, w, session)
        | Some result \<Rightarrow>
            map_option (\<lambda>(ret, w, session). (ret, w, session\<lparr>on_going_task := False\<rparr>)) result)"

section \<open>The messages of the agent\<close>

abbreviation (input) TEEP_DATA_ATTESTATION :: u64 where "TEEP_DATA_ATTESTATION \<equiv> 1"
abbreviation (input) TEEP_DATA_TRUSTED_COMPONENTS :: u64 where "TEEP_DATA_TRUSTED_COMPONENTS \<equiv> 2"

text \<open>The string in a buffer, and the token as the encoder sees it.\<close>

definition string_in :: "u8 list \<Rightarrow> u8 list" where
  "string_in b = takeWhile (\<lambda>c. c \<noteq> 0) b"

definition token_bytes :: "memory \<Rightarrow> ubuf \<Rightarrow> u8 list option" where
  "token_bytes m t = (if UsefulBuf_IsNULLC t then None else Some (peek m (ub_ptr t) (unat (ub_len t))))"

text \<open>The three loops over the requests, each with its condition and its call.\<close>

definition add_components ::
    "(teep_manifest_request \<Rightarrow> bool) \<Rightarrow> (teep_message_encoder \<Rightarrow> u8 list \<Rightarrow> teep_message_encoder) \<Rightarrow>
     teep_agent_session \<Rightarrow> teep_message_encoder \<Rightarrow> teep_message_encoder" where
  "add_components wanted add session enc =
     fold (\<lambda>r enc. if wanted r then add enc (string_in (request_id r)) else enc)
       (take (n_requests session) (requests session)) enc"

definition query_response_calls ::
    "memory \<Rightarrow> teep_agent_session \<Rightarrow> teep_message_encoder \<Rightarrow> teep_message_encoder" where
  "query_response_calls m session enc =
     (let enc = teep_message_encoder_add_header enc TEEP_QUERY_RESPONSE;
          enc = teep_message_encoder_open_options enc;
          enc = teep_message_encoder_add_token enc (token_bytes m (token session));
          items = session_data_item_requested session;
          enc =
            (if items AND TEEP_DATA_ATTESTATION \<noteq> 0 then enc
             else if items AND TEEP_DATA_TRUSTED_COMPONENTS \<noteq> 0 then
               let enc = teep_message_encoder_open_tc_list enc;
                   enc = add_components (\<lambda>r. \<not> requested r \<and> \<not> unneeded r)
                           teep_message_encoder_add_tc_to_tc_list session enc;
                   enc = teep_message_encoder_close_tc_list enc;
                   enc = teep_message_encoder_open_requested_tc_list enc;
                   enc = add_components requested
                           teep_message_encoder_add_tc_to_requested_tc_list session enc;
                   enc = teep_message_encoder_close_requested_tc_list enc;
                   enc = teep_message_encoder_open_unneeded_tc_list enc;
                   enc = add_components unneeded
                           teep_message_encoder_add_tc_to_unneeded_tc_list session enc in
               teep_message_encoder_close_unneeded_tc_list enc
             else enc) in
      teep_message_encoder_close_options enc)"

definition success_calls :: "memory \<Rightarrow> teep_agent_session \<Rightarrow> teep_message_encoder \<Rightarrow> teep_message_encoder" where
  "success_calls m session enc =
     (let enc = teep_message_encoder_add_header enc TEEP_SUCCESS;
          enc = teep_message_encoder_open_options enc;
          enc = teep_message_encoder_add_token enc (token_bytes m (token session)) in
      teep_message_encoder_close_options enc)"

definition error_calls :: "memory \<Rightarrow> teep_agent_session \<Rightarrow> teep_message_encoder \<Rightarrow> teep_message_encoder" where
  "error_calls m session enc =
     (let enc = teep_message_encoder_add_header enc TEEP_ERROR;
          enc = teep_message_encoder_open_options enc;
          enc = teep_message_encoder_add_token enc (token_bytes m (token session));
          enc = teep_message_encoder_close_options enc in
      teep_message_encoder_add_err_code enc 42)"

text \<open>
  The buffer and the length a message is left in; when the encoder fails the length stays what it
  was. The flag is the result.
\<close>

definition build_message ::
    "(encoder_call list \<Rightarrow> u8 list \<Rightarrow> u8 list \<times> nat option) \<Rightarrow>
     (teep_message_encoder \<Rightarrow> teep_message_encoder) \<Rightarrow> u8 list \<Rightarrow> nat \<Rightarrow> bool \<times> u8 list \<times> nat" where
  "build_message emit calls dst dst_len =
     (case teep_message_encoder_finish emit (calls (teep_message_encoder_init (take dst_len dst))) of
        (buffer, None) \<Rightarrow> (False, buffer @ drop dst_len dst, dst_len)
      | (buffer, Some n) \<Rightarrow> (True, buffer @ drop dst_len dst, n))"

definition build_query_response ::
    "('d, 'pk) agent_env \<Rightarrow> memory \<Rightarrow> teep_agent_session \<Rightarrow> u8 list \<Rightarrow> nat \<Rightarrow> bool \<times> u8 list \<times> nat" where
  "build_query_response env m session dst dst_len =
     build_message (env_emit env) (query_response_calls m session) dst dst_len"

definition build_success ::
    "('d, 'pk) agent_env \<Rightarrow> memory \<Rightarrow> teep_agent_session \<Rightarrow> u8 list \<Rightarrow> nat \<Rightarrow> bool \<times> u8 list \<times> nat" where
  "build_success env m session dst dst_len =
     build_message (env_emit env) (success_calls m session) dst dst_len"

definition build_error ::
    "('d, 'pk) agent_env \<Rightarrow> memory \<Rightarrow> teep_agent_session \<Rightarrow> u8 list \<Rightarrow> nat \<Rightarrow> bool \<times> u8 list \<times> nat" where
  "build_error env m session dst dst_len =
     build_message (env_emit env) (error_calls m session) dst dst_len"

section \<open>The next task of the broker\<close>

definition post_task ::
    "teep_agent_session \<Rightarrow> (u8 list \<Rightarrow> nat \<Rightarrow> bool \<times> u8 list \<times> nat) option \<Rightarrow> teep_agent_session" where
  "post_task session build =
     (let task = task_buffer session;
          task = task\<lparr>command := BROKER_HTTP_POST,
                      uri := strncpy (uri task) (string_in (tam_uri session)) (TEEP_MAX_URI_LEN - 1)\<rparr>;
          task =
            (case build of
               None \<Rightarrow> task\<lparr>post_data_len := 0\<rparr>
             | Some build \<Rightarrow>
                 case build (post_data task) TEEP_MAX_MESSAGE_LEN of
                   (ok, buffer, n) \<Rightarrow> task\<lparr>post_data := buffer, post_data_len := n\<rparr>) in
      session\<lparr>task_buffer := task, on_going_task := True\<rparr>)"

text \<open>The interpreter runs on the files of the host, which it finds in its user part.\<close>

definition with_files :: "file_system \<Rightarrow> agent_runner \<Rightarrow> agent_runner" where
  "with_files files r = r\<lparr>run_user := (run_user r)\<lparr>user_fs := files\<rparr>\<rparr>"

definition start_runner ::
    "('d, 'pk) agent_env \<Rightarrow> world \<Rightarrow> teep_agent_session \<Rightarrow> teep_agent_session option" where
  "start_runner env w session =
     (case suit_runner_init (env_image env) (w_memory w) (session_context session)
             SUIT_COMMAND_SEQUENCE_INSTALL (run_user (session_runner session)) of
        None \<Rightarrow> None
      | Some r \<Rightarrow> Some (session\<lparr>session_runner := r, state := AGENT_RUN_SUIT_RUNNER\<rparr>))"

definition after_run :: "world \<Rightarrow> teep_agent_session \<Rightarrow> agent_runner \<Rightarrow> world \<times> teep_agent_session" where
  "after_run w session r =
     (let session = session\<lparr>session_runner := r\<rparr> in
      (w\<lparr>w_files := user_fs (run_user r)\<rparr>,
       if suit_runner_finished r then session\<lparr>state := AGENT_POSTING_SUCCESS\<rparr>
       else if suit_runner_suspended r then session\<lparr>state := AGENT_FETCH_COMPONENT\<rparr>
       else teep_error session))"

definition fetch_task :: "world \<Rightarrow> teep_agent_session \<Rightarrow> teep_agent_session option" where
  "fetch_task w session =
     (let bytes = bytes_of (w_memory w) (fetch_uri (run_user (session_runner session))) in
      if TEEP_MAX_URI_LEN < length bytes then None
      else
        Some (session\<lparr>task_buffer := (task_buffer session)
                \<lparr>command := BROKER_HTTP_GET,
                 uri := bytes @ replicate (TEEP_MAX_URI_LEN - length bytes) 0,
                 post_data_len := 0\<rparr>,
              on_going_task := True\<rparr>))"

definition finish_task :: "teep_agent_session \<Rightarrow> teep_agent_session" where
  "finish_task session =
     session\<lparr>task_buffer := (task_buffer session)
               \<lparr>command := BROKER_FINISH, uri := (uri (task_buffer session))[0 := 0], post_data_len := 0\<rparr>,
             on_going_task := True\<rparr>"

text \<open>
  One round of the loop. The outer \<open>None\<close> is a run of the interpreter that does not return, the inner
  one undefined behaviour.
\<close>

definition query_round ::
    "('d, 'pk) agent_env \<Rightarrow> world \<Rightarrow> teep_agent_session \<Rightarrow> (world \<times> teep_agent_session) option option" where
  "query_round env w session =
     (case state session of
        AGENT_INIT \<Rightarrow> Some (Some (w, session\<lparr>state := AGENT_POSTING_INITIAL_REQUEST\<rparr>))
      | AGENT_POSTING_INITIAL_REQUEST \<Rightarrow> Some (Some (w, post_task session None))
      | AGENT_POSTING_QUERY_RESPONSE \<Rightarrow>
          Some (Some (w, post_task session (Some (build_query_response env (w_memory w) session))))
      | AGENT_POSTING_SUCCESS \<Rightarrow>
          Some (Some (w, post_task session (Some (build_success env (w_memory w) session))))
      | AGENT_POSTING_ERROR \<Rightarrow>
          Some (Some (w, post_task session (Some (build_error env (w_memory w) session))))
      | AGENT_INIT_RUNNER \<Rightarrow> Some (map_option (Pair w) (start_runner env w session))
      | AGENT_RUN_SUIT_RUNNER \<Rightarrow>
          (case suit_runner_run (env_image env) (w_memory w)
                  (suit_callbacks (env_literal env) (w_memory w))
                  (with_files (w_files w) (session_runner session)) of
             None \<Rightarrow> None
           | Some None \<Rightarrow> Some None
           | Some (Some r) \<Rightarrow> Some (Some (after_run w session r)))
      | AGENT_FETCH_COMPONENT \<Rightarrow> Some (map_option (Pair w) (fetch_task w session))
      | AGENT_FINISH \<Rightarrow> Some (Some (w, finish_task session)))"

partial_function (option) query_next_broker_task ::
    "('d, 'pk) agent_env \<Rightarrow> world \<Rightarrow> teep_agent_session \<Rightarrow> (world \<times> teep_agent_session) option option" where
  "query_next_broker_task env w session =
     (if on_going_task session then Some (Some (w, session))
      else
        case query_round env w session of
          None \<Rightarrow> None
        | Some x \<Rightarrow>
            (case x of
               None \<Rightarrow> Some None
             | Some y \<Rightarrow> query_next_broker_task env (fst y) (snd y)))"

declare query_next_broker_task.simps [code]

section \<open>Entry points\<close>

definition TA_CreateEntryPoint :: TEE_Result where
  "TA_CreateEntryPoint = TEE_SUCCESS"

text \<open>The result, the session put behind the pointer, and the world.\<close>

definition TA_OpenSessionEntryPoint ::
    "('d, 'pk) agent_env \<Rightarrow> world \<Rightarrow> teep_agent_session \<Rightarrow> u32 \<Rightarrow>
     TEE_Result \<times> teep_agent_session option \<times> world" where
  "TA_OpenSessionEntryPoint env w raw param_types =
     (let exp_param_types =
            TEE_PARAM_TYPES TEE_PARAM_TYPE_NONE TEE_PARAM_TYPE_NONE TEE_PARAM_TYPE_NONE TEE_PARAM_TYPE_NONE in
      if param_types \<noteq> exp_param_types then (TEE_ERROR_BAD_PARAMETERS, None, w)
      else
        case teep_agent_session_create env w raw of
          (None, w) \<Rightarrow> (TEE_ERROR_OUT_OF_MEMORY, None, w)
        | (Some session, w) \<Rightarrow> (TEE_SUCCESS, Some session, w))"

definition TA_CloseSessionEntryPoint :: "world \<Rightarrow> teep_agent_session option \<Rightarrow> world option" where
  "TA_CloseSessionEntryPoint w session = teep_agent_session_destroy w session"

text \<open>An empty buffer is read before its start: that is undefined.\<close>

definition handle_TEEP_AGENT_SET_DEV_OPTION ::
    "world \<Rightarrow> teep_agent_session \<Rightarrow> u32 \<Rightarrow> TEE_Param list \<Rightarrow> (TEE_Result \<times> teep_agent_session) option" where
  "handle_TEEP_AGENT_SET_DEV_OPTION w session param_types params =
     (let exp_param_types =
            TEE_PARAM_TYPES TEE_PARAM_TYPE_VALUE_INPUT TEE_PARAM_TYPE_MEMREF_INPUT TEE_PARAM_TYPE_NONE TEE_PARAM_TYPE_NONE in
      if param_types \<noteq> exp_param_types then Some (TEE_ERROR_BAD_PARAMETERS, session)
      else
        let option = value_a (params ! 0);
            value = peek (w_memory w) (memref_buffer (params ! 1)) (unat (memref_size (params ! 1))) in
        if value = [] then None
        else if last value \<noteq> 0 then Some (TEE_ERROR_BAD_PARAMETERS, session)
        else Some (set_dev_option session option (string_in value)))"

definition handle_TEEP_AGENT_BROKER_TASK_DONE ::
    "('d, 'pk) agent_env \<Rightarrow> world \<Rightarrow> teep_agent_session \<Rightarrow> u32 \<Rightarrow> TEE_Param list \<Rightarrow>
     (TEE_Result \<times> world \<times> teep_agent_session) option" where
  "handle_TEEP_AGENT_BROKER_TASK_DONE env w session param_types params =
     (let exp_param_types =
            TEE_PARAM_TYPES TEE_PARAM_TYPE_MEMREF_INPUT TEE_PARAM_TYPE_NONE TEE_PARAM_TYPE_NONE TEE_PARAM_TYPE_NONE in
      if param_types \<noteq> exp_param_types then Some (TEE_ERROR_BAD_PARAMETERS, w, session)
      else broker_task_done env w session (memref_buffer (params ! 0)) (ucast (memref_size (params ! 0))))"

text \<open>\<open>None\<close> when the buffer is too small, which is the result 0.\<close>

definition copyout_param :: "world \<Rightarrow> TEE_Param \<Rightarrow> u8 list \<Rightarrow> (TEE_Param \<times> world) option" where
  "copyout_param w param bytes =
     (if unat (memref_size param) < length bytes then None
      else
        Some (param\<lparr>memref_size := of_nat (length bytes)\<rparr>,
              w\<lparr>w_memory := copy_bytes (w_memory w) (memref_buffer param) bytes\<rparr>))"

fun command_value :: "broker_command \<Rightarrow> u32" where
  "command_value BROKER_HTTP_POST = 0"
| "command_value BROKER_HTTP_GET = 1"
| "command_value BROKER_FINISH = 2"

text \<open>
  Copying a task out: a URI without a NUL is read behind its end. The parameters that have been
  written by the time of an error stay written.
\<close>

definition copy_task ::
    "world \<Rightarrow> broker_task \<Rightarrow> TEE_Param list \<Rightarrow> (TEE_Result \<times> world \<times> TEE_Param list) option" where
  "copy_task w task params =
     (let params = params[0 := (params ! 0)\<lparr>value_a := command_value (command task)\<rparr>] in
      case c_string (uri task) of
        None \<Rightarrow> None
      | Some s \<Rightarrow>
          case copyout_param w (params ! 1) (s @ [0]) of
            None \<Rightarrow> Some (TEE_ERROR_BAD_PARAMETERS, w, params)
          | Some (p, w) \<Rightarrow>
              let params = params[1 := p] in
              case copyout_param w (params ! 2) (take (post_data_len task) (post_data task)) of
                None \<Rightarrow> Some (TEE_ERROR_BAD_PARAMETERS, w, params)
              | Some (p, w) \<Rightarrow> Some (TEE_SUCCESS, w, params[2 := p]))"

text \<open>As for the loop, the outer \<open>None\<close> of the result is a call that does not return.\<close>

definition handle_TEEP_AGENT_QUERY_NEXT_BROKER_TASK ::
    "('d, 'pk) agent_env \<Rightarrow> world \<Rightarrow> teep_agent_session \<Rightarrow> u32 \<Rightarrow> TEE_Param list \<Rightarrow>
     (TEE_Result \<times> world \<times> teep_agent_session \<times> TEE_Param list) option option" where
  "handle_TEEP_AGENT_QUERY_NEXT_BROKER_TASK env w session param_types params =
     (let exp_param_types =
            TEE_PARAM_TYPES TEE_PARAM_TYPE_VALUE_OUTPUT TEE_PARAM_TYPE_MEMREF_OUTPUT
              TEE_PARAM_TYPE_MEMREF_OUTPUT TEE_PARAM_TYPE_NONE in
      if param_types \<noteq> exp_param_types then Some (Some (TEE_ERROR_BAD_PARAMETERS, w, session, params))
      else
        case query_next_broker_task env w session of
          None \<Rightarrow> None
        | Some None \<Rightarrow> Some None
        | Some (Some (w, session)) \<Rightarrow>
            Some (map_option (\<lambda>(r, w, params). (r, w, session, params))
              (copy_task w (task_buffer session) params)))"

abbreviation (input) TEEP_AGENT_BROKER_TASK_DONE :: u32 where "TEEP_AGENT_BROKER_TASK_DONE \<equiv> 1"
abbreviation (input) TEEP_AGENT_QUERY_NEXT_BROKER_TASK :: u32 where "TEEP_AGENT_QUERY_NEXT_BROKER_TASK \<equiv> 2"
abbreviation (input) TEEP_AGENT_SET_DEV_OPTION :: u32 where "TEEP_AGENT_SET_DEV_OPTION \<equiv> 3"

definition TA_InvokeCommandEntryPoint ::
    "('d, 'pk) agent_env \<Rightarrow> world \<Rightarrow> teep_agent_session \<Rightarrow> u32 \<Rightarrow> u32 \<Rightarrow> TEE_Param list \<Rightarrow>
     (TEE_Result \<times> world \<times> teep_agent_session \<times> TEE_Param list) option option" where
  "TA_InvokeCommandEntryPoint env w session cmd_id param_types params =
     (if cmd_id = TEEP_AGENT_SET_DEV_OPTION then
        Some (map_option (\<lambda>(r, session). (r, w, session, params))
          (handle_TEEP_AGENT_SET_DEV_OPTION w session param_types params))
      else if cmd_id = TEEP_AGENT_BROKER_TASK_DONE then
        Some (map_option (\<lambda>(r, w, session). (r, w, session, params))
          (handle_TEEP_AGENT_BROKER_TASK_DONE env w session param_types params))
      else if cmd_id = TEEP_AGENT_QUERY_NEXT_BROKER_TASK then
        handle_TEEP_AGENT_QUERY_NEXT_BROKER_TASK env w session param_types params
      else Some (Some (TEE_ERROR_NOT_IMPLEMENTED, w, session, params)))"

end
