(* ===== verification/Teec_Pc.thy ===== *)
theory Teec_Pc
  imports Agent_Session
begin

text \<open>
  The client API on a PC, \<^verbatim>\<open>teep-broker-app/teec-pc.c\<close>: the trusted application is part of the process
  of the broker, and a command is a call of its entry point with the parameters copied into blocks
  of the same heap, and back. \<open>None\<close> stands for undefined behaviour, as in the agent.
\<close>

unbundle bit_operations_syntax

section \<open>Parameters of an operation\<close>

type_synonym TEEC_Result = u32

abbreviation (input) TEEC_SUCCESS :: TEEC_Result where "TEEC_SUCCESS \<equiv> 0x00000000"

abbreviation (input) TEEC_NONE :: u32 where "TEEC_NONE \<equiv> 0"
abbreviation (input) TEEC_VALUE_INPUT :: u32 where "TEEC_VALUE_INPUT \<equiv> 1"
abbreviation (input) TEEC_VALUE_OUTPUT :: u32 where "TEEC_VALUE_OUTPUT \<equiv> 2"
abbreviation (input) TEEC_VALUE_INOUT :: u32 where "TEEC_VALUE_INOUT \<equiv> 3"
abbreviation (input) TEEC_MEMREF_TEMP_INPUT :: u32 where "TEEC_MEMREF_TEMP_INPUT \<equiv> 5"
abbreviation (input) TEEC_MEMREF_TEMP_OUTPUT :: u32 where "TEEC_MEMREF_TEMP_OUTPUT \<equiv> 6"
abbreviation (input) TEEC_MEMREF_TEMP_INOUT :: u32 where "TEEC_MEMREF_TEMP_INOUT \<equiv> 7"

definition TEEC_PARAM_TYPES :: "u32 \<Rightarrow> u32 \<Rightarrow> u32 \<Rightarrow> u32 \<Rightarrow> u32" where
  "TEEC_PARAM_TYPES p0 p1 p2 p3 = p0 OR push_bit 4 p1 OR push_bit 8 p2 OR push_bit 12 p3"

definition TEEC_PARAM_TYPE_GET :: "u32 \<Rightarrow> nat \<Rightarrow> u32" where
  "TEEC_PARAM_TYPE_GET p i = drop_bit (i * 4) p AND 0xF"

text \<open>As for the internal API, the alternatives of the union are kept side by side.\<close>

record TEEC_Parameter =
  op_a :: u32
  op_b :: u32
  tmpref_buffer :: ptr
  tmpref_size :: u64

record TEEC_Operation =
  paramTypes :: u32
  op_params :: "TEEC_Parameter list"

text \<open>What \<^verbatim>\<open>memset\<close> leaves of an operation.\<close>

definition zero_operation :: TEEC_Operation where
  "zero_operation =
     \<lparr>paramTypes = 0, op_params = replicate 4 \<lparr>op_a = 0, op_b = 0, tmpref_buffer = 0, tmpref_size = 0\<rparr>\<rparr>"

section \<open>Parameters for the trusted application\<close>

definition prepare_type :: "u32 \<Rightarrow> u32" where
  "prepare_type t =
     (if t = TEEC_VALUE_INPUT then TEE_PARAM_TYPE_VALUE_INPUT
      else if t = TEEC_VALUE_OUTPUT then TEE_PARAM_TYPE_VALUE_OUTPUT
      else if t = TEEC_VALUE_INOUT then TEE_PARAM_TYPE_VALUE_INOUT
      else if t = TEEC_MEMREF_TEMP_INPUT then TEE_PARAM_TYPE_MEMREF_INPUT
      else if t = TEEC_MEMREF_TEMP_OUTPUT then TEE_PARAM_TYPE_MEMREF_OUTPUT
      else if t = TEEC_MEMREF_TEMP_INOUT then TEE_PARAM_TYPE_MEMREF_INOUT
      else TEE_PARAM_TYPE_NONE)"

text \<open>
  One parameter; \<open>p\<close> is what is on the stack before, whose pointer the two zeros written to the
  value overlay. The size is cut to 32 bits, for an output before the block is allocated, for an
  input behind it.
\<close>

definition prepare_param ::
    "('d, 'pk) agent_env \<Rightarrow> u32 \<Rightarrow> TEEC_Parameter \<Rightarrow> TEE_Param \<Rightarrow> world \<Rightarrow> (TEE_Param \<times> world) option" where
  "prepare_param env t q p w =
     (let p = p\<lparr>value_a := 0, value_b := 0, memref_buffer := 0\<rparr> in
      if t = TEE_PARAM_TYPE_VALUE_INPUT \<or> t = TEE_PARAM_TYPE_VALUE_INOUT then
        Some (p\<lparr>value_a := op_a q, value_b := op_b q\<rparr>, w)
      else if t = TEE_PARAM_TYPE_MEMREF_INPUT \<or> t = TEE_PARAM_TYPE_MEMREF_INOUT then
        (let size = tmpref_size q;
             (buffer, w) = malloc_block env w size in
         if buffer = 0 \<and> size \<noteq> 0 then None
         else
           Some (p\<lparr>memref_size := ucast size, memref_buffer := buffer\<rparr>,
             w\<lparr>w_memory := copy_bytes (w_memory w) buffer (peek (w_memory w) (tmpref_buffer q) (unat size))\<rparr>))
      else if t = TEE_PARAM_TYPE_MEMREF_OUTPUT then
        (let size = (ucast (tmpref_size q) :: u32);
             (buffer, w) = malloc_block env w (ucast size) in
         if buffer = 0 \<and> size \<noteq> 0 then None
         else
           Some (p\<lparr>memref_size := size, memref_buffer := buffer\<rparr>,
             w\<lparr>w_memory := copy_bytes (w_memory w) buffer (replicate (unat size) 0)\<rparr>))
      else Some (p, w))"

text \<open>The second loop, over the parameters from number \<open>i\<close> on.\<close>

fun prepare_loop ::
    "('d, 'pk) agent_env \<Rightarrow> u32 \<Rightarrow> nat \<Rightarrow> TEEC_Parameter list \<Rightarrow> TEE_Param list \<Rightarrow> world \<Rightarrow>
     (TEE_Param list \<times> world) option" where
  "prepare_loop env types i (q # qs) (p # ps) w =
     (case prepare_param env (TEE_PARAM_TYPE_GET types i) q p w of
        None \<Rightarrow> None
      | Some (p, w) \<Rightarrow> map_option (apfst ((#) p)) (prepare_loop env types (i + 1) qs ps w))"
| "prepare_loop env types i _ _ w = Some ([], w)"

definition prepare_params ::
    "('d, 'pk) agent_env \<Rightarrow> TEEC_Operation \<Rightarrow> TEE_Param list \<Rightarrow> world \<Rightarrow> (u32 \<times> TEE_Param list \<times> world) option" where
  "prepare_params env operation params w =
     (let type = (\<lambda>i. prepare_type (TEEC_PARAM_TYPE_GET (paramTypes operation) i));
          types = TEE_PARAM_TYPES (type 0) (type 1) (type 2) (type 3) in
      map_option (Pair types) (prepare_loop env types 0 (op_params operation) params w))"

section \<open>Parameters back to the operation\<close>

definition writeback_param ::
    "u32 \<Rightarrow> TEE_Param \<Rightarrow> TEEC_Parameter \<Rightarrow> world \<Rightarrow> (TEEC_Parameter \<times> world) option" where
  "writeback_param t p q w =
     (if t = TEE_PARAM_TYPE_VALUE_OUTPUT \<or> t = TEE_PARAM_TYPE_VALUE_INOUT then
        Some (q\<lparr>op_a := value_a p, op_b := value_b p\<rparr>, w)
      else if t = TEE_PARAM_TYPE_MEMREF_OUTPUT \<or> t = TEE_PARAM_TYPE_MEMREF_INOUT then
        (let size = memref_size p;
             w = w\<lparr>w_memory := copy_bytes (w_memory w) (tmpref_buffer q)
                     (peek (w_memory w) (memref_buffer p) (unat size))\<rparr> in
         map_option (Pair (q\<lparr>tmpref_size := ucast size\<rparr>)) (free_block w (memref_buffer p)))
      else if t = TEE_PARAM_TYPE_MEMREF_INPUT then
        map_option (Pair q) (free_block w (memref_buffer p))
      else Some (q, w))"

fun writeback_loop ::
    "u32 \<Rightarrow> nat \<Rightarrow> TEE_Param list \<Rightarrow> TEEC_Parameter list \<Rightarrow> world \<Rightarrow> (TEEC_Parameter list \<times> world) option" where
  "writeback_loop types i (p # ps) (q # qs) w =
     (case writeback_param (TEE_PARAM_TYPE_GET types i) p q w of
        None \<Rightarrow> None
      | Some (q, w) \<Rightarrow> map_option (apfst ((#) q)) (writeback_loop types (i + 1) ps qs w))"
| "writeback_loop types i _ _ w = Some ([], w)"

definition writeback_params ::
    "TEEC_Operation \<Rightarrow> u32 \<Rightarrow> TEE_Param list \<Rightarrow> world \<Rightarrow> (TEEC_Operation \<times> world) option" where
  "writeback_params operation types params w =
     map_option (\<lambda>(qs, w). (operation\<lparr>op_params := qs\<rparr>, w)) (writeback_loop types 0 params (op_params operation) w)"

section \<open>The calls\<close>

text \<open>
  \<open>params\<close> is what is on the stack where the parameters are going to be. The blocks of a command that
  fails are not freed.
\<close>

definition TEEC_InitializeContext :: TEEC_Result where
  "TEEC_InitializeContext = TEEC_SUCCESS"

definition TEEC_OpenSession ::
    "('d, 'pk) agent_env \<Rightarrow> world \<Rightarrow> teep_agent_session \<Rightarrow> TEE_Param list \<Rightarrow> TEEC_Operation \<Rightarrow>
     (TEEC_Result \<times> world \<times> teep_agent_session option \<times> TEEC_Operation) option" where
  "TEEC_OpenSession env w raw params operation =
     (case prepare_params env operation params w of
        None \<Rightarrow> None
      | Some (types, params, w) \<Rightarrow>
          case TA_OpenSessionEntryPoint env w raw types of (r, session_ctx, w) \<Rightarrow>
            if r = TEE_SUCCESS then
              map_option (\<lambda>(operation, w). (r, w, session_ctx, operation)) (writeback_params operation types params w)
            else Some (r, w, session_ctx, operation))"

definition TEEC_CloseSession :: "world \<Rightarrow> teep_agent_session option \<Rightarrow> world option" where
  "TEEC_CloseSession w session_ctx = TA_CloseSessionEntryPoint w session_ctx"

text \<open>The outer \<open>None\<close> is a command that does not return.\<close>

definition TEEC_InvokeCommand ::
    "('d, 'pk) agent_env \<Rightarrow> world \<Rightarrow> teep_agent_session \<Rightarrow> u32 \<Rightarrow> TEE_Param list \<Rightarrow> TEEC_Operation \<Rightarrow>
     (TEEC_Result \<times> world \<times> teep_agent_session \<times> TEEC_Operation) option option" where
  "TEEC_InvokeCommand env w session_ctx commandID params operation =
     (case prepare_params env operation params w of
        None \<Rightarrow> Some None
      | Some (types, params, w) \<Rightarrow>
          case TA_InvokeCommandEntryPoint env w session_ctx commandID types params of
            None \<Rightarrow> None
          | Some None \<Rightarrow> Some None
          | Some (Some (r, w, session_ctx, params)) \<Rightarrow>
              Some (if r = TEE_SUCCESS then
                      map_option (\<lambda>(operation, w). (r, w, session_ctx, operation))
                        (writeback_params operation types params w)
                    else Some (r, w, session_ctx, operation)))"

end
