(* ===== verification/Broker.thy ===== *)
theory Broker
  imports Teec_Pc
begin

text \<open>
  The broker, \<^verbatim>\<open>teep-broker-app/teep-broker.c\<close>: it opens a session of the agent, hands it the options
  of the command line, and does the tasks the agent gives it until there are none. The network is a
  parameter; what it brings is put into one static buffer.
\<close>

section \<open>The network\<close>

text \<open>
  A request gives its result, what it has put into the buffer for the answer, and the new state of
  the network. The outer \<open>None\<close> is a request that does not end, the inner one undefined behaviour.
  The arguments are the address, the data of a post, and the size of the buffer.
\<close>

type_synonym http_answer = "(int \<times> u8 list) option option"

record 'n network =
  net_post :: "'n \<Rightarrow> u8 list \<Rightarrow> u8 list \<Rightarrow> nat \<Rightarrow> http_answer \<times> 'n"
  net_get :: "'n \<Rightarrow> u8 list \<Rightarrow> nat \<Rightarrow> http_answer \<times> 'n"

section \<open>The state\<close>

text \<open>
  Where things are: the static buffer for what is received, the two arrays of the task on the stack,
  and the two strings of the command line; then what a run is given besides.
\<close>

record broker_layout =
  http_res_buf :: ptr
  task_uri :: ptr
  task_post_data :: ptr
  tam_uri_string :: ptr
  talist_string :: ptr

definition http_res_buf_size :: nat where "http_res_buf_size = 6 * 1024 * 1024"

record ('d, 'pk, 'n) broker_env =
  dev_env :: "('d, 'pk) agent_env"
  dev_net :: "'n network"
  dev_layout :: broker_layout
  stack_params :: "TEE_Param list"

text \<open>The world the agent shares, its session, and the network.\<close>

record 'n broker_ctx =
  dev_world :: world
  dev_session :: teep_agent_session
  net_state :: 'n

text \<open>The fields of a task that are not in memory.\<close>

record fetched_task =
  task_command :: u32
  task_post_data_len :: u64

section \<open>The command line\<close>

record cmdline =
  opt_uri :: "u8 list"
  opt_talist :: "u8 list"
  opt_cose :: bool

definition default_cmdline :: cmdline where
  "default_cmdline =
     \<lparr>opt_uri = ascii ''http://127.0.0.1:3000/api/tam'', opt_talist = [], opt_cose = False\<rparr>"

text \<open>
  \<open>lws_cmdline_option\<close> gives the text behind an option that is there; \<open>None\<close> is the exit of
  \<^verbatim>\<open>usage\<close>.
\<close>

definition cmdline_parse :: "(string \<Rightarrow> u8 list option) \<Rightarrow> cmdline \<Rightarrow> cmdline option" where
  "cmdline_parse lws_cmdline_option c =
     (if lws_cmdline_option ''--help'' \<noteq> None then None
      else
        let c = (case lws_cmdline_option ''--tamurl'' of None \<Rightarrow> c | Some v \<Rightarrow> c\<lparr>opt_uri := v\<rparr>);
            c = (case lws_cmdline_option ''--cose'' of None \<Rightarrow> c | Some v \<Rightarrow> c\<lparr>opt_cose := True\<rparr>);
            c = (case lws_cmdline_option ''--talist'' of None \<Rightarrow> c | Some v \<Rightarrow> c\<lparr>opt_talist := v\<rparr>) in
        Some c)"

section \<open>Calls of the agent\<close>

text \<open>The length of the C string at an address: it is not there when no NUL is found.\<close>

partial_function (option) strlen :: "memory \<Rightarrow> ptr \<Rightarrow> nat option" where
  "strlen m p = (if m p = 0 then Some 0
      else Option.bind (strlen m (p + 1)) (\<lambda>n. Some (Suc n)))"

declare strlen.simps [code]

text \<open>
  A result of a call is the \<^verbatim>\<open>int\<close> of its code, negative for all errors. The outer \<open>None\<close> is a call
  that does not return, the inner one undefined behaviour.
\<close>

type_synonym 'a outcome = "'a option option"

definition invoke ::
    "('d, 'pk, 'n) broker_env \<Rightarrow> u32 \<Rightarrow> TEEC_Operation \<Rightarrow> 'n broker_ctx \<Rightarrow>
     (TEEC_Result \<times> TEEC_Operation \<times> 'n broker_ctx) outcome" where
  "invoke env commandID operation ctx =
     map_option (map_option (\<lambda>(r, w, s, operation). (r, operation, ctx\<lparr>dev_world := w, dev_session := s\<rparr>)))
       (TEEC_InvokeCommand (dev_env env) (dev_world ctx) (dev_session ctx) commandID (stack_params env) operation)"

definition option_operation :: "u32 \<Rightarrow> ptr \<Rightarrow> u64 \<Rightarrow> TEEC_Operation" where
  "option_operation option value len =
     (let ps = op_params zero_operation in
      zero_operation\<lparr>paramTypes := TEEC_PARAM_TYPES TEEC_VALUE_INPUT TEEC_MEMREF_TEMP_INPUT TEEC_NONE TEEC_NONE,
        op_params := ps[0 := (ps ! 0)\<lparr>op_a := option, op_b := 0\<rparr>,
                        1 := (ps ! 1)\<lparr>tmpref_buffer := value, tmpref_size := len\<rparr>]\<rparr>)"

definition set_agent_dev_option ::
    "('d, 'pk, 'n) broker_env \<Rightarrow> u32 \<Rightarrow> ptr \<Rightarrow> 'n broker_ctx \<Rightarrow> (int \<times> 'n broker_ctx) outcome" where
  "set_agent_dev_option env option value ctx =
     (case strlen (w_memory (dev_world ctx)) value of
        None \<Rightarrow> Some None
      | Some len \<Rightarrow>
          map_option (map_option (\<lambda>(n, op, ctx). (sint n, ctx)))
            (invoke env TEEP_AGENT_SET_DEV_OPTION (option_operation option value (of_nat (len + 1))) ctx))"

definition task_done_operation :: "ptr \<Rightarrow> u64 \<Rightarrow> TEEC_Operation" where
  "task_done_operation in_buf in_len =
     (let ps = op_params zero_operation in
      zero_operation\<lparr>paramTypes := TEEC_PARAM_TYPES TEEC_MEMREF_TEMP_INPUT TEEC_NONE TEEC_NONE TEEC_NONE,
        op_params := ps[0 := (ps ! 0)\<lparr>tmpref_buffer := in_buf, tmpref_size := in_len\<rparr>]\<rparr>)"

definition agent_broker_task_done ::
    "('d, 'pk, 'n) broker_env \<Rightarrow> ptr \<Rightarrow> u64 \<Rightarrow> 'n broker_ctx \<Rightarrow> (int \<times> 'n broker_ctx) outcome" where
  "agent_broker_task_done env in_buf in_len ctx =
     map_option (map_option (\<lambda>(n, op, ctx). (sint n, ctx)))
       (invoke env TEEP_AGENT_BROKER_TASK_DONE (task_done_operation in_buf in_len) ctx)"

definition query_operation :: "broker_layout \<Rightarrow> TEEC_Operation" where
  "query_operation l =
     (let ps = op_params zero_operation in
      zero_operation\<lparr>paramTypes :=
          TEEC_PARAM_TYPES TEEC_VALUE_OUTPUT TEEC_MEMREF_TEMP_OUTPUT TEEC_MEMREF_TEMP_OUTPUT TEEC_NONE,
        op_params := ps
          [1 := (ps ! 1)\<lparr>tmpref_buffer := task_uri l, tmpref_size := of_nat TEEP_MAX_URI_LEN\<rparr>,
           2 := (ps ! 2)\<lparr>tmpref_buffer := task_post_data l, tmpref_size := of_nat TEEP_MAX_MESSAGE_LEN\<rparr>]\<rparr>)"

text \<open>The address must end with a NUL; the one read is the byte before the first when it is empty.\<close>

definition agent_query_next_broker_task ::
    "('d, 'pk, 'n) broker_env \<Rightarrow> 'n broker_ctx \<Rightarrow> (int \<times> fetched_task \<times> 'n broker_ctx) outcome" where
  "agent_query_next_broker_task env ctx =
     map_option (map_option (\<lambda>(n, op, ctx).
       let task = \<lparr>task_command = op_a (op_params op ! 0), task_post_data_len = tmpref_size (op_params op ! 2)\<rparr> in
       if n \<noteq> TEEC_SUCCESS then (sint n, task, ctx)
       else
         let uri_len = tmpref_size (op_params op ! 1) in
         if w_memory (dev_world ctx) (task_uri (dev_layout env) + (uri_len - 1)) \<noteq> 0 then (-1, task, ctx)
         else (sint n, task, ctx)))
       (invoke env TEEP_AGENT_QUERY_NEXT_BROKER_TASK (query_operation (dev_layout env)) ctx)"

section \<open>The tasks\<close>

text \<open>What has been received is put into the static buffer, whatever the result is.\<close>

definition take_answer ::
    "('d, 'pk, 'n) broker_env \<Rightarrow> http_answer \<times> 'n \<Rightarrow> 'n broker_ctx \<Rightarrow> (int \<times> 'n broker_ctx) outcome" where
  "take_answer env answer ctx =
     (case answer of
        (None, _) \<Rightarrow> None
      | (Some None, _) \<Rightarrow> Some None
      | (Some (Some (n, bytes)), st) \<Rightarrow>
          let w = dev_world ctx;
              w = w\<lparr>w_memory := copy_bytes (w_memory w) (http_res_buf (dev_layout env)) bytes\<rparr>;
              ctx = ctx\<lparr>dev_world := w, net_state := st\<rparr> in
          if n < 0 then Some (Some (-1, ctx))
          else agent_broker_task_done env (http_res_buf (dev_layout env)) (of_nat (length bytes)) ctx)"

definition string_at :: "memory \<Rightarrow> ptr \<Rightarrow> u8 list option" where
  "string_at m p = map_option (peek m p) (strlen m p)"

definition broker_http_post ::
    "('d, 'pk, 'n) broker_env \<Rightarrow> fetched_task \<Rightarrow> 'n broker_ctx \<Rightarrow> (int \<times> 'n broker_ctx) outcome" where
  "broker_http_post env task ctx =
     (let m = w_memory (dev_world ctx) in
      case string_at m (task_uri (dev_layout env)) of
        None \<Rightarrow> Some None
      | Some url \<Rightarrow>
          take_answer env
            (net_post (dev_net env) (net_state ctx) url
              (peek m (task_post_data (dev_layout env)) (unat (task_post_data_len task))) http_res_buf_size) ctx)"

definition broker_http_get ::
    "('d, 'pk, 'n) broker_env \<Rightarrow> fetched_task \<Rightarrow> 'n broker_ctx \<Rightarrow> (int \<times> 'n broker_ctx) outcome" where
  "broker_http_get env task ctx =
     (case string_at (w_memory (dev_world ctx)) (task_uri (dev_layout env)) of
        None \<Rightarrow> Some None
      | Some url \<Rightarrow> take_answer env (net_get (dev_net env) (net_state ctx) url http_res_buf_size) ctx)"

section \<open>The loop\<close>

text \<open>One round: \<open>Inl\<close> the result of the loop, or \<open>Inr\<close> what it goes on with.\<close>

definition loop_round :: "('d, 'pk, 'n) broker_env \<Rightarrow> 'n broker_ctx \<Rightarrow> ((int + unit) \<times> 'n broker_ctx) outcome" where
  "loop_round env ctx =
     (case agent_query_next_broker_task env ctx of
        None \<Rightarrow> None
      | Some None \<Rightarrow> Some None
      | Some (Some (n, task, ctx)) \<Rightarrow>
          if n < 0 then Some (Some (Inl (-1), ctx))
          else if task_command task = command_value BROKER_FINISH then Some (Some (Inl 0, ctx))
          else
            let done = map_option (map_option (\<lambda>(n, ctx). (if n < 0 then Inl (-1) else Inr (), ctx))) in
            if task_command task = command_value BROKER_HTTP_POST then done (broker_http_post env task ctx)
            else if task_command task = command_value BROKER_HTTP_GET then done (broker_http_get env task ctx)
            else Some (Some (Inl (-1), ctx)))"

partial_function (option) loop_tasks :: "('d, 'pk, 'n) broker_env \<Rightarrow> 'n broker_ctx \<Rightarrow> (int \<times> 'n broker_ctx) outcome" where
  "loop_tasks env ctx =
     (case loop_round env ctx of
        None \<Rightarrow> None
      | Some x \<Rightarrow>
          (case x of
             None \<Rightarrow> Some None
           | Some y \<Rightarrow>
               (case fst y of
                  Inl r \<Rightarrow> Some (Some (r, snd y))
                | Inr _ \<Rightarrow> loop_tasks env (snd y))))"

declare loop_tasks.simps [code]

text \<open>The results of the two options are not looked at.\<close>

definition loop_teep :: "('d, 'pk, 'n) broker_env \<Rightarrow> 'n broker_ctx \<Rightarrow> (int \<times> 'n broker_ctx) outcome" where
  "loop_teep env ctx =
     (case set_agent_dev_option env AGENT_OPTION_SET_TAM_URI (tam_uri_string (dev_layout env)) ctx of
        None \<Rightarrow> None
      | Some None \<Rightarrow> Some None
      | Some (Some (_, ctx)) \<Rightarrow>
          case set_agent_dev_option env AGENT_OPTION_SET_CURRENT_TA_LIST (talist_string (dev_layout env)) ctx of
            None \<Rightarrow> None
          | Some None \<Rightarrow> Some None
          | Some (Some (_, ctx)) \<Rightarrow> loop_tasks env ctx)"

definition broker_ctx_init ::
    "('d, 'pk, 'n) broker_env \<Rightarrow> teep_agent_session \<Rightarrow> world \<Rightarrow> 'n \<Rightarrow> (int \<times> 'n broker_ctx option \<times> world) option" where
  "broker_ctx_init env raw w st =
     (if TEEC_InitializeContext \<noteq> TEEC_SUCCESS then Some (-1, None, w)
      else
        case TEEC_OpenSession (dev_env env) w raw (stack_params env) zero_operation of
          None \<Rightarrow> None
        | Some (r, w, session_ctx, op) \<Rightarrow>
            if r \<noteq> TEEC_SUCCESS then Some (-1, None, w)
            else
              Some (0, map_option (\<lambda>s. \<lparr>dev_world = w, dev_session = s, net_state = st\<rparr>) session_ctx, w))"

definition broker_ctx_destroy :: "'n broker_ctx \<Rightarrow> world option" where
  "broker_ctx_destroy ctx = TEEC_CloseSession (dev_world ctx) (Some (dev_session ctx))"

text \<open>The result of the loop is not looked at either.\<close>

definition broker_main ::
    "('d, 'pk, 'n) broker_env \<Rightarrow> teep_agent_session \<Rightarrow> world \<Rightarrow> 'n \<Rightarrow> (int \<times> world) outcome" where
  "broker_main env raw w st =
     (case broker_ctx_init env raw w st of
        None \<Rightarrow> Some None
      | Some (n, None, w) \<Rightarrow> Some (Some (-1, w))
      | Some (n, Some ctx, w) \<Rightarrow>
          case loop_teep env ctx of
            None \<Rightarrow> None
          | Some None \<Rightarrow> Some None
          | Some (Some (_, ctx)) \<Rightarrow> Some (map_option (Pair 0) (broker_ctx_destroy ctx)))"

end
