(* ===== verification/Agent_Heap.thy ===== *)
theory Agent_Heap
  imports Agent_Session
begin

text \<open>
  The heap of the agent: what is assumed of the allocator, when the pointers to the stored manifests
  are in order, and what storing and adding the manifests of an update does to the blocks. The
  bytes of a stored manifest are the ones whose signature has been checked.
\<close>

section \<open>Blocks\<close>

definition block_bytes :: "ptr \<times> u64 \<Rightarrow> ptr set" where
  "block_bytes b = {a. unat (a - fst b) < unat (snd b)}"

text \<open>\<^verbatim>\<open>malloc\<close> fails or gives a block that is apart from the live ones.\<close>

definition malloc_ok :: "('d, 'pk) agent_env \<Rightarrow> bool" where
  "malloc_ok env \<longleftrightarrow>
     (\<forall>bs n. env_malloc env bs n \<noteq> 0 \<longrightarrow>
        (\<forall>b \<in> set bs. env_malloc env bs n \<noteq> fst b \<and>
           block_bytes (env_malloc env bs n, n) \<inter> block_bytes b = {}))"

definition heap_ok :: "world \<Rightarrow> bool" where
  "heap_ok w \<longleftrightarrow>
     0 \<notin> fst ` set (w_blocks w) \<and>
     (\<forall>b \<in> set (w_blocks w). \<forall>c \<in> set (w_blocks w). b \<noteq> c \<longrightarrow>
        fst b \<noteq> fst c \<and> block_bytes b \<inter> block_bytes c = {})"

text \<open>A block is still live, with the same bytes.\<close>

definition survives :: "world \<Rightarrow> world \<Rightarrow> ptr \<times> u64 \<Rightarrow> bool" where
  "survives w w' b \<longleftrightarrow>
     b \<in> set (w_blocks w') \<and> (\<forall>a \<in> block_bytes b. w_memory w' a = w_memory w a)"

lemma survives_trans: "survives w w1 b \<Longrightarrow> survives w1 w2 b \<Longrightarrow> survives w w2 b"
  by (simp add: survives_def)

lemma peek_cong: "(\<And>a. unat (a - p) < n \<Longrightarrow> m a = m' a) \<Longrightarrow> n \<le> 2 ^ 64 \<Longrightarrow> peek m p n = peek m' p n"
  by (rule nth_equalityI) (simp_all add: nth_peek)

lemma survives_peek: "survives w w' (p, n) \<Longrightarrow> peek (w_memory w') p (unat n) = peek (w_memory w) p (unat n)"
  using unat_ptr_less [of n] by (intro peek_cong) (auto simp: survives_def block_bytes_def)

lemma copy_bytes_at:
  "length bs < 2 ^ 64 \<Longrightarrow> copy_bytes m p bs a = (if unat (a - p) < length bs then bs ! unat (a - p) else m a)"
  by (simp add: copy_bytes_def word_less_nat_alt)

lemma peek_copy_bytes:
  assumes "length bs < 2 ^ 64"
  shows "peek (copy_bytes m p bs) p (length bs) = bs"
  using assms by (intro nth_equalityI) (simp_all add: nth_peek copy_bytes_at)

lemma copy_bytes_outside: "a \<notin> block_bytes (p, n) \<Longrightarrow> length bs = unat n \<Longrightarrow> copy_bytes m p bs a = m a"
  using unat_ptr_less [of n] by (simp add: copy_bytes_at block_bytes_def)

section \<open>Operations on the heap\<close>

lemma heap_ok_subset: "heap_ok w \<Longrightarrow> set (w_blocks w') \<subseteq> set (w_blocks w) \<Longrightarrow> heap_ok w'"
  unfolding heap_ok_def by blast

lemma heap_ok_updates [simp]:
  "heap_ok (w\<lparr>suit_manifests := es\<rparr>) = heap_ok w" "heap_ok (w\<lparr>w_files := fs\<rparr>) = heap_ok w"
  by (simp_all add: heap_ok_def)

lemma free_block_facts:
  assumes "free_block w p = Some w'" and "heap_ok w"
  shows "heap_ok w'" and "w_memory w' = w_memory w" and "suit_manifests w' = suit_manifests w"
    and "set (w_blocks w') \<subseteq> set (w_blocks w)"
    and "b \<in> set (w_blocks w) \<Longrightarrow> fst b \<noteq> p \<Longrightarrow> survives w w' b"
proof -
  show sub: "set (w_blocks w') \<subseteq> set (w_blocks w)"
    using assms(1) by (auto simp: free_block_def split: if_split_asm)
  show "heap_ok w'" using assms(2) sub by (rule heap_ok_subset)
  show "w_memory w' = w_memory w" "suit_manifests w' = suit_manifests w"
    "b \<in> set (w_blocks w) \<Longrightarrow> fst b \<noteq> p \<Longrightarrow> survives w w' b"
    using assms(1) by (auto simp: free_block_def survives_def split: if_split_asm)
qed

text \<open>A block that is allocated and filled: \<open>bs\<close> are its bytes.\<close>

definition filled :: "world \<Rightarrow> ptr \<Rightarrow> u64 \<Rightarrow> u8 list \<Rightarrow> world" where
  "filled w q n bs = w\<lparr>w_blocks := (q, n) # w_blocks w, w_memory := copy_bytes (w_memory w) q bs\<rparr>"

lemma filled_simps [simp]:
  "w_blocks (filled w q n bs) = (q, n) # w_blocks w"
  "w_memory (filled w q n bs) = copy_bytes (w_memory w) q bs"
  "suit_manifests (filled w q n bs) = suit_manifests w"
  "w_files (filled w q n bs) = w_files w"
  by (simp_all add: filled_def)

lemma filled_facts:
  assumes "malloc_ok env" and "heap_ok w" and "env_malloc env (w_blocks w) n = q" and "q \<noteq> 0"
    and "length bs = unat n"
  shows "heap_ok (filled w q n bs)" and "peek (w_memory (filled w q n bs)) q (unat n) = bs"
    and "b \<in> set (w_blocks w) \<Longrightarrow> fst b \<noteq> q \<and> survives w (filled w q n bs) b"
proof -
  have new: "q \<noteq> fst b \<and> block_bytes (q, n) \<inter> block_bytes b = {}" if b: "b \<in> set (w_blocks w)" for b
    using assms(1,4) b unfolding malloc_ok_def assms(3) [symmetric] by blast
  then show "heap_ok (filled w q n bs)"
    using assms(2,4) by (fastforce simp: heap_ok_def)
  show "peek (w_memory (filled w q n bs)) q (unat n) = bs"
    using peek_copy_bytes [of bs "w_memory w" q] assms(5) unat_ptr_less [of n] by simp
  show "fst b \<noteq> q \<and> survives w (filled w q n bs) b" if b: "b \<in> set (w_blocks w)"
  proof -
    have "copy_bytes (w_memory w) q bs a = w_memory w a" if "a \<in> block_bytes b" for a
      using new [OF b] that assms(5) by (intro copy_bytes_outside [of a q n]) auto
    then show ?thesis using new [OF b] b by (auto simp: survives_def)
  qed
qed


lemma store_bstr_facts:
  assumes s: "store_bstr env w p buf len = Some (ok, w', p')" and "heap_ok w" and "malloc_ok env"
  shows "heap_ok w'" and "suit_manifests w' = suit_manifests w"
    and "ok \<Longrightarrow> ub_len p' = len \<and> (ub_ptr p', len) \<in> set (w_blocks w') \<and>
      peek (w_memory w') (ub_ptr p') (unat len) = peek (w_memory w) buf (unat len)"
    and "b \<in> set (w_blocks w) \<Longrightarrow> fst b \<noteq> ub_ptr p \<Longrightarrow>
      survives w w' b \<and> (ok \<longrightarrow> fst b \<noteq> ub_ptr p')"
proof -
  obtain w1 where f: "free_block w (ub_ptr p) = Some w1"
    and w': "(ok, w', p') =
      (if env_malloc env (w_blocks w1) len = 0 then (False, w1, p)
       else (True, filled w1 (env_malloc env (w_blocks w1) len) len (peek (w_memory w) buf (unat len)),
         \<lparr>ub_ptr = env_malloc env (w_blocks w1) len, ub_len = len\<rparr>))"
    using s
    by (auto simp: store_bstr_def UsefulBuf_IsNULLC_def malloc_block_def free_block_def filled_def Let_def
        split: if_split_asm)
  note free = free_block_facts [OF f assms(2)]
  note fill = filled_facts [OF assms(3) free(1), of len _ "peek (w_memory w) buf (unat len)"]
  show "heap_ok w'" "suit_manifests w' = suit_manifests w"
    "ok \<Longrightarrow> ub_len p' = len \<and> (ub_ptr p', len) \<in> set (w_blocks w') \<and>
      peek (w_memory w') (ub_ptr p') (unat len) = peek (w_memory w) buf (unat len)"
    using w' free fill by (auto split: if_split_asm)
  show "survives w w' b \<and> (ok \<longrightarrow> fst b \<noteq> ub_ptr p')"
    if b: "b \<in> set (w_blocks w)" "fst b \<noteq> ub_ptr p"
  proof -
    note sv = free(5) [OF b]
    then have "b \<in> set (w_blocks w1)" by (simp add: survives_def)
    then show ?thesis using w' sv fill(3) survives_trans [OF sv] by (auto split: if_split_asm)
  qed
qed

section \<open>Stored manifests\<close>

text \<open>These bytes have been accepted by the check of the signature, wherever they were then.\<close>

definition authentic :: "('d, 'pk) agent_env \<Rightarrow> u8 list \<Rightarrow> bool" where
  "authentic env bs \<longleftrightarrow>
     (\<exists>m r. bytes_of m r = bs \<and> suit_authenticate_envelope (env_crypto env) m r tc_singer_pubkey)"

definition stored :: "('d, 'pk) agent_env \<Rightarrow> world \<Rightarrow> ubuf \<Rightarrow> bool" where
  "stored env w e \<longleftrightarrow>
     (ub_ptr e, ub_len e) \<in> set (w_blocks w) \<and>
     authentic env (peek (w_memory w) (ub_ptr e) (unat (ub_len e)))"

lemma stored_survives: "stored env w e \<Longrightarrow> survives w w' (ub_ptr e, ub_len e) \<Longrightarrow> stored env w' e"
  using survives_peek [of w w' "ub_ptr e" "ub_len e"] by (simp add: stored_def) (simp add: survives_def)

text \<open>The two pointers are null or point to blocks of their own.\<close>

definition manifests_live :: "world \<Rightarrow> bool" where
  "manifests_live w \<longleftrightarrow>
     length (suit_manifests w) = 2 \<and>
     (\<forall>i < 2. let e = suit_manifests w ! i in
        ub_ptr e \<noteq> 0 \<longrightarrow>
        (ub_ptr e, ub_len e) \<in> set (w_blocks w) \<and>
        (\<forall>j < 2. j \<noteq> i \<longrightarrow> ub_ptr (suit_manifests w ! j) \<noteq> ub_ptr e))"

lemma manifests_liveD:
  assumes "manifests_live w" and "i < 2" and "ub_ptr (suit_manifests w ! i) \<noteq> 0"
  shows "(ub_ptr (suit_manifests w ! i), ub_len (suit_manifests w ! i)) \<in> set (w_blocks w)"
    and "j < 2 \<Longrightarrow> j \<noteq> i \<Longrightarrow> ub_ptr (suit_manifests w ! j) \<noteq> ub_ptr (suit_manifests w ! i)"
  using assms by (simp_all add: manifests_live_def Let_def)

lemma stored_not_null: "heap_ok w \<Longrightarrow> stored env w e \<Longrightarrow> ub_ptr e \<noteq> 0"
  by (force simp: heap_ok_def stored_def)

lemma bytes_of_buffer: "bytes_of m \<lparr>rbegin = p, rend = p + n\<rparr> = peek m p (unat n)"
  by (simp add: bytes_of_def span_def)

lemma store_envelope_heap:
  assumes "store_envelope env w index buf len = Some (ok, w')" and "heap_ok w" and "malloc_ok env"
  shows "heap_ok w'"
  using assms store_bstr_facts(1) [OF _ assms(2,3)]
  by (fastforce simp: store_envelope_def split: if_split_asm option.split_asm)

lemma store_envelope_stores:
  assumes s: "store_envelope env w index buf len = Some (True, w')" and h: "heap_ok w" "manifests_live w"
    and mal: "malloc_ok env"
  shows "index < 2" and "manifests_live w'" and "stored env w' (suit_manifests w' ! index)"
    and "j < 2 \<Longrightarrow> j \<noteq> index \<Longrightarrow> stored env w (suit_manifests w ! j) \<Longrightarrow> stored env w' (suit_manifests w' ! j)"
proof -
  show i: "index < 2" using s by (simp add: store_envelope_def split: if_split_asm)
  obtain w1 p where b: "store_bstr env w (suit_manifests w ! index) buf len = Some (True, w1, p)"
    and w': "w' = w1\<lparr>suit_manifests := (suit_manifests w1)[index := p]\<rparr>"
    and a: "suit_authenticate_envelope (env_crypto env) (w_memory w) \<lparr>rbegin = buf, rend = buf + len\<rparr> tc_singer_pubkey"
    using s by (auto simp: store_envelope_def split: if_split_asm option.split_asm)
  note st = store_bstr_facts [OF b h(1) mal]
  have new: "(ub_ptr p, ub_len p) \<in> set (w_blocks w1)" "ub_ptr p \<noteq> 0"
    using st(1,3) by (force simp: heap_ok_def)+
  have len: "length (suit_manifests w) = 2" using h(2) by (simp add: manifests_live_def)
  have "authentic env (peek (w_memory w1) (ub_ptr p) (unat (ub_len p)))"
    using a st(3) unfolding authentic_def bytes_of_buffer [symmetric] by force
  then show "stored env w' (suit_manifests w' ! index)"
    using new(1) st(2) i len by (simp add: w' stored_def)
  have other: "survives w w1 (ub_ptr (suit_manifests w ! j), ub_len (suit_manifests w ! j)) \<and>
      ub_ptr (suit_manifests w ! j) \<noteq> ub_ptr p"
    if j: "j < 2" "j \<noteq> index" "ub_ptr (suit_manifests w ! j) \<noteq> 0" for j
    using st(4) [OF manifests_liveD(1) [OF h(2) j(1,3)]] manifests_liveD(2) [OF h(2) j(1,3) i] j(2)
    by fastforce
  show "stored env w' (suit_manifests w' ! j)"
    if j: "j < 2" "j \<noteq> index" "stored env w (suit_manifests w ! j)"
  proof -
    have "survives w w1 (ub_ptr (suit_manifests w ! j), ub_len (suit_manifests w ! j))"
      using other [OF j(1,2) stored_not_null [OF h(1) j(3)]] by blast
    from stored_survives [OF j(3) this] show ?thesis using j(2) st(2) by (simp add: w' stored_def)
  qed
  show "manifests_live w'"
  proof -
    have "(ub_ptr (suit_manifests w ! j), ub_len (suit_manifests w ! j)) \<in> set (w_blocks w1)"
      if "j < 2" "j \<noteq> index" "ub_ptr (suit_manifests w ! j) \<noteq> 0" for j
      using other [OF that] by (simp add: survives_def)
    moreover have "ub_ptr (suit_manifests w ! j) \<noteq> ub_ptr p" if "j < 2" "j \<noteq> index" for j
      using other [OF that] new(2) by (cases "ub_ptr (suit_manifests w ! j) = 0") auto
    ultimately show ?thesis
      using len st(2) new i manifests_liveD(2) [OF h(2)]
      by (simp add: w' manifests_live_def Let_def nth_list_update) metis
  qed
qed

text \<open>The manifests of an update that have been stored.\<close>

lemma store_manifests_heap:
  "store_manifests env i es w = Some (ok, w') \<Longrightarrow> heap_ok w \<Longrightarrow> malloc_ok env \<Longrightarrow> heap_ok w'"
proof (induction es arbitrary: i w)
  case (Cons e es)
  then show ?case
    by (auto simp: store_suit_envelope_def dest: store_envelope_heap split: option.split_asm bool.split_asm)
qed simp

lemma store_manifests_stored:
  assumes "malloc_ok env"
  shows "store_manifests env i es w = Some (True, w') \<Longrightarrow> heap_ok w \<Longrightarrow> manifests_live w \<Longrightarrow>
    i \<le> 2 \<Longrightarrow> (\<forall>j < i. stored env w (suit_manifests w ! j)) \<Longrightarrow>
    manifests_live w' \<and> i + length es \<le> 2 \<and> (\<forall>j < i + length es. stored env w' (suit_manifests w' ! j))"
proof (induction es arbitrary: i w)
  case (Cons e es)
  then obtain w1 where s: "store_envelope env w i (ub_ptr e) (ub_len e) = Some (True, w1)"
    and r: "store_manifests env (i + 1) es w1 = Some (True, w')"
    by (auto simp: store_suit_envelope_def split: option.split_asm bool.split_asm)
  note st = store_envelope_stores [OF s Cons.prems(2,3) assms]
  have "\<forall>j < i + 1. stored env w1 (suit_manifests w1 ! j)"
    using st Cons.prems(5) by (auto simp: less_Suc_eq)
  from Cons.IH [OF r store_envelope_heap [OF s Cons.prems(2) assms] st(2) _ this] st(1)
  show ?case by simp
qed simp

section \<open>The table of a session\<close>

text \<open>The block of a stored manifest, and what it takes to keep the stored manifests.\<close>

definition manifest_block :: "world \<Rightarrow> nat \<Rightarrow> ptr \<times> u64" where
  "manifest_block w i = (ub_ptr (suit_manifests w ! i), ub_len (suit_manifests w ! i))"

definition keeps_manifests :: "world \<Rightarrow> world \<Rightarrow> bool" where
  "keeps_manifests w w' \<longleftrightarrow>
     suit_manifests w' = suit_manifests w \<and>
     (\<forall>i < 2. manifest_block w i \<in> set (w_blocks w) \<longrightarrow> survives w w' (manifest_block w i))"

lemma keeps_manifestsI:
  "suit_manifests w' = suit_manifests w \<Longrightarrow> (\<And>b. b \<in> set (w_blocks w) \<Longrightarrow> survives w w' b) \<Longrightarrow> keeps_manifests w w'"
  by (simp add: keeps_manifests_def)

lemma keeps_manifests_refl [simp]: "keeps_manifests w w"
  by (simp add: keeps_manifests_def survives_def)

lemma keeps_manifests_trans: "keeps_manifests w w1 \<Longrightarrow> keeps_manifests w1 w2 \<Longrightarrow> keeps_manifests w w2"
  unfolding keeps_manifests_def manifest_block_def by (auto intro: survives_trans simp: survives_def)

lemma manifests_live_keeps:
  assumes "manifests_live w" and "keeps_manifests w w'"
  shows "manifests_live w'"
  using assms by (auto simp: manifests_live_def keeps_manifests_def manifest_block_def survives_def Let_def)

text \<open>
  A manifest of the table was accepted, out of one of the stored envelopes, which is in its block and
  whose bytes have been authenticated.
\<close>

definition signed_manifest :: "('d, 'pk) agent_env \<Rightarrow> world \<Rightarrow> suit_manifest \<Rightarrow> bool" where
  "signed_manifest env w man \<longleftrightarrow>
     accepted man \<and>
     (\<exists>i < 2. stored env w (suit_manifests w ! i) \<and>
        man_envelope_bstr man =
          \<lparr>rbegin = ub_ptr (suit_manifests w ! i), rend = ub_ptr (suit_manifests w ! i) + ub_len (suit_manifests w ! i)\<rparr>)"

definition table_signed :: "('d, 'pk) agent_env \<Rightarrow> world \<Rightarrow> suit_context \<Rightarrow> bool" where
  "table_signed env w context \<longleftrightarrow>
     context_ok context \<and> (\<forall>i < n_manifest context. signed_manifest env w (manifests context ! i))"

lemma table_signed_init [simp]: "table_signed env w suit_context_init"
  using context_init_ok by (simp add: table_signed_def) (simp add: suit_context_init_def)

lemma signed_manifest_keeps:
  assumes "signed_manifest env w man" and k: "keeps_manifests w w'"
  shows "signed_manifest env w' man"
proof -
  obtain i where i: "i < 2" "stored env w (suit_manifests w ! i)" "accepted man"
    "man_envelope_bstr man =
       \<lparr>rbegin = ub_ptr (suit_manifests w ! i), rend = ub_ptr (suit_manifests w ! i) + ub_len (suit_manifests w ! i)\<rparr>"
    using assms(1) unfolding signed_manifest_def by blast
  have "survives w w' (manifest_block w i)"
    using k i(1,2) by (simp add: keeps_manifests_def stored_def manifest_block_def)
  then have "stored env w' (suit_manifests w ! i)"
    using stored_survives [OF i(2)] by (simp add: manifest_block_def)
  then show ?thesis using i k by (auto simp: signed_manifest_def keeps_manifests_def)
qed

lemma table_signed_keeps: "table_signed env w context \<Longrightarrow> keeps_manifests w w' \<Longrightarrow> table_signed env w' context"
  unfolding table_signed_def using signed_manifest_keeps by blast

lemma add_envelope_signed:
  assumes a: "suit_context_add_envelope (w_memory w) p \<lparr>rbegin = ub_ptr e, rend = ub_ptr e + ub_len e\<rparr> = (ok, p')"
    and t: "table_signed env w p" and e: "stored env w e" "e = suit_manifests w ! i" "i < 2"
  shows "table_signed env w p'"
proof -
  have ctx: "context_ok p" using t by (simp add: table_signed_def)
  note add = add_envelope_ok [OF a ctx]
  have "signed_manifest env w (manifests p' ! n_manifest p)" if ok: ok
  proof -
    from a ok obtain man where
      m: "suit_envelope_get_manifest (w_memory w) \<lparr>rbegin = ub_ptr e, rend = ub_ptr e + ub_len e\<rparr>
        (manifests p ! n_manifest p) = (True, man)" "manifests p' = (manifests p)[n_manifest p := man]"
        "n_manifest p \<noteq> SUIT_MANIFEST_MAX"
      by (cases rule: add_envelope_cases) auto
    have n: "n_manifest p < length (manifests p)" using ctx m(3) by (auto simp: context_ok_def)
    have "man_envelope_bstr man = \<lparr>rbegin = ub_ptr e, rend = ub_ptr e + ub_len e\<rparr>"
      using m(1) by (cases rule: get_manifest_cases) auto
    moreover have "manifest_shape (manifests p ! n_manifest p)" using ctx n by (auto simp: context_ok_def)
    ultimately show ?thesis
      using get_manifest_accepted [OF m(1)] e m(2) n by (auto simp: signed_manifest_def)
  qed
  then show ?thesis
    using t add by (auto simp: table_signed_def less_Suc_eq split: if_split_asm)
qed

lemma add_manifests_signed:
  "add_manifests w k p = (ok, p') \<Longrightarrow> table_signed env w p \<Longrightarrow> k \<le> 2 \<Longrightarrow>
     (\<forall>j < k. stored env w (suit_manifests w ! j)) \<Longrightarrow>
     table_signed env w p' \<and> (ok \<longrightarrow> n_manifest p' = n_manifest p + k)"
proof (induction k arbitrary: p)
  case (Suc k)
  obtain b p1 where a: "suit_context_add_envelope (w_memory w) p
      \<lparr>rbegin = ub_ptr (suit_manifests w ! k), rend = ub_ptr (suit_manifests w ! k) + ub_len (suit_manifests w ! k)\<rparr> = (b, p1)"
    by fastforce
  have t: "table_signed env w p1" using add_envelope_signed [OF a Suc.prems(2) _ refl] Suc.prems(3,4) by simp
  have "context_ok p" using Suc.prems(2) by (simp add: table_signed_def)
  note n = add_envelope_ok(2) [OF a this]
  show ?case
    using Suc.prems(1,3,4) Suc.IH [OF _ t] a n t by (cases b) (auto simp: Let_def)
qed simp

end
