(* ===== verification/Agent_Proofs.thy ===== *)
theory Agent_Proofs
  imports Agent_Heap
begin

text \<open>
  The agent as a state machine: an invariant of a session that every call of an entry point keeps,
  so that the interpreter only ever works on manifests whose envelopes have been authenticated; and
  the loop that chooses the next task of the broker, which always returns.
\<close>

section \<open>The invariant of a session\<close>

text \<open>
  The table is empty until an update has been accepted, what is in it is signed, and while the
  interpreter is at work it is in a good state and on this very table.
\<close>

definition before_update :: "agent_state \<Rightarrow> bool" where
  "before_update st \<longleftrightarrow>
     st \<in> {AGENT_INIT, AGENT_POSTING_INITIAL_REQUEST, AGENT_POSTING_QUERY_RESPONSE}"

definition at_work :: "agent_state \<Rightarrow> bool" where
  "at_work st \<longleftrightarrow> st \<in> {AGENT_RUN_SUIT_RUNNER, AGENT_FETCH_COMPONENT}"

lemma agent_phases [simp]:
  "before_update AGENT_INIT" "before_update AGENT_POSTING_INITIAL_REQUEST"
  "before_update AGENT_POSTING_QUERY_RESPONSE" "\<not> before_update AGENT_POSTING_SUCCESS"
  "\<not> before_update AGENT_POSTING_ERROR" "\<not> before_update AGENT_INIT_RUNNER"
  "\<not> before_update AGENT_RUN_SUIT_RUNNER" "\<not> before_update AGENT_FETCH_COMPONENT"
  "\<not> before_update AGENT_FINISH"
  "at_work AGENT_RUN_SUIT_RUNNER" "at_work AGENT_FETCH_COMPONENT" "\<not> at_work AGENT_INIT"
  "\<not> at_work AGENT_POSTING_INITIAL_REQUEST" "\<not> at_work AGENT_POSTING_QUERY_RESPONSE"
  "\<not> at_work AGENT_POSTING_SUCCESS" "\<not> at_work AGENT_POSTING_ERROR" "\<not> at_work AGENT_INIT_RUNNER"
  "\<not> at_work AGENT_FINISH"
  by (simp_all add: before_update_def at_work_def)

definition session_ok :: "('d, 'pk) agent_env \<Rightarrow> world \<Rightarrow> teep_agent_session \<Rightarrow> bool" where
  "session_ok env w s \<longleftrightarrow>
     table_signed env w (session_context s) \<and>
     (before_update (state s) \<longrightarrow> n_manifest (session_context s) = 0) \<and>
     (at_work (state s) \<longrightarrow>
        runner_ok (session_runner s) \<and> run_context (session_runner s) = session_context s)"

definition agent_ok :: "('d, 'pk) agent_env \<Rightarrow> world \<Rightarrow> teep_agent_session \<Rightarrow> bool" where
  "agent_ok env w s \<longleftrightarrow> heap_ok w \<and> manifests_live w \<and> session_ok env w s"

text \<open>Nothing the invariant speaks of has changed in the world.\<close>

definition same_heap :: "world \<Rightarrow> world \<Rightarrow> bool" where
  "same_heap w w' \<longleftrightarrow>
     w_blocks w' = w_blocks w \<and> suit_manifests w' = suit_manifests w \<and>
     (\<forall>b \<in> set (w_blocks w). survives w w' b)"

lemma same_heap_refl [simp]: "same_heap w w"
  by (simp add: same_heap_def survives_def)

lemma same_heap_trans: "same_heap w w1 \<Longrightarrow> same_heap w1 w2 \<Longrightarrow> same_heap w w2"
  by (auto simp: same_heap_def intro: survives_trans)

lemma same_heap_files [simp]: "same_heap w (w\<lparr>w_files := fs\<rparr>)"
  by (simp add: same_heap_def survives_def)

lemma same_heap_keeps: "same_heap w w' \<Longrightarrow> keeps_manifests w w'"
  by (rule keeps_manifestsI) (simp_all add: same_heap_def)

lemma session_ok_keeps: "session_ok env w s \<Longrightarrow> keeps_manifests w w' \<Longrightarrow> session_ok env w' s"
  by (auto simp: session_ok_def intro: table_signed_keeps)

lemma session_ok_same_heap: "session_ok env w s \<Longrightarrow> same_heap w w' \<Longrightarrow> session_ok env w' s"
  using session_ok_keeps same_heap_keeps by blast

lemma agent_ok_keeps: "agent_ok env w s \<Longrightarrow> keeps_manifests w w' \<Longrightarrow> heap_ok w' \<Longrightarrow> agent_ok env w' s"
  using session_ok_keeps manifests_live_keeps by (auto simp: agent_ok_def)

lemma agent_ok_same_heap: "agent_ok env w s \<Longrightarrow> same_heap w w' \<Longrightarrow> agent_ok env w' s"
  by (rule agent_ok_keeps [OF _ same_heap_keeps]) (auto simp: agent_ok_def same_heap_def heap_ok_def)

lemma session_ok_error: "session_ok env w s \<Longrightarrow> session_ok env w (teep_error s)"
  by (simp add: session_ok_def teep_error_def)

lemma session_ok_finish: "session_ok env w s \<Longrightarrow> session_ok env w (s\<lparr>state := AGENT_FINISH\<rparr>)"
  by (simp add: session_ok_def)

lemma session_ok_task [simp]:
  "session_ok env w (s\<lparr>task_buffer := t\<rparr>) = session_ok env w s"
  "session_ok env w (s\<lparr>on_going_task := b\<rparr>) = session_ok env w s"
  "session_ok env w (s\<lparr>token := t'\<rparr>) = session_ok env w s"
  "session_ok env w (s\<lparr>session_data_item_requested := d\<rparr>) = session_ok env w s"
  "session_ok env w (s\<lparr>tam_uri := u\<rparr>) = session_ok env w s"
  "session_ok env w (s\<lparr>requests := rs\<rparr>) = session_ok env w s"
  "session_ok env w (s\<lparr>n_requests := n\<rparr>) = session_ok env w s"
  by (simp_all add: session_ok_def)

section \<open>What the broker brings back\<close>

lemma handle_query_request_ok:
  assumes h: "handle_query_request env w s msg_tok b = Some (r, w', s')"
    and ok: "heap_ok w" "session_ok env w s" and mal: "malloc_ok env"
  shows "heap_ok w' \<and> session_ok env w' s'"
proof (cases "state s = AGENT_POSTING_INITIAL_REQUEST")
  case False
  then show ?thesis using h ok session_ok_error by (auto simp: handle_query_request_def)
next
  case True
  let ?n = "ub_len msg_tok"
  let ?p = "env_malloc env (w_blocks w) ?n"
  let ?bs = "peek (w_memory w) (ub_ptr msg_tok) (unat ?n)"
  have s0: "session_ok env w (s\<lparr>state := AGENT_POSTING_QUERY_RESPONSE\<rparr>)"
    using ok(2) True by (simp add: session_ok_def)
  show ?thesis
  proof (cases "?p = 0")
    case True
    then have "?n = 0" "w' = w\<lparr>w_memory := copy_bytes (w_memory w) 0 ?bs\<rparr>"
      using h \<open>state s = AGENT_POSTING_INITIAL_REQUEST\<close>
      by (auto simp: handle_query_request_def Let_def malloc_block_def split: if_split_asm)
    then have "w' = w" by (simp add: copy_bytes_def)
    then show ?thesis
      using h ok s0 True \<open>state s = AGENT_POSTING_INITIAL_REQUEST\<close>
      by (auto simp: handle_query_request_def Let_def malloc_block_def split: if_split_asm)
  next
    case False
    then have w': "w' = filled w ?p ?n ?bs"
      and s': "s' = s\<lparr>state := AGENT_POSTING_QUERY_RESPONSE, token := \<lparr>ub_ptr = ?p, ub_len = ?n\<rparr>,
        session_data_item_requested := data_item_requested b\<rparr>"
      using h \<open>state s = AGENT_POSTING_INITIAL_REQUEST\<close>
      by (simp_all add: handle_query_request_def Let_def malloc_block_def filled_def)
    note fill = filled_facts [OF mal ok(1) refl False length_peek, where m1 = "w_memory w" and p1 = "ub_ptr msg_tok"]
    have "session_ok env w' (s\<lparr>state := AGENT_POSTING_QUERY_RESPONSE\<rparr>)"
      unfolding w' using session_ok_keeps [OF s0 keeps_manifestsI] fill(3) by fastforce
    then show ?thesis using fill(1) by (simp add: w' s')
  qed
qed

lemma handle_update_ok:
  assumes h: "handle_update env w s b = Some (r, w', s')"
    and ok: "heap_ok w" "manifests_live w" "session_ok env w s" and mal: "malloc_ok env"
  shows "heap_ok w' \<and> session_ok env w' s'"
proof (cases "state s = AGENT_POSTING_QUERY_RESPONSE")
  case False
  then show ?thesis using h ok session_ok_error by (auto simp: handle_update_def)
next
  case True
  define es where "es = (case manifest_list b of None \<Rightarrow> [] | Some es \<Rightarrow> es)"
  obtain ok1 w1 where st: "store_manifests env 0 es w = Some (ok1, w1)"
    using h True by (auto simp: handle_update_def Let_def es_def split: option.split_asm)
  have hp: "heap_ok w1" by (rule store_manifests_heap [OF st ok(1) mal])
  have empty: "n_manifest (session_context s) = 0" "context_ok (session_context s)"
    using ok(3) True by (simp_all add: session_ok_def table_signed_def)
  then have t: "table_signed env w1 (session_context s)" by (simp add: table_signed_def)
  show ?thesis
  proof (cases ok1)
    case False
    then show ?thesis
      using h True st hp t empty
      by (simp add: handle_update_def Let_def es_def [symmetric] session_ok_def)
  next
    case stored: True
    have "length es \<le> 2" "\<forall>j < length es. stored env w1 (suit_manifests w1 ! j)"
      using store_manifests_stored [OF mal _ ok(1,2), of 0 es w1] st stored by simp_all
    moreover obtain ok2 ctx where a: "add_manifests w1 (length es) (session_context s) = (ok2, ctx)"
      by fastforce
    ultimately have t': "table_signed env w1 ctx" using add_manifests_signed [OF a t] by blast
    have "w' = w1 \<and> session_ok env w1 s'"
      using h True st stored a t'
      by (cases ok2) (auto simp: handle_update_def Let_def es_def [symmetric] session_ok_def teep_error_def)
    then show ?thesis using hp by simp
  qed
qed

lemma handle_tam_message_ok:
  assumes h: "handle_tam_message env w s buffer len = Some (r, w', s')"
    and ok: "heap_ok w" "manifests_live w" "session_ok env w s" and mal: "malloc_ok env"
  shows "heap_ok w' \<and> session_ok env w' s'"
  using h ok session_ok_error [OF ok(3)] session_ok_finish [OF ok(3)]
    handle_query_request_ok [OF _ ok(1,3) mal] handle_update_ok [OF _ ok mal]
  by (auto simp: handle_tam_message_def split: if_split_asm option.split_asm teep_body.split_asm)

lemma resume_runner_ok:
  "runner_ok (suit_runner_resume call_resumption r x) = runner_ok r"
  "run_context (suit_runner_resume call_resumption r x) = run_context r"
proof -
  have [simp]: "call_resumption f r' y = r'" for f :: resumption and r' and y :: 'a
    by (cases f) (simp add: fetch_complete_def)
  show "runner_ok (suit_runner_resume call_resumption r x) = runner_ok r"
    "run_context (suit_runner_resume call_resumption r x) = run_context r"
    by (auto simp: suit_runner_resume_def Let_def runner_ok_def binder_ok_def machine_ok_def in_table_def
        split: option.split next_action.split)
qed

lemma handle_component_download_ok:
  assumes "handle_component_download w s buffer len = (r, w', s')" and "session_ok env w s"
  shows "same_heap w w' \<and> session_ok env w' s'"
proof (cases "state s = AGENT_FETCH_COMPONENT")
  case False
  then show ?thesis using assms session_ok_error by (auto simp: handle_component_download_def)
next
  case True
  obtain fs where w': "w' = w\<lparr>w_files := fs\<rparr>"
    and s': "s' = s\<lparr>session_runner := suit_runner_resume call_resumption (session_runner s) (),
      state := AGENT_RUN_SUIT_RUNNER\<rparr>"
    using assms(1) True by (auto simp: handle_component_download_def Let_def split: prod.split_asm)
  have "session_ok env w s'"
    using assms(2) True by (simp add: s' session_ok_def resume_runner_ok)
  then show ?thesis unfolding w' using session_ok_same_heap same_heap_files by blast
qed

lemma broker_task_done_ok:
  assumes h: "broker_task_done env w s buffer len = Some (r, w', s')"
    and ok: "agent_ok env w s" and mal: "malloc_ok env"
  shows "heap_ok w' \<and> session_ok env w' s'"
proof -
  have ok': "heap_ok w" "manifests_live w" "session_ok env w s" using ok by (simp_all add: agent_ok_def)
  consider "w' = w" "s' = s"
    | s1 where "handle_tam_message env w s buffer len = Some (r, w', s1)" "s' = s1\<lparr>on_going_task := False\<rparr>"
    | s1 where "handle_component_download w s buffer len = (r, w', s1)" "s' = s1\<lparr>on_going_task := False\<rparr>"
    using h by (auto simp: broker_task_done_def split: if_split_asm broker_command.split_asm prod.split_asm)
  then show ?thesis
  proof cases
    case 1
    then show ?thesis using ok' by simp
  next
    case 2
    then show ?thesis using handle_tam_message_ok [OF _ ok' mal] by simp
  next
    case 3
    then show ?thesis
      using handle_component_download_ok [OF 3(1) ok'(3)] ok'(1)
      by (auto simp: same_heap_def heap_ok_def)
  qed
qed

section \<open>The next task of the broker\<close>

text \<open>The loop: how many more rounds a state can take before there is a task.\<close>

fun rounds_left :: "agent_state \<Rightarrow> nat" where
  "rounds_left AGENT_INIT_RUNNER = 2"
| "rounds_left AGENT_RUN_SUIT_RUNNER = 1"
| "rounds_left AGENT_INIT = 1"
| "rounds_left _ = 0"

text \<open>
  What the loop needs: a table in order, and at work a runner in order, on that table. What the
  rounds keep: the heap, and a session that is in order.
\<close>

definition keeps_session :: "world \<Rightarrow> teep_agent_session \<Rightarrow> world \<Rightarrow> teep_agent_session \<Rightarrow> bool" where
  "keeps_session w s w' s' \<longleftrightarrow>
     same_heap w w' \<and> w_memory w' = w_memory w \<and> session_context s' = session_context s \<and> token s' = token s \<and>
     requests s' = requests s \<and> n_requests s' = n_requests s"

lemma keeps_session_refl [simp]: "keeps_session w s w s"
  by (simp add: keeps_session_def)

lemma keeps_session_trans:
  "keeps_session w s w1 s1 \<Longrightarrow> keeps_session w1 s1 w2 s2 \<Longrightarrow> keeps_session w s w2 s2"
  by (auto simp: keeps_session_def intro: same_heap_trans)

lemma post_task_simps [simp]:
  "state (post_task s b) = state s" "on_going_task (post_task s b)"
  "session_ok env w (post_task s b) = session_ok env w s" "keeps_session w s w (post_task s b)"
  by (simp_all add: post_task_def Let_def keeps_session_def)

text \<open>The states in which a round is always defined.\<close>

definition safe_state :: "agent_state \<Rightarrow> bool" where
  "safe_state st \<longleftrightarrow>
     st \<notin> {AGENT_INIT_RUNNER, AGENT_RUN_SUIT_RUNNER, AGENT_FETCH_COMPONENT}"

definition good_query_round ::
    "('d, 'pk) agent_env \<Rightarrow> world \<Rightarrow> teep_agent_session \<Rightarrow> (world \<times> teep_agent_session) option option \<Rightarrow> bool" where
  "good_query_round env w s x \<longleftrightarrow>
     (case x of
        None \<Rightarrow> False
      | Some None \<Rightarrow>
          (state s = AGENT_INIT_RUNNER \<and> n_manifest (session_context s) = 0) \<or>
          (state s = AGENT_FETCH_COMPONENT \<and>
           TEEP_MAX_URI_LEN < span (fetch_uri (run_user (session_runner s))))
      | Some (Some (w', s')) \<Rightarrow>
          session_ok env w' s' \<and> keeps_session w s w' s' \<and> (safe_state (state s) \<longrightarrow> safe_state (state s')) \<and>
          (on_going_task s' \<or> rounds_left (state s') < rounds_left (state s)))"

lemma query_round_start:
  assumes "session_ok env w s" and st: "state s = AGENT_INIT_RUNNER"
  shows "good_query_round env w s (query_round env w s)"
proof (cases "n_manifest (session_context s) = 0")
  case True
  then have "suit_runner_init (env_image env) (w_memory w) (session_context s)
      SUIT_COMMAND_SEQUENCE_INSTALL (run_user (session_runner s)) = (None :: agent_runner option)"
    by (simp add: runner_init_defined)
  then have "start_runner env w s = None" by (simp add: start_runner_def)
  then show ?thesis using st True by (simp add: query_round_def good_query_round_def)
next
  case False
  then obtain r :: agent_runner where r: "suit_runner_init (env_image env) (w_memory w) (session_context s)
      SUIT_COMMAND_SEQUENCE_INSTALL (run_user (session_runner s)) = Some r"
    using start_defined [where 'u = agent_user and 'f = resumption, OF False] by metis
  have ctx: "context_ok (session_context s)" using assms(1) by (simp add: session_ok_def table_signed_def)
  note init = runner_init_ok(1,6) [OF r ctx]
  show ?thesis
    using assms(1) r st init
    by (simp add: query_round_def good_query_round_def start_runner_def session_ok_def keeps_session_def
        safe_state_def)
qed

lemma with_files_ok [simp]:
  "runner_ok (with_files fs r) = runner_ok r" "run_context (with_files fs r) = run_context r"
  by (auto simp: with_files_def runner_ok_def binder_ok_def machine_ok_def in_table_def split: next_action.split)

lemma query_round_run:
  assumes "session_ok env w s" and st: "state s = AGENT_RUN_SUIT_RUNNER"
  shows "good_query_round env w s (query_round env w s)"
proof -
  let ?r = "with_files (w_files w) (session_runner s)"
  have "runner_ok ?r" "run_context ?r = session_context s"
    using assms by (simp_all add: session_ok_def)
  then obtain r where r: "suit_runner_run (env_image env) (w_memory w)
      (suit_callbacks (env_literal env) (w_memory w)) ?r = Some (Some r)"
    "runner_ok r" "run_context r = session_context s"
    using agent.run_ends by metis
  obtain w' s' where a: "after_run w s r = (w', s')" by fastforce
  then have "w' = w\<lparr>w_files := user_fs (run_user r)\<rparr>" "session_context s' = session_context s"
    "session_runner s' = r" "token s' = token s" "requests s' = requests s" "n_requests s' = n_requests s"
    "state s' \<in> {AGENT_POSTING_SUCCESS, AGENT_FETCH_COMPONENT, AGENT_POSTING_ERROR}"
    by (auto simp: after_run_def Let_def teep_error_def split: if_split_asm)
  moreover from this have "session_ok env w s'"
    using assms r(2,3) by (auto simp: session_ok_def)
  ultimately show ?thesis
    using st r(1) a session_ok_same_heap [of env w s' w']
    by (auto simp: query_round_def good_query_round_def keeps_session_def safe_state_def)
qed

lemma query_round_fetch:
  assumes "session_ok env w s" and st: "state s = AGENT_FETCH_COMPONENT"
  shows "good_query_round env w s (query_round env w s)"
  using assms
  by (simp add: query_round_def good_query_round_def fetch_task_def Let_def keeps_session_def
      safe_state_def)

lemma query_round_good:
  assumes "session_ok env w s"
  shows "good_query_round env w s (query_round env w s)"
proof (cases "state s")
  case AGENT_INIT
  then show ?thesis using assms
    by (simp add: query_round_def good_query_round_def session_ok_def keeps_session_def safe_state_def)
next
  case AGENT_FINISH
  then show ?thesis using assms
    by (simp add: query_round_def good_query_round_def finish_task_def keeps_session_def safe_state_def)
qed (use assms query_round_start query_round_run query_round_fetch in
  \<open>simp_all add: query_round_def good_query_round_def safe_state_def\<close>)

text \<open>
  The loop always returns. What it returns is a task, or the undefined behaviour of the two places
  that have it: a start on an empty table, and a URI that is too long.
\<close>

lemma query_next_broker_task_ends:
  "session_ok env w s \<Longrightarrow>
     \<exists>x. query_next_broker_task env w s = Some x \<and>
       (safe_state (state s) \<longrightarrow> x \<noteq> None) \<and>
       (\<forall>w' s'. x = Some (w', s') \<longrightarrow> session_ok env w' s' \<and> keeps_session w s w' s' \<and> on_going_task s')"
proof (induction "rounds_left (state s)" arbitrary: w s rule: less_induct)
  case less
  show ?case
  proof (cases "on_going_task s")
    case True
    then show ?thesis using less.prems by (subst query_next_broker_task.simps) simp
  next
    case False
    note good = query_round_good [OF less.prems]
    then obtain x where x: "query_round env w s = Some x"
      by (cases "query_round env w s") (auto simp: good_query_round_def)
    show ?thesis
    proof (cases x)
      case None
      then have "\<not> safe_state (state s)" using good x by (auto simp: good_query_round_def safe_state_def)
      then show ?thesis using False x None by (subst query_next_broker_task.simps) simp
    next
      case (Some y)
      obtain w1 s1 where y: "y = (w1, s1)" by fastforce
      have g: "session_ok env w1 s1" "keeps_session w s w1 s1" "safe_state (state s) \<longrightarrow> safe_state (state s1)"
        "on_going_task s1 \<or> rounds_left (state s1) < rounds_left (state s)"
        using good x Some y by (simp_all add: good_query_round_def)
      have "query_next_broker_task env w s = query_next_broker_task env w1 s1"
        using False x Some y by (subst query_next_broker_task.simps) simp
      moreover have "\<exists>x. query_next_broker_task env w1 s1 = Some x \<and> (safe_state (state s1) \<longrightarrow> x \<noteq> None) \<and>
          (\<forall>w' s'. x = Some (w', s') \<longrightarrow> session_ok env w' s' \<and> keeps_session w1 s1 w' s' \<and> on_going_task s')"
      proof (cases "on_going_task s1")
        case True
        then show ?thesis using g(1) by (subst query_next_broker_task.simps) simp
      next
        case False
        then show ?thesis using less.hyps [OF _ g(1)] g(4) by blast
      qed
      ultimately show ?thesis using g(2,3) keeps_session_trans by metis
    qed
  qed
qed

text \<open>The loop in the states that post at once.\<close>

lemma query_first:
  assumes "\<not> on_going_task s" and "state s = AGENT_INIT"
  shows "query_next_broker_task env w s =
    Some (Some (w, post_task (s\<lparr>state := AGENT_POSTING_INITIAL_REQUEST\<rparr>) None))"
  using assms
  by (subst query_next_broker_task.simps, simp add: query_round_def)
    (subst query_next_broker_task.simps, simp add: query_round_def,
     subst query_next_broker_task.simps, simp)

lemma query_post:
  assumes "\<not> on_going_task s" and "query_round env w s = Some (Some (w', s'))" and "on_going_task s'"
  shows "query_next_broker_task env w s = Some (Some (w', s'))"
  using assms by (subst query_next_broker_task.simps, simp) (subst query_next_broker_task.simps, simp)

text \<open>
  From the start of the interpreter on, the loop ends with a result that is posted, or with a
  component that is to be downloaded.
\<close>

lemma query_step:
  "\<not> on_going_task s \<Longrightarrow> query_round env w s = Some (Some (w1, s1)) \<Longrightarrow>
     query_next_broker_task env w s = query_next_broker_task env w1 s1"
  by (subst query_next_broker_task.simps) simp

definition answers :: "(world \<times> teep_agent_session) option \<Rightarrow> bool" where
  "answers x \<longleftrightarrow>
     (case x of
        None \<Rightarrow> True
      | Some (w, s) \<Rightarrow>
          on_going_task s \<and>
          (state s \<in> {AGENT_POSTING_SUCCESS, AGENT_POSTING_ERROR} \<and> command (task_buffer s) = BROKER_HTTP_POST \<or>
           state s = AGENT_FETCH_COMPONENT \<and> command (task_buffer s) = BROKER_HTTP_GET))"

lemma query_answer:
  assumes idle: "\<not> on_going_task s"
    and "state s \<in> {AGENT_POSTING_SUCCESS, AGENT_POSTING_ERROR, AGENT_FETCH_COMPONENT}"
  shows "\<exists>x. query_next_broker_task env w s = Some x \<and> answers x \<and>
    (x = None \<longrightarrow> state s = AGENT_FETCH_COMPONENT \<and>
       TEEP_MAX_URI_LEN < span (fetch_uri (run_user (session_runner s))))"
proof (cases "fetch_task w s = None \<and> state s = AGENT_FETCH_COMPONENT")
  case True
  then have "query_next_broker_task env w s = Some None"
    using idle by (subst query_next_broker_task.simps) (simp add: query_round_def)
  then show ?thesis using True by (simp add: answers_def fetch_task_def Let_def split: if_split_asm)
next
  case False
  have post: "command (task_buffer (post_task s b)) = BROKER_HTTP_POST" for b
    by (simp add: post_task_def Let_def split: option.split prod.split)
  have "\<exists>s1. query_round env w s = Some (Some (w, s1)) \<and> on_going_task s1 \<and> answers (Some (w, s1))"
    using assms(2) False post
    by (auto simp: query_round_def answers_def fetch_task_def Let_def split: if_split_asm)
  then show ?thesis using query_post [OF idle] by blast
qed

lemma run_outcome:
  assumes "session_ok env w s" and st: "state s = AGENT_RUN_SUIT_RUNNER"
  shows "\<exists>w1 s1. query_round env w s = Some (Some (w1, s1)) \<and> on_going_task s1 = on_going_task s \<and>
    state s1 \<in> {AGENT_POSTING_SUCCESS, AGENT_POSTING_ERROR, AGENT_FETCH_COMPONENT}"
proof -
  have "runner_ok (with_files (w_files w) (session_runner s))" using assms by (simp add: session_ok_def)
  then obtain r where "suit_runner_run (env_image env) (w_memory w)
      (suit_callbacks (env_literal env) (w_memory w)) (with_files (w_files w) (session_runner s)) = Some (Some r)"
    using agent.run_ends by metis
  then show ?thesis using st by (simp add: query_round_def after_run_def Let_def teep_error_def)
qed

lemma run_answers:
  assumes "session_ok env w s" and "state s = AGENT_RUN_SUIT_RUNNER" and "\<not> on_going_task s"
  shows "\<exists>x. query_next_broker_task env w s = Some x \<and> answers x"
proof -
  obtain w1 s1 where r: "query_round env w s = Some (Some (w1, s1))" "on_going_task s1 = on_going_task s"
    "state s1 \<in> {AGENT_POSTING_SUCCESS, AGENT_POSTING_ERROR, AGENT_FETCH_COMPONENT}"
    using run_outcome [OF assms(1,2)] by blast
  then show ?thesis using query_step [OF assms(3) r(1)] query_answer [of s1] assms(3) by auto
qed

lemma update_answers:
  assumes ok: "session_ok env w s" and st: "state s = AGENT_INIT_RUNNER" and idle: "\<not> on_going_task s"
    and ne: "n_manifest (session_context s) \<noteq> 0"
  shows "\<exists>x. query_next_broker_task env w s = Some x \<and> answers x"
proof -
  have good: "good_query_round env w s (query_round env w s)" by (rule query_round_good [OF ok])
  obtain r :: agent_runner where "suit_runner_init (env_image env) (w_memory w) (session_context s)
      SUIT_COMMAND_SEQUENCE_INSTALL (run_user (session_runner s)) = Some r"
    using start_defined [where 'u = agent_user and 'f = resumption, OF ne] by metis
  then have q: "query_round env w s = Some (Some (w, s\<lparr>session_runner := r, state := AGENT_RUN_SUIT_RUNNER\<rparr>))"
    using st by (simp add: query_round_def start_runner_def)
  then have "session_ok env w (s\<lparr>session_runner := r, state := AGENT_RUN_SUIT_RUNNER\<rparr>)"
    using good by (simp add: good_query_round_def)
  from run_answers [OF this] show ?thesis using query_step [OF idle q] idle by simp
qed

section \<open>Entry points\<close>

lemma set_dev_option_ok:
  assumes "set_dev_option s option value = (r, s')"
  shows "session_ok env w s' = session_ok env w s"
  using assms by (auto simp: set_dev_option_def Let_def split: if_split_asm)

text \<open>The buffers of the output parameters are apart from the stored manifests.\<close>

definition clear_of_manifests :: "world \<Rightarrow> u32 \<Rightarrow> TEE_Param list \<Rightarrow> bool" where
  "clear_of_manifests w types params \<longleftrightarrow>
     (\<forall>k < length params. \<forall>i < 2.
        TEE_PARAM_TYPE_GET types k = TEE_PARAM_TYPE_MEMREF_OUTPUT \<longrightarrow> manifest_block w i \<in> set (w_blocks w) \<longrightarrow>
        block_bytes (memref_buffer (params ! k), ucast (memref_size (params ! k))) \<inter> block_bytes (manifest_block w i) = {})"

lemma copyout_keeps:
  assumes "copyout_param w (params ! k) bytes = Some (p', w')" and "clear_of_manifests w types params"
    and "k < length params" and "TEE_PARAM_TYPE_GET types k = TEE_PARAM_TYPE_MEMREF_OUTPUT"
  shows "keeps_manifests w w' \<and> w_blocks w' = w_blocks w"
proof -
  let ?p = "params ! k"
  have n: "length bytes \<le> unat (memref_size ?p)"
    and w': "w' = w\<lparr>w_memory := copy_bytes (w_memory w) (memref_buffer ?p) bytes\<rparr>"
    using assms(1) by (auto simp: copyout_param_def split: if_split_asm)
  have "copy_bytes (w_memory w) (memref_buffer ?p) bytes a = w_memory w a"
    if "i < 2" "manifest_block w i \<in> set (w_blocks w)" "a \<in> block_bytes (manifest_block w i)" for a i
  proof -
    have "a \<notin> block_bytes (memref_buffer ?p, ucast (memref_size ?p))"
      using assms(2-4) that unfolding clear_of_manifests_def by blast
    then show ?thesis
      using n unat_ptr_less [of "ucast (memref_size ?p)"] by (simp add: block_bytes_def copy_bytes_at unat_ucast_u32)
  qed
  then show ?thesis by (auto simp: keeps_manifests_def survives_def w')
qed

lemma clear_of_manifests_keeps:
  "clear_of_manifests w types params \<Longrightarrow> keeps_manifests w w' \<Longrightarrow> w_blocks w' = w_blocks w \<Longrightarrow>
     clear_of_manifests w' types params"
  by (simp add: clear_of_manifests_def keeps_manifests_def manifest_block_def)

lemma copy_task_keeps:
  assumes c: "copy_task w task params = Some (r, w', params')" and "length params = 4"
    and out: "clear_of_manifests w types params"
    and types: "TEE_PARAM_TYPE_GET types 1 = TEE_PARAM_TYPE_MEMREF_OUTPUT"
      "TEE_PARAM_TYPE_GET types 2 = TEE_PARAM_TYPE_MEMREF_OUTPUT"
  shows "keeps_manifests w w' \<and> w_blocks w' = w_blocks w"
proof -
  have par: "1 < length params" "2 < length params" using assms(2) by simp_all
  consider "w' = w"
    | p w1 bs where "copyout_param w (params ! 1) bs = Some (p, w1)" "w' = w1"
    | p w1 bs p' bs' where "copyout_param w (params ! 1) bs = Some (p, w1)"
        "copyout_param w1 (params ! 2) bs' = Some (p', w')"
    using c by (auto simp: copy_task_def Let_def split: option.split_asm prod.split_asm)
  then show ?thesis
  proof cases
    case 1
    then show ?thesis by simp
  next
    case 2
    then show ?thesis using copyout_keeps [OF 2(1) out par(1) types(1)] by simp
  next
    case 3
    note s1 = copyout_keeps [OF 3(1) out par(1) types(1)]
    then have "clear_of_manifests w1 types params" using clear_of_manifests_keeps [OF out] by blast
    from copyout_keeps [OF 3(2) this par(2) types(2)] show ?thesis using s1 keeps_manifests_trans by metis
  qed
qed

lemma query_types_outputs:
  "TEE_PARAM_TYPE_GET (TEE_PARAM_TYPES TEE_PARAM_TYPE_VALUE_OUTPUT TEE_PARAM_TYPE_MEMREF_OUTPUT
     TEE_PARAM_TYPE_MEMREF_OUTPUT TEE_PARAM_TYPE_NONE) k = TEE_PARAM_TYPE_MEMREF_OUTPUT" if "k = 1 \<or> k = 2"
  using that by (auto simp: TEE_PARAM_TYPES_def TEE_PARAM_TYPE_GET_def)

lemma query_call_ok:
  assumes h: "handle_TEEP_AGENT_QUERY_NEXT_BROKER_TASK env w s types params = Some (Some (r, w', s', params'))"
    and ok: "agent_ok env w s" and len: "length params = 4" and out: "clear_of_manifests w types params"
  shows "agent_ok env w' s'"
proof -
  have s: "session_ok env w s" using ok by (simp add: agent_ok_def)
  consider "w' = w" "s' = s"
    | w1 where "query_next_broker_task env w s = Some (Some (w1, s'))"
        "copy_task w1 (task_buffer s') params = Some (r, w', params')"
        "types = TEE_PARAM_TYPES TEE_PARAM_TYPE_VALUE_OUTPUT TEE_PARAM_TYPE_MEMREF_OUTPUT
           TEE_PARAM_TYPE_MEMREF_OUTPUT TEE_PARAM_TYPE_NONE"
    using h by (auto simp: handle_TEEP_AGENT_QUERY_NEXT_BROKER_TASK_def Let_def
        split: if_split_asm option.split_asm prod.split_asm)
  then show ?thesis
  proof cases
    case 1
    then show ?thesis using ok by simp
  next
    case 2
    have q: "session_ok env w1 s'" "same_heap w w1"
      using query_next_broker_task_ends [OF s] 2(1) by (auto simp: keeps_session_def)
    have same: "w_blocks w1 = w_blocks w" using q(2) by (simp add: same_heap_def)
    have "clear_of_manifests w1 types params"
      using clear_of_manifests_keeps [OF out same_heap_keeps [OF q(2)] same] .
    from copy_task_keeps [OF 2(2) len this] have kept: "keeps_manifests w1 w'" "w_blocks w' = w_blocks w1"
      unfolding 2(3) using query_types_outputs by blast+
    have "agent_ok env w1 s'"
      using q ok agent_ok_same_heap [OF ok q(2)] by (simp add: agent_ok_def)
    then show ?thesis
      using agent_ok_keeps [OF _ kept(1)] kept(2) by (auto simp: agent_ok_def heap_ok_def)
  qed
qed

lemma invoke_cases:
  assumes "TA_InvokeCommandEntryPoint env w s cmd types params = Some (Some (r, w', s', params'))"
  obtains (set_option) "handle_TEEP_AGENT_SET_DEV_OPTION w s types params = Some (r, s')" "w' = w"
  | (task_done) "handle_TEEP_AGENT_BROKER_TASK_DONE env w s types params = Some (r, w', s')"
  | (query) "handle_TEEP_AGENT_QUERY_NEXT_BROKER_TASK env w s types params = Some (Some (r, w', s', params'))"
  | (unknown) "w' = w" "s' = s"
proof (cases "cmd = TEEP_AGENT_SET_DEV_OPTION")
  case True
  then have "handle_TEEP_AGENT_SET_DEV_OPTION w s types params = Some (r, s') \<and> w' = w"
    using assms by (auto simp: TA_InvokeCommandEntryPoint_def)
  then show thesis using set_option by blast
next
  case other: False
  show thesis
  proof (cases "cmd = TEEP_AGENT_BROKER_TASK_DONE")
    case True
    then have "handle_TEEP_AGENT_BROKER_TASK_DONE env w s types params = Some (r, w', s')"
      using assms by (auto simp: TA_InvokeCommandEntryPoint_def)
    then show thesis by (rule task_done)
  next
    case False
    show thesis
    proof (cases "cmd = TEEP_AGENT_QUERY_NEXT_BROKER_TASK")
      case True
      then show thesis using assms query by (simp add: TA_InvokeCommandEntryPoint_def)
    next
      case neither: False
      then show thesis using assms other False unknown by (simp add: TA_InvokeCommandEntryPoint_def)
    qed
  qed
qed

lemma invoke_ok:
  assumes h: "TA_InvokeCommandEntryPoint env w s cmd types params = Some (Some (r, w', s', params'))"
    and ok: "agent_ok env w s" and mal: "malloc_ok env" and len: "length params = 4"
    and out: "clear_of_manifests w types params" and live: "manifests_live w'"
  shows "agent_ok env w' s'"
  using h
proof (cases rule: invoke_cases)
  case set_option
  then consider "s' = s" | opt v where "set_dev_option s opt v = (r, s')"
    by (auto simp: handle_TEEP_AGENT_SET_DEV_OPTION_def Let_def split: if_split_asm)
  then have "session_ok env w s' = session_ok env w s" by cases (simp, erule set_dev_option_ok)
  then show ?thesis using ok set_option(2) by (simp add: agent_ok_def)
next
  case task_done
  then consider "w' = w" "s' = s" | buffer n where "broker_task_done env w s buffer n = Some (r, w', s')"
    by (auto simp: handle_TEEP_AGENT_BROKER_TASK_DONE_def Let_def split: if_split_asm)
  then show ?thesis
  proof cases
    case 1
    then show ?thesis using ok by simp
  next
    case 2
    then show ?thesis using live broker_task_done_ok [OF 2 ok mal] by (simp add: agent_ok_def)
  qed
next
  case query
  then show ?thesis by (rule query_call_ok [OF _ ok len out])
next
  case unknown
  then show ?thesis using ok by simp
qed

section \<open>Reachable sessions\<close>

text \<open>
  A session is opened in a world without blocks, and then the entry point is called any number of
  times, with buffers for its output that are apart from the stored manifests. Between the calls the
  rest of the system may do what it likes to memory, heap and files, as long as the blocks stay
  apart and the stored manifests are left alone. Not covered are calls that run out of memory while
  a manifest is replaced: they leave a pointer to a freed block behind.
\<close>

definition fresh_world :: "world \<Rightarrow> bool" where
  "fresh_world w \<longleftrightarrow> w_blocks w = [] \<and> suit_manifests w = [NULLUsefulBufC, NULLUsefulBufC]"

inductive reachable :: "('d, 'pk) agent_env \<Rightarrow> world \<Rightarrow> teep_agent_session \<Rightarrow> bool" for env where
  reach_open: "fresh_world w \<Longrightarrow> TA_OpenSessionEntryPoint env w raw types = (r, Some s, w') \<Longrightarrow>
    reachable env w' s"
| reach_invoke: "reachable env w s \<Longrightarrow>
    TA_InvokeCommandEntryPoint env w s cmd types params = Some (Some (r, w', s', params')) \<Longrightarrow>
    length params = 4 \<Longrightarrow> clear_of_manifests w types params \<Longrightarrow> manifests_live w' \<Longrightarrow> reachable env w' s'"
| reach_outside: "reachable env w s \<Longrightarrow> keeps_manifests w w' \<Longrightarrow> heap_ok w' \<Longrightarrow> reachable env w' s"

lemma open_ok:
  assumes w: "fresh_world w" and "TA_OpenSessionEntryPoint env w raw types = (r, Some s, w')"
  shows "agent_ok env w' s"
proof -
  let ?n = "env_sizeof_session env"
  have "env_malloc env [] ?n \<noteq> 0" and w': "w' = w\<lparr>w_blocks := [(env_malloc env [] ?n, ?n)]\<rparr>"
    and s: "state s = AGENT_INIT" "session_context s = suit_context_init"
    using assms
    by (auto simp: TA_OpenSessionEntryPoint_def teep_agent_session_create_def malloc_block_def
        fresh_world_def Let_def split: if_split_asm)
  then have "heap_ok w'" "manifests_live w'"
    using w by (auto simp: heap_ok_def manifests_live_def fresh_world_def NULLUsefulBufC_def less_2_cases_iff)
  moreover have "n_manifest suit_context_init = 0" by (simp add: suit_context_init_def)
  ultimately show ?thesis using s by (simp add: agent_ok_def session_ok_def)
qed

lemma reachable_ok: "reachable env w s \<Longrightarrow> malloc_ok env \<Longrightarrow> agent_ok env w s"
proof (induction rule: reachable.induct)
  case (reach_open w raw types r s w')
  then show ?case by (blast intro: open_ok)
next
  case (reach_invoke w s cmd types params r w' s' params')
  then show ?case by (blast intro: invoke_ok)
next
  case (reach_outside w s w')
  then show ?case by (blast intro: agent_ok_keeps)
qed

text \<open>So the manifests of a session that can be reached are signed, and run only when they are.\<close>

lemma reachable_signed:
  assumes "malloc_ok env" and "reachable env w s" and "i < n_manifest (session_context s)"
  shows "accepted (manifests (session_context s) ! i) \<and>
    authentic env (bytes_of (w_memory w) (man_envelope_bstr (manifests (session_context s) ! i)))"
proof -
  have "session_ok env w s" using reachable_ok [OF assms(2,1)] by (simp add: agent_ok_def)
  then have "signed_manifest env w (manifests (session_context s) ! i)"
    using assms(3) by (simp_all add: session_ok_def table_signed_def)
  then obtain k where "accepted (manifests (session_context s) ! i)" "stored env w (suit_manifests w ! k)"
    "man_envelope_bstr (manifests (session_context s) ! i) =
      \<lparr>rbegin = ub_ptr (suit_manifests w ! k), rend = ub_ptr (suit_manifests w ! k) + ub_len (suit_manifests w ! k)\<rparr>"
    unfolding signed_manifest_def by blast
  then show ?thesis by (simp add: stored_def bytes_of_buffer)
qed

end
