(* ===== verification/Teec_Proofs.thy ===== *)
theory Teec_Proofs
  imports Teec_Pc Agent_Proofs
begin

text \<open>
  The client API on a PC and the heap: the blocks a command allocates for its parameters are apart
  from the stored manifests, they stay so while the agent works, and freeing them leaves the
  manifests alone. So a session that is used through this API is one of those that can be reached.
\<close>

section \<open>Where blocks come from\<close>

text \<open>Every block was there before, or is one the allocator has given.\<close>

definition blocks_from :: "('d, 'pk) agent_env \<Rightarrow> world \<Rightarrow> world \<Rightarrow> bool" where
  "blocks_from env w w' \<longleftrightarrow>
     (\<forall>b \<in> set (w_blocks w'). b \<in> set (w_blocks w) \<or>
        (\<exists>bs. fst b = env_malloc env bs (snd b) \<and> fst b \<noteq> 0))"

lemma blocks_from_refl [simp]: "blocks_from env w w"
  by (simp add: blocks_from_def)

lemma blocks_from_trans: "blocks_from env w w1 \<Longrightarrow> blocks_from env w1 w2 \<Longrightarrow> blocks_from env w w2"
  unfolding blocks_from_def by blast

lemma blocks_from_same: "w_blocks w' = w_blocks w \<Longrightarrow> blocks_from env w w'"
  by (simp add: blocks_from_def)

lemma blocks_from_updates [simp]:
  "blocks_from env w (w'\<lparr>w_memory := m\<rparr>) = blocks_from env w w'"
  "blocks_from env w (w'\<lparr>suit_manifests := es\<rparr>) = blocks_from env w w'"
  "blocks_from env w (w'\<lparr>w_files := fs\<rparr>) = blocks_from env w w'"
  by (simp_all add: blocks_from_def)

lemma malloc_block_from: "malloc_block env w n = (p, w') \<Longrightarrow> blocks_from env w w'"
  by (auto simp: malloc_block_def blocks_from_def Let_def split: if_split_asm)

lemma free_block_from: "free_block w p = Some w' \<Longrightarrow> blocks_from env w w'"
  by (auto simp: free_block_def blocks_from_def split: if_split_asm)

lemma store_bstr_from:
  assumes "store_bstr env w p buf len = Some (ok, w', p')"
  shows "blocks_from env w w'"
proof -
  obtain w1 where "free_block w (ub_ptr p) = Some w1 \<or> w1 = w" and
    "w' = snd (malloc_block env w1 len) \<or>
     (\<exists>m. w' = (snd (malloc_block env w1 len))\<lparr>w_memory := m\<rparr>)"
    using assms
    by (auto simp: store_bstr_def split: if_split_asm option.split_asm prod.split_asm) (metis snd_conv)+
  then show ?thesis
    using free_block_from [of w "ub_ptr p" w1 env] malloc_block_from [of env w1 len "fst (malloc_block env w1 len)"]
    by (auto intro: blocks_from_trans)
qed

lemma store_envelope_from:
  "store_envelope env w i buf len = Some (ok, w') \<Longrightarrow> blocks_from env w w'"
  by (auto simp: store_envelope_def dest: store_bstr_from split: if_split_asm option.split_asm)

lemma store_manifests_from: "store_manifests env i es w = Some (ok, w') \<Longrightarrow> blocks_from env w w'"
proof (induction es arbitrary: i w)
  case (Cons e es)
  then obtain b w1 where "store_envelope env w i (ub_ptr e) (ub_len e) = Some (b, w1)"
    "w1 = w' \<or> store_manifests env (i + 1) es w1 = Some (ok, w')"
    by (auto simp: store_suit_envelope_def split: option.split_asm prod.split_asm bool.split_asm)
  then show ?case using store_envelope_from Cons.IH blocks_from_trans by blast
qed simp

lemma task_done_from:
  assumes "broker_task_done env w s buffer n = Some (r, w', s')"
  shows "blocks_from env w w'"
proof -
  have request: "blocks_from env w w1" if "handle_query_request env w s t b = Some (r1, w1, s1)" for t b r1 w1 s1
    using that malloc_block_from [of env w "ub_len t"]
    by (auto simp: handle_query_request_def Let_def split: if_split_asm prod.split_asm)
  have update: "blocks_from env w w1" if "handle_update env w s b = Some (r1, w1, s1)" for b r1 w1 s1
    using that store_manifests_from
    by (auto simp: handle_update_def Let_def split: if_split_asm option.split_asm prod.split_asm bool.split_asm)
  have tam: "blocks_from env w w1" if "handle_tam_message env w s buffer n = Some (r1, w1, s1)" for r1 w1 s1
    using that request update by (auto simp: handle_tam_message_def split: if_split_asm option.split_asm teep_body.split_asm)
  have get: "blocks_from env w w1" if "handle_component_download w s buffer n = (r1, w1, s1)" for r1 w1 s1
    using that by (auto simp: handle_component_download_def Let_def split: if_split_asm prod.split_asm)
  show ?thesis
    using assms tam get by (fastforce simp: broker_task_done_def split: if_split_asm broker_command.split_asm prod.split_asm)
qed

section \<open>Blocks of others\<close>

text \<open>A live block that none of the stored manifests is in.\<close>

definition foreign :: "world \<Rightarrow> ptr \<Rightarrow> bool" where
  "foreign w q \<longleftrightarrow> q \<in> fst ` set (w_blocks w) \<and> (\<forall>i < 2. ub_ptr (suit_manifests w ! i) \<noteq> q)"

lemma foreign_updates [simp]:
  "foreign (w\<lparr>w_memory := m\<rparr>) q = foreign w q" "foreign (w\<lparr>w_files := fs\<rparr>) q = foreign w q"
  by (simp_all add: foreign_def)

lemma foreign_same_heap: "foreign w q \<Longrightarrow> same_heap w w' \<Longrightarrow> foreign w' q"
  by (simp add: foreign_def same_heap_def)

lemma foreign_store_envelope:
  assumes s: "store_envelope env w i buf len = Some (ok, w')" and f: "foreign w q"
    and "heap_ok w" and "malloc_ok env" and len: "length (suit_manifests w) = 2"
  shows "foreign w' q \<and> length (suit_manifests w') = 2"
proof (cases "w' = w")
  case False
  then obtain w1 p where b: "store_bstr env w (suit_manifests w ! i) buf len = Some (ok, w1, p)" and i: "i < 2"
    and w': "w' = w1\<lparr>suit_manifests := (suit_manifests w1)[i := p]\<rparr>"
    using s by (auto simp: store_envelope_def split: if_split_asm option.split_asm)
  note st = store_bstr_facts [OF b assms(3,4)]
  obtain n where n: "(q, n) \<in> set (w_blocks w)" using f by (auto simp: foreign_def)
  have q: "survives w w1 (q, n) \<and> (ok \<longrightarrow> q \<noteq> ub_ptr p)"
    using st(4) [OF n] f i by (auto simp: foreign_def)
  have "ok \<or> p = suit_manifests w ! i"
    using b by (simp add: store_bstr_def malloc_block_def Let_def split: if_split_asm option.split_asm) blast
  then have "ub_ptr p \<noteq> q" using q f i by (auto simp: foreign_def)
  moreover have "q \<in> fst ` set (w_blocks w1)" using q by (force simp: survives_def)
  ultimately show ?thesis
    using f st(2) len i by (simp add: w' foreign_def nth_list_update)
qed (use f len in simp)

lemma foreign_store_manifests:
  assumes "malloc_ok env"
  shows "store_manifests env i es w = Some (ok, w') \<Longrightarrow> foreign w q \<Longrightarrow> heap_ok w \<Longrightarrow>
    length (suit_manifests w) = 2 \<Longrightarrow> foreign w' q"
proof (induction es arbitrary: i w)
  case (Cons e es)
  then obtain b w1 where s: "store_envelope env w i (ub_ptr e) (ub_len e) = Some (b, w1)"
    and r: "w1 = w' \<or> store_manifests env (i + 1) es w1 = Some (ok, w')"
    by (auto simp: store_suit_envelope_def split: option.split_asm prod.split_asm bool.split_asm)
  from foreign_store_envelope [OF s Cons.prems(2,3) assms Cons.prems(4)] store_envelope_heap [OF s Cons.prems(3) assms] r
  show ?case using Cons.IH by blast
qed simp

lemma foreign_task_done:
  assumes d: "broker_task_done env w s buffer n = Some (r, w', s')" and f: "foreign w q"
    and ok: "agent_ok env w s" and mal: "malloc_ok env"
  shows "foreign w' q"
proof -
  have hp: "heap_ok w" "length (suit_manifests w) = 2" using ok by (auto simp: agent_ok_def manifests_live_def)
  have request: "foreign w1 q" if "handle_query_request env w s t b = Some (r1, w1, s1)" for t b r1 w1 s1
    using that f by (auto simp: handle_query_request_def Let_def malloc_block_def foreign_def split: if_split_asm)
  have update: "foreign w1 q" if "handle_update env w s b = Some (r1, w1, s1)" for b r1 w1 s1
    using that f foreign_store_manifests [OF mal _ f hp]
    by (auto simp: handle_update_def Let_def split: if_split_asm option.split_asm prod.split_asm bool.split_asm)
  have tam: "foreign w1 q" if "handle_tam_message env w s buffer n = Some (r1, w1, s1)" for r1 w1 s1
    using that f request update
    by (auto simp: handle_tam_message_def split: if_split_asm option.split_asm teep_body.split_asm)
  have get: "foreign w1 q" if "handle_component_download w s buffer n = (r1, w1, s1)" for r1 w1 s1
    using that f by (auto simp: handle_component_download_def Let_def split: if_split_asm prod.split_asm)
  show ?thesis
    using d f tam get
    by (fastforce simp: broker_task_done_def split: if_split_asm broker_command.split_asm prod.split_asm)
qed

section \<open>The command in between\<close>

text \<open>A parameter is left alone, but for its value and a size that is not larger.\<close>

definition shrinks :: "TEE_Param \<Rightarrow> TEE_Param \<Rightarrow> bool" where
  "shrinks p p' \<longleftrightarrow> memref_buffer p' = memref_buffer p \<and> memref_size p' \<le> memref_size p"

lemma shrinks_refl [simp]: "shrinks p p" "shrinks p (p\<lparr>value_a := a\<rparr>)"
  by (simp_all add: shrinks_def)

lemma copyout_shrinks: "copyout_param w p bytes = Some (p', w') \<Longrightarrow> shrinks p p'"
  using le_unat_uoi [of "length bytes" "memref_size p"]
  by (auto simp: copyout_param_def shrinks_def word_le_nat_alt split: if_split_asm)

lemma copy_task_shrinks:
  assumes c: "copy_task w task params = Some (r, w', params')" and len: "length params = 4"
  shows "list_all2 shrinks params params'"
proof -
  let ?ps = "params[0 := (params ! 0)\<lparr>value_a := command_value (command task)\<rparr>]"
  have start: "list_all2 shrinks params ?ps"
    using len by (auto simp: list_all2_conv_all_nth nth_list_update)
  have upd: "list_all2 shrinks params (ps[k := p'])"
    if "list_all2 shrinks params ps" "shrinks (params ! k) p'" for ps k p'
    using that by (cases "k < length ps") (auto simp: list_all2_conv_all_nth nth_list_update)
  consider "params' = ?ps" | p w1 bs where "copyout_param w (params ! 1) bs = Some (p, w1)" "params' = ?ps[1 := p]"
    | p w1 bs p' w2 bs' where "copyout_param w (params ! 1) bs = Some (p, w1)"
        "copyout_param w1 (params ! 2) bs' = Some (p', w2)" "params' = ?ps[1 := p, 2 := p']"
    using c by (auto simp: copy_task_def Let_def split: option.split_asm prod.split_asm)
  then show ?thesis
    by cases (auto intro!: start upd copyout_shrinks)
qed

text \<open>What a command keeps.\<close>

definition keeps_foreign :: "('d, 'pk) agent_env \<Rightarrow> world \<Rightarrow> world \<Rightarrow> bool" where
  "keeps_foreign env w w' \<longleftrightarrow> blocks_from env w w' \<and> (\<forall>q. foreign w q \<longrightarrow> foreign w' q)"

lemma keeps_foreign_same: "w_blocks w' = w_blocks w \<Longrightarrow> suit_manifests w' = suit_manifests w \<Longrightarrow> keeps_foreign env w w'"
  by (simp add: keeps_foreign_def blocks_from_same foreign_def)

lemma invoke_keeps:
  assumes h: "TA_InvokeCommandEntryPoint env w s cmd types params = Some (Some (r, w', s', params'))"
    and ok: "agent_ok env w s" and mal: "malloc_ok env" and len: "length params = 4"
    and out: "clear_of_manifests w types params"
  shows "keeps_foreign env w w' \<and> heap_ok w' \<and> list_all2 shrinks params params'"
proof -
  have hp: "heap_ok w" and sok: "session_ok env w s" using ok by (simp_all add: agent_ok_def)
  have same: "list_all2 shrinks params params" by (simp add: list_all2_conv_all_nth)
  have task: "params' = params" if "handle_TEEP_AGENT_BROKER_TASK_DONE env w s types params = Some (r, w', s')"
      "cmd = TEEP_AGENT_BROKER_TASK_DONE"
    using h that by (auto simp: TA_InvokeCommandEntryPoint_def)
  consider (unchanged) "w' = w" "params' = params"
    | (finished) buffer n where "broker_task_done env w s buffer n = Some (r, w', s')" "params' = params"
    | (query) w1 where "query_next_broker_task env w s = Some (Some (w1, s'))"
        "copy_task w1 (task_buffer s') params = Some (r, w', params')"
        "types = TEE_PARAM_TYPES TEE_PARAM_TYPE_VALUE_OUTPUT TEE_PARAM_TYPE_MEMREF_OUTPUT
           TEE_PARAM_TYPE_MEMREF_OUTPUT TEE_PARAM_TYPE_NONE"
    using h
    by (auto simp: TA_InvokeCommandEntryPoint_def handle_TEEP_AGENT_BROKER_TASK_DONE_def
        handle_TEEP_AGENT_QUERY_NEXT_BROKER_TASK_def Let_def split: if_split_asm option.split_asm prod.split_asm)
  then show ?thesis
  proof cases
    case unchanged
    then show ?thesis using hp same by (simp add: keeps_foreign_same)
  next
    case finished
    then show ?thesis
      using task_done_from foreign_task_done [OF _ _ ok mal] broker_task_done_ok [OF _ ok mal] same
      by (auto simp: keeps_foreign_def)
  next
    case query
    have q: "same_heap w w1"
      using query_next_broker_task_ends [OF sok] query(1) by (auto simp: keeps_session_def)
    then have "clear_of_manifests w1 types params"
      using clear_of_manifests_keeps [OF out same_heap_keeps] by (simp add: same_heap_def)
    from copy_task_keeps [OF query(2) len this] have "keeps_manifests w1 w'" "w_blocks w' = w_blocks w1"
      unfolding query(3) using query_types_outputs by blast+
    then have "w_blocks w' = w_blocks w" "suit_manifests w' = suit_manifests w"
      using q by (simp_all add: same_heap_def keeps_manifests_def)
    then show ?thesis
      using hp copy_task_shrinks [OF query(2) len] by (simp add: keeps_foreign_same heap_ok_def)
  qed
qed

section \<open>The parameters on the way in\<close>

definition memref_type :: "u32 \<Rightarrow> bool" where
  "memref_type t \<longleftrightarrow> t \<in> {TEE_PARAM_TYPE_MEMREF_INPUT, TEE_PARAM_TYPE_MEMREF_OUTPUT, TEE_PARAM_TYPE_MEMREF_INOUT}"

text \<open>All blocks survive, and there may be new ones.\<close>

definition grows :: "('d, 'pk) agent_env \<Rightarrow> world \<Rightarrow> world \<Rightarrow> bool" where
  "grows env w w' \<longleftrightarrow>
     heap_ok w' \<and> suit_manifests w' = suit_manifests w \<and> (\<forall>b \<in> set (w_blocks w). survives w w' b) \<and>
     blocks_from env w w'"

lemma grows_trans: "grows env w w1 \<Longrightarrow> grows env w1 w2 \<Longrightarrow> grows env w w2"
  unfolding grows_def using survives_trans blocks_from_trans by (metis survives_def)

lemma grows_keeps: "grows env w w' \<Longrightarrow> keeps_manifests w w'"
  by (rule keeps_manifestsI) (simp_all add: grows_def)

text \<open>The buffer of a parameter is empty, or in a block that is new.\<close>

definition own_block :: "world \<Rightarrow> world \<Rightarrow> TEE_Param \<Rightarrow> bool" where
  "own_block w w' p \<longleftrightarrow>
     memref_buffer p = 0 \<and> memref_size p = 0 \<or>
     (\<exists>n. (memref_buffer p, n) \<in> set (w_blocks w') \<and> unat (memref_size p) \<le> unat n \<and>
        memref_buffer p \<notin> fst ` set (w_blocks w))"

lemma own_block_grows:
  assumes "grows env w1 w'"
  shows "own_block w w1 p \<Longrightarrow> own_block w w' p" "grows env w w1 \<Longrightarrow> own_block w1 w' p \<Longrightarrow> own_block w w' p"
  using assms by (fastforce simp: own_block_def grows_def survives_def)+

lemma malloc_grows:
  assumes "malloc_block env w n = (q, w1)" and "q \<noteq> 0 \<or> n = 0" and "length bs = unat n"
    and "heap_ok w" and "malloc_ok env" and "unat k \<le> unat n"
  defines "w' \<equiv> w1\<lparr>w_memory := copy_bytes (w_memory w1) q bs\<rparr>"
  shows "grows env w w' \<and> own_block w w' (p\<lparr>memref_size := k, memref_buffer := q\<rparr>)"
proof (cases "q = 0")
  case True
  then have "w1 = w" "bs = []" "k = 0"
    using assms(1-3,6) by (auto simp: malloc_block_def Let_def unat_eq_zero split: if_split_asm)
  then have "w' = w" by (simp add: w'_def copy_bytes_def)
  then show ?thesis using True \<open>k = 0\<close> assms(4) by (simp add: grows_def own_block_def survives_def)
next
  case False
  then have q: "q = env_malloc env (w_blocks w) n" and w': "w' = filled w q n bs"
    using assms(1) by (auto simp: malloc_block_def Let_def w'_def filled_def split: if_split_asm)
  note fill = filled_facts [OF assms(5,4) q [symmetric] False assms(3)]
  have "blocks_from env w w'" using q False by (auto simp: blocks_from_def w')
  moreover have "q \<notin> fst ` set (w_blocks w)" using fill(3) by auto
  ultimately show ?thesis
    using fill assms(6) by (auto simp: grows_def own_block_def w')
qed

lemma prepare_param_grows:
  assumes "prepare_param env t q p w = Some (p', w')" and "heap_ok w" and "malloc_ok env"
  shows "grows env w w' \<and>
    (memref_type t \<longrightarrow> own_block w w' p' \<and> memref_size p' = ucast (tmpref_size q))"
proof -
  let ?p = "p\<lparr>value_a := 0, value_b := 0, memref_buffer := 0\<rparr>"
  have self: "grows env w w" using assms(2) by (simp add: grows_def survives_def)
  have cut: "unat (ucast (tmpref_size q) :: u32) \<le> unat (tmpref_size q)"
    by (simp add: unsigned_ucast_eq unsigned_take_bit_eq take_bit_nat_less_eq_self)
  consider (other) "\<not> memref_type t" "w' = w"
    | (into) b w1 where "malloc_block env w (tmpref_size q) = (b, w1)" "b \<noteq> 0 \<or> tmpref_size q = 0"
        "p' = ?p\<lparr>memref_size := ucast (tmpref_size q), memref_buffer := b\<rparr>"
        "w' = w1\<lparr>w_memory := copy_bytes (w_memory w1) b (peek (w_memory w1) (tmpref_buffer q) (unat (tmpref_size q)))\<rparr>"
    | (out) b w1 where "malloc_block env w (ucast (ucast (tmpref_size q) :: u32)) = (b, w1)"
        "b \<noteq> 0 \<or> (ucast (tmpref_size q) :: u32) = 0"
        "p' = ?p\<lparr>memref_size := ucast (tmpref_size q), memref_buffer := b\<rparr>"
        "w' = w1\<lparr>w_memory := copy_bytes (w_memory w1) b (replicate (unat (ucast (tmpref_size q) :: u32)) 0)\<rparr>"
    using assms(1)
    by (auto simp: prepare_param_def memref_type_def Let_def split: if_split_asm prod.split_asm)
  then show ?thesis
  proof cases
    case other
    then show ?thesis using self by simp
  next
    case into
    from malloc_grows [OF into(1,2) length_peek assms(2,3) cut, of "w_memory w1" "tmpref_buffer q" ?p]
    show ?thesis using into(3,4) by simp
  next
    case out
    have "b \<noteq> 0 \<or> (ucast (ucast (tmpref_size q) :: u32) :: u64) = 0" using out(2) by auto
    from malloc_grows [OF out(1) this, of "replicate (unat (ucast (tmpref_size q) :: u32)) 0"
        "ucast (tmpref_size q)" ?p] assms(2,3)
    show ?thesis using out(3,4) by (simp add: unat_ucast_u32)
  qed
qed

lemma prepare_loop_grows:
  assumes "malloc_ok env"
  shows "prepare_loop env types i qs ps w = Some (ps', w') \<Longrightarrow> heap_ok w \<Longrightarrow> length ps = length qs \<Longrightarrow>
    grows env w w' \<and> length ps' = length qs \<and>
    (\<forall>k < length qs. memref_type (TEE_PARAM_TYPE_GET types (i + k)) \<longrightarrow>
       own_block w w' (ps' ! k) \<and> memref_size (ps' ! k) = ucast (tmpref_size (qs ! k)))"
proof (induction qs arbitrary: i ps ps' w)
  case Nil
  then show ?case by (auto simp: grows_def survives_def)
next
  case (Cons q qs)
  then obtain p ps0 where ps: "ps = p # ps0" by (cases ps) auto
  let ?t = "\<lambda>k. TEE_PARAM_TYPE_GET types k"
  from Cons.prems(1) obtain p1 w1 ps1 where h: "prepare_param env (?t i) q p w = Some (p1, w1)"
    and t: "prepare_loop env types (i + 1) qs ps0 w1 = Some (ps1, w')" and ps': "ps' = p1 # ps1"
    by (auto simp: ps split: option.split_asm)
  note one = prepare_param_grows [OF h Cons.prems(2) assms]
  then have "heap_ok w1" by (simp add: grows_def)
  note rest = Cons.IH [OF t this] Cons.prems(3)
  have len: "length ps1 = length qs" and g: "grows env w1 w'"
    and tl: "\<And>k. k < length qs \<Longrightarrow> memref_type (?t (i + 1 + k)) \<Longrightarrow>
      own_block w1 w' (ps1 ! k) \<and> memref_size (ps1 ! k) = ucast (tmpref_size (qs ! k))"
    using rest ps by simp_all
  have "own_block w w' (ps' ! k) \<and> memref_size (ps' ! k) = ucast (tmpref_size ((q # qs) ! k))"
    if k: "k < length (q # qs)" "memref_type (?t (i + k))" for k
  proof (cases k)
    case 0
    then show ?thesis using one k(2) own_block_grows(1) [OF g] by (simp add: ps')
  next
    case (Suc j)
    then show ?thesis using tl [of j] one k own_block_grows(2) [OF g] by (simp add: ps')
  qed
  then show ?case using one g grows_trans len by (auto simp: ps')
qed

section \<open>The parameters on the way out\<close>

lemma free_foreign:
  assumes f: "free_block w q = Some w'" and h: "heap_ok w"
    and q: "\<forall>i < 2. ub_ptr (suit_manifests w ! i) = q \<longrightarrow> q = 0"
  shows "keeps_manifests w w' \<and> heap_ok w' \<and> set (w_blocks w') \<subseteq> set (w_blocks w)"
proof -
  note free = free_block_facts [OF f h]
  have "survives w w' (manifest_block w i)" if "i < 2" "manifest_block w i \<in> set (w_blocks w)" for i
  proof -
    have "fst (manifest_block w i) \<noteq> 0" using h that(2) by (force simp: heap_ok_def)
    then have "fst (manifest_block w i) \<noteq> q" using q that(1) by (auto simp: manifest_block_def)
    then show ?thesis by (rule free(5) [OF that(2)])
  qed
  then show ?thesis using free by (auto simp: keeps_manifests_def)
qed

text \<open>What is written back leaves the manifests alone.\<close>

definition clear_writeback :: "world \<Rightarrow> u32 \<Rightarrow> TEE_Param \<Rightarrow> TEEC_Parameter \<Rightarrow> bool" where
  "clear_writeback w t p q \<longleftrightarrow>
     (memref_type t \<longrightarrow> (\<forall>i < 2. ub_ptr (suit_manifests w ! i) = memref_buffer p \<longrightarrow> memref_buffer p = 0)) \<and>
     (t = TEE_PARAM_TYPE_MEMREF_OUTPUT \<or> t = TEE_PARAM_TYPE_MEMREF_INOUT \<longrightarrow>
        (\<forall>i < 2. manifest_block w i \<in> set (w_blocks w) \<longrightarrow>
           block_bytes (tmpref_buffer q, ucast (memref_size p)) \<inter> block_bytes (manifest_block w i) = {}))"

lemma writeback_param_keeps:
  assumes "writeback_param t p q w = Some (q', w')" and h: "heap_ok w" and c: "clear_writeback w t p q"
  shows "keeps_manifests w w' \<and> heap_ok w' \<and> set (w_blocks w') \<subseteq> set (w_blocks w)"
proof -
  let ?bs = "peek (w_memory w) (memref_buffer p) (unat (memref_size p))"
  let ?w = "w\<lparr>w_memory := copy_bytes (w_memory w) (tmpref_buffer q) ?bs\<rparr>"
  consider (other) "w' = w"
    | (into) "memref_type t" "free_block w (memref_buffer p) = Some w'"
    | (out) "memref_type t" "t = TEE_PARAM_TYPE_MEMREF_OUTPUT \<or> t = TEE_PARAM_TYPE_MEMREF_INOUT"
        "free_block ?w (memref_buffer p) = Some w'"
    using assms(1)
    by (auto simp: writeback_param_def memref_type_def Let_def split: if_split_asm)
  then show ?thesis
  proof cases
    case other
    then show ?thesis using h by simp
  next
    case into
    then show ?thesis using free_foreign [OF into(2) h] c by (simp add: clear_writeback_def)
  next
    case out
    have "copy_bytes (w_memory w) (tmpref_buffer q) ?bs a = w_memory w a"
      if "i < 2" "manifest_block w i \<in> set (w_blocks w)" "a \<in> block_bytes (manifest_block w i)" for a i
    proof (rule copy_bytes_outside)
      show "a \<notin> block_bytes (tmpref_buffer q, ucast (memref_size p))"
        using c out(2) that unfolding clear_writeback_def by blast
    qed (simp add: unat_ucast_u32)
    then have k: "keeps_manifests w ?w" by (auto simp: keeps_manifests_def survives_def)
    have "heap_ok ?w" using h by (simp add: heap_ok_def)
    from free_foreign [OF out(3) this] c out(1) k show ?thesis
      using keeps_manifests_trans [OF k] by (auto simp: clear_writeback_def)
  qed
qed

lemma clear_writeback_keeps:
  "clear_writeback w t p q \<Longrightarrow> keeps_manifests w w' \<Longrightarrow> set (w_blocks w') \<subseteq> set (w_blocks w) \<Longrightarrow>
     clear_writeback w' t p q"
  by (auto simp: clear_writeback_def keeps_manifests_def manifest_block_def)

lemma writeback_loop_keeps:
  "writeback_loop types i ps qs w = Some (qs', w') \<Longrightarrow> heap_ok w \<Longrightarrow> length ps = length qs \<Longrightarrow>
     \<forall>k < length ps. clear_writeback w (TEE_PARAM_TYPE_GET types (i + k)) (ps ! k) (qs ! k) \<Longrightarrow>
     keeps_manifests w w' \<and> heap_ok w' \<and> set (w_blocks w') \<subseteq> set (w_blocks w)"
proof (induction ps arbitrary: i qs qs' w)
  case (Cons p ps)
  then obtain q qs0 where qs: "qs = q # qs0" by (cases qs) auto
  from Cons.prems(1) obtain q1 w1 qs1 where h: "writeback_param (TEE_PARAM_TYPE_GET types i) p q w = Some (q1, w1)"
    and t: "writeback_loop types (i + 1) ps qs0 w1 = Some (qs1, w')"
    by (auto simp: qs split: option.split_asm)
  have "clear_writeback w (TEE_PARAM_TYPE_GET types i) p q" using Cons.prems(4) by (auto simp: qs)
  note one = writeback_param_keeps [OF h Cons.prems(2) this]
  have "clear_writeback w1 (TEE_PARAM_TYPE_GET types (i + 1 + k)) (ps ! k) (qs0 ! k)" if "k < length ps" for k
    using Cons.prems(4) that one clear_writeback_keeps by (auto simp: qs dest: spec [of _ "Suc k"])
  from Cons.IH [OF t] this one Cons.prems(3) keeps_manifests_trans show ?case by (auto simp: qs)
qed simp

section \<open>A command through the client API\<close>

text \<open>The memory of the broker is apart from the heap: the allocator never gives a block out of it.\<close>

definition blocks_clear :: "ptr set \<Rightarrow> world \<Rightarrow> bool" where
  "blocks_clear X w \<longleftrightarrow> (\<forall>b \<in> set (w_blocks w). block_bytes b \<inter> X = {})"

definition malloc_clear :: "('d, 'pk) agent_env \<Rightarrow> ptr set \<Rightarrow> bool" where
  "malloc_clear env X \<longleftrightarrow>
     (\<forall>bs n. env_malloc env bs n \<noteq> 0 \<longrightarrow> block_bytes (env_malloc env bs n, n) \<inter> X = {})"

lemma blocks_clear_from: "blocks_clear X w \<Longrightarrow> malloc_clear env X \<Longrightarrow> blocks_from env w w' \<Longrightarrow> blocks_clear X w'"
  unfolding blocks_clear_def malloc_clear_def blocks_from_def by (metis prod.collapse)

text \<open>The types of an operation are those the trusted application is given.\<close>

lemma prepared_types:
  assumes "prepare_params env operation params w = Some (types, ps, w')" and "k < 4"
  shows "TEE_PARAM_TYPE_GET types k = prepare_type (TEEC_PARAM_TYPE_GET (paramTypes operation) k)"
proof -
  let ?t = "\<lambda>i. prepare_type (TEEC_PARAM_TYPE_GET (paramTypes operation) i)"
  have le: "?t i \<le> 0xF" for i by (simp add: prepare_type_def)
  have types: "types = TEE_PARAM_TYPES (?t 0) (?t 1) (?t 2) (?t 3)"
    using assms(1) by (auto simp: prepare_params_def Let_def)
  have "map (TEE_PARAM_TYPE_GET types) [0, 1, 2, 3] = [?t 0, ?t 1, ?t 2, ?t 3]"
    unfolding types by (rule param_type_get) (rule le)+
  moreover have "k = 0 \<or> k = 1 \<or> k = 2 \<or> k = 3" using assms(2) by linarith
  ultimately show ?thesis by auto
qed

text \<open>The outputs of an operation are in the memory of the broker.\<close>

definition outputs_in :: "ptr set \<Rightarrow> TEEC_Operation \<Rightarrow> bool" where
  "outputs_in X operation \<longleftrightarrow>
     length (op_params operation) = 4 \<and>
     (\<forall>k < 4. TEEC_PARAM_TYPE_GET (paramTypes operation) k \<in> {TEEC_MEMREF_TEMP_OUTPUT, TEEC_MEMREF_TEMP_INOUT} \<longrightarrow>
        block_bytes (tmpref_buffer (op_params operation ! k), tmpref_size (op_params operation ! k)) \<subseteq> X)"

lemma output_types:
  "prepare_type t = TEE_PARAM_TYPE_MEMREF_OUTPUT \<longleftrightarrow> t = TEEC_MEMREF_TEMP_OUTPUT"
  "prepare_type t = TEE_PARAM_TYPE_MEMREF_INOUT \<longleftrightarrow> t = TEEC_MEMREF_TEMP_INOUT"
  by (simp_all add: prepare_type_def)

lemma block_bytes_mono: "unat n \<le> unat k \<Longrightarrow> block_bytes (p, n) \<subseteq> block_bytes (p, k)"
  by (auto simp: block_bytes_def)

text \<open>The prepared parameters are clear of the manifests, before the command and after it.\<close>

lemma own_block_clear:
  assumes own: "own_block w w' p" and g: "grows env w w'" and live: "manifests_live w" and "heap_ok w" and i: "i < 2"
    and m: "manifest_block w' i \<in> set (w_blocks w')"
  shows "block_bytes (memref_buffer p, ucast (memref_size p)) \<inter> block_bytes (manifest_block w' i) = {}"
proof (cases "memref_buffer p = 0 \<and> memref_size p = 0")
  case False
  then obtain n where n: "(memref_buffer p, n) \<in> set (w_blocks w')" "unat (memref_size p) \<le> unat n"
    "memref_buffer p \<notin> fst ` set (w_blocks w)"
    using own by (auto simp: own_block_def)
  have same: "manifest_block w' i = manifest_block w i" using g by (simp add: manifest_block_def grows_def)
  have hp: "heap_ok w'" using g by (simp add: grows_def)
  then have "fst (manifest_block w' i) \<noteq> 0" using m by (force simp: heap_ok_def)
  then have "manifest_block w i \<in> set (w_blocks w)"
    using manifests_liveD(1) [OF live i] same by (simp add: manifest_block_def)
  then have "fst (manifest_block w' i) \<noteq> memref_buffer p" using n(3) same by force
  then have "block_bytes (memref_buffer p, n) \<inter> block_bytes (manifest_block w' i) = {}"
    using hp n(1) m unfolding heap_ok_def by (metis fst_conv)
  then show ?thesis using block_bytes_mono [of "ucast (memref_size p)" n] n(2) by (auto simp: unat_ucast_u32)
qed (simp add: block_bytes_def)

lemma own_block_foreign:
  assumes own: "own_block w w' p" and g: "grows env w w'" and live: "manifests_live w" and h: "heap_ok w"
  shows "memref_buffer p = 0 \<or> foreign w' (memref_buffer p)"
proof (cases "memref_buffer p = 0")
  case False
  then obtain n where n: "(memref_buffer p, n) \<in> set (w_blocks w')" "memref_buffer p \<notin> fst ` set (w_blocks w)"
    using own by (auto simp: own_block_def)
  have "ub_ptr (suit_manifests w' ! i) \<noteq> memref_buffer p" if "i < 2" for i
    using manifests_liveD(1) [OF live that] n(2) g False by (force simp: grows_def)
  then show ?thesis using n(1) by (force simp: foreign_def)
qed simp

lemma manifests_live_mono:
  "manifests_live w' \<Longrightarrow> keeps_manifests w w' \<Longrightarrow> set (w_blocks w') \<subseteq> set (w_blocks w) \<Longrightarrow> manifests_live w"
  by (auto simp: manifests_live_def keeps_manifests_def Let_def)

lemma teec_invoke_reachable:
  assumes r: "reachable env w s" and mal: "malloc_ok env" and clear: "malloc_clear env X" "blocks_clear X w"
    and call: "TEEC_InvokeCommand env w s cmd params operation = Some (Some (res, w', s', operation'))"
    and len: "length params = 4" and out: "outputs_in X operation" and live: "manifests_live w'"
  shows "reachable env w' s' \<and> blocks_clear X w'"
proof -
  have ok: "agent_ok env w s" by (rule reachable_ok [OF r mal])
  then have hp: "heap_ok w" "manifests_live w" by (simp_all add: agent_ok_def)
  have oplen: "length (op_params operation) = 4" using out by (simp add: outputs_in_def)
  obtain types ps w1 ps2 w2 where prep: "prepare_params env operation params w = Some (types, ps, w1)"
    and invoke: "TA_InvokeCommandEntryPoint env w1 s cmd types ps = Some (Some (res, w2, s', ps2))"
    and written: "w' = w2 \<or> (\<exists>op. writeback_params operation types ps2 w2 = Some (op, w'))"
    using call by (auto simp: TEEC_InvokeCommand_def split: option.split_asm prod.split_asm if_split_asm)
  from prep have "prepare_loop env types 0 (op_params operation) params w = Some (ps, w1)"
    by (auto simp: prepare_params_def Let_def)
  from prepare_loop_grows [OF mal this hp(1)] len oplen
  have g: "grows env w w1" and pslen: "length ps = 4"
    and own: "\<And>k. k < 4 \<Longrightarrow> memref_type (TEE_PARAM_TYPE_GET types k) \<Longrightarrow>
      own_block w w1 (ps ! k) \<and> memref_size (ps ! k) = ucast (tmpref_size (op_params operation ! k))"
    by simp_all
  have r1: "reachable env w1 s" using reach_outside [OF r grows_keeps [OF g]] g by (simp add: grows_def)
  have c1: "clear_of_manifests w1 types ps"
    unfolding clear_of_manifests_def pslen
  proof (intro allI impI)
    fix k i :: nat
    assume "k < 4" "i < 2" "TEE_PARAM_TYPE_GET types k = TEE_PARAM_TYPE_MEMREF_OUTPUT"
      "manifest_block w1 i \<in> set (w_blocks w1)"
    then show "block_bytes (memref_buffer (ps ! k), ucast (memref_size (ps ! k))) \<inter> block_bytes (manifest_block w1 i) = {}"
      using own [of k] by (intro own_block_clear [OF _ g hp(2,1)]) (simp_all add: memref_type_def)
  qed
  note kept = invoke_keeps [OF invoke reachable_ok [OF r1 mal] mal pslen c1]
  have bc2: "blocks_clear X w2"
    using blocks_clear_from [OF clear(2,1)] blocks_from_trans [of env w w1 w2] g kept
    by (simp add: grows_def keeps_foreign_def)
  show ?thesis
  proof (cases "w' = w2")
    case True
    then show ?thesis using reach_invoke [OF r1 invoke pslen c1] live bc2 by simp
  next
    case False
    then obtain qs' where wb: "writeback_loop types 0 ps2 (op_params operation) w2 = Some (qs', w')"
      using written by (auto simp: writeback_params_def)
    have len2: "length ps2 = 4" using kept pslen by (auto dest: list_all2_lengthD)
    have "clear_writeback w2 (TEE_PARAM_TYPE_GET types k) (ps2 ! k) (op_params operation ! k)" if k: "k < 4" for k
      unfolding clear_writeback_def
    proof (intro conjI impI allI)
      let ?q = "op_params operation ! k"
      have sh: "shrinks (ps ! k) (ps2 ! k)" using kept pslen k by (auto dest: list_all2_nthD)
      fix i :: nat
      assume i: "i < 2"
      show "memref_buffer (ps2 ! k) = 0"
        if "memref_type (TEE_PARAM_TYPE_GET types k)" "ub_ptr (suit_manifests w2 ! i) = memref_buffer (ps2 ! k)"
        using own [OF k that(1)] own_block_foreign [OF _ g hp(2,1)] kept that(2) i sh
        by (fastforce simp: keeps_foreign_def foreign_def shrinks_def)
      assume t: "TEE_PARAM_TYPE_GET types k = TEE_PARAM_TYPE_MEMREF_OUTPUT \<or>
          TEE_PARAM_TYPE_GET types k = TEE_PARAM_TYPE_MEMREF_INOUT"
        and m: "manifest_block w2 i \<in> set (w_blocks w2)"
      then have "memref_size (ps ! k) = ucast (tmpref_size ?q)" using own [OF k] by (auto simp: memref_type_def)
      then have "unat (memref_size (ps2 ! k)) \<le> unat (tmpref_size ?q)"
        using sh by (auto simp: shrinks_def word_le_nat_alt unsigned_ucast_eq unsigned_take_bit_eq
            intro: order_trans [OF _ take_bit_nat_less_eq_self])
      moreover have "block_bytes (tmpref_buffer ?q, tmpref_size ?q) \<subseteq> X"
        using t out k unfolding prepared_types [OF prep k] output_types by (auto simp: outputs_in_def)
      ultimately have "block_bytes (tmpref_buffer ?q, ucast (memref_size (ps2 ! k))) \<subseteq> X"
        using block_bytes_mono [of "ucast (memref_size (ps2 ! k))" "tmpref_size ?q" "tmpref_buffer ?q"]
        by (simp add: unat_ucast_u32)
      then show "block_bytes (tmpref_buffer ?q, ucast (memref_size (ps2 ! k))) \<inter> block_bytes (manifest_block w2 i) = {}"
        using bc2 m by (fastforce simp: blocks_clear_def)
    qed
    then have w3: "keeps_manifests w2 w' \<and> heap_ok w' \<and> set (w_blocks w') \<subseteq> set (w_blocks w2)"
      using writeback_loop_keeps [OF wb] kept len2 oplen by simp
    then have "reachable env w2 s'"
      using reach_invoke [OF r1 invoke pslen c1] manifests_live_mono [OF live] by blast
    then have "reachable env w' s'" using reach_outside w3 by blast
    moreover have "blocks_clear X w'" using bc2 w3 by (auto simp: blocks_clear_def)
    ultimately show ?thesis by simp
  qed
qed

end
