(* ===== verification/Http_Lws.thy ===== *)
theory Http_Lws
  imports Ta_Store
begin

text \<open>
  The HTTP client of the broker, \<^verbatim>\<open>teep-broker-app/http-lws.c\<close>. The library libwebsockets is a
  parameter: it parses addresses, connects, and calls back with what happens on the connection,
  one list of events for every call of \<^verbatim>\<open>lws_service\<close>. The two callbacks keep the state of a request;
  what they ask of the library is the list of their calls.
\<close>

section \<open>A request\<close>

datatype tam_result =
    TR_ONGOING
  | TR_OKAY
  | TR_FAIL_START
  | TR_FAIL_CONN_ERR
  | TR_FAIL_REFUSED
  | TR_FAIL_OVERSIZE
  | TR_FAIL_CLOSED

fun tam_result_value :: "tam_result \<Rightarrow> int" where
  "tam_result_value TR_ONGOING = 1"
| "tam_result_value TR_OKAY = 0"
| "tam_result_value TR_FAIL_START = -1"
| "tam_result_value TR_FAIL_CONN_ERR = -2"
| "tam_result_value TR_FAIL_REFUSED = -3"
| "tam_result_value TR_FAIL_OVERSIZE = -4"
| "tam_result_value TR_FAIL_CLOSED = -5"

text \<open>What is sent, and what has been received so far; its length is \<^verbatim>\<open>out_len\<close>.\<close>

record lao_rpc_io =
  io_in :: "u8 list"
  io_out :: "u8 list"

record libteep_async =
  io :: lao_rpc_io
  max_out_len :: nat
  http_resp :: int
  result :: tam_result

section \<open>The library\<close>

text \<open>
  The reasons of a callback that are handled, with the answers of the library to the calls made
  there: the response code, whether each of the three headers was added, the result of reading and
  of writing.
\<close>

datatype lws_event =
    CLIENT_CONNECTION_ERROR
  | CLOSED_CLIENT_HTTP
  | ESTABLISHED_CLIENT_HTTP int
  | CLIENT_APPEND_HANDSHAKE_HEADER bool bool bool
  | COMPLETED_CLIENT_HTTP
  | RECEIVE_CLIENT_HTTP_READ "u8 list"
  | RECEIVE_CLIENT_HTTP int
  | CLIENT_HTTP_WRITEABLE int
  | OTHER_REASON

datatype http_header =
    Header_name "u8 list"
  | WSI_TOKEN_HTTP_CONTENT_LENGTH
  | WSI_TOKEN_HTTP_CONTENT_TYPE

datatype lws_call =
    Add_header http_header "u8 list"
  | Body_pending bool
  | Callback_on_writable
  | Http_client_read nat
  | Write_http "u8 list"

definition media_type :: "u8 list" where
  "media_type = ascii ''application/teep+cbor''"

text \<open>\<^verbatim>\<open>snprintf\<close> of a length, for the header.\<close>

fun decimal :: "nat \<Rightarrow> u8 list" where
  "decimal n = (if n < 10 then [0x30 + of_nat n] else decimal (n div 10) @ [0x30 + of_nat (n mod 10)])"

declare decimal.simps [simp del]

section \<open>The callbacks\<close>

text \<open>
  The result of a callback, the request and the calls that were made; \<open>dummy\<close> is what
  \<^verbatim>\<open>lws_callback_http_dummy\<close> gives in the end.
\<close>

definition receive_body ::
    "int \<Rightarrow> u8 list \<Rightarrow> libteep_async \<Rightarrow> int \<times> libteep_async \<times> lws_call list" where
  "receive_body dummy bytes laoa =
     (if max_out_len laoa < length (io_out (io laoa)) + length bytes
      then (-1, laoa\<lparr>result := TR_FAIL_OVERSIZE\<rparr>, [])
      else (dummy, laoa\<lparr>io := (io laoa)\<lparr>io_out := io_out (io laoa) @ bytes\<rparr>\<rparr>, []))"

definition write_body ::
    "int \<Rightarrow> int \<Rightarrow> libteep_async \<Rightarrow> int \<times> libteep_async \<times> lws_call list" where
  "write_body dummy written laoa =
     (if written < 0 then (-1, laoa, [Write_http (io_in (io laoa))])
      else (dummy, laoa, [Write_http (io_in (io laoa)), Body_pending False]))"

fun callback_teep ::
    "lws_event \<Rightarrow> int \<Rightarrow> libteep_async \<Rightarrow> int \<times> libteep_async \<times> lws_call list" where
  "callback_teep CLIENT_CONNECTION_ERROR dummy laoa = (dummy, laoa\<lparr>result := TR_FAIL_CONN_ERR\<rparr>, [])"
| "callback_teep CLOSED_CLIENT_HTTP dummy laoa =
     (dummy, if result laoa = TR_ONGOING then laoa\<lparr>result := TR_FAIL_CLOSED\<rparr> else laoa, [])"
| "callback_teep (ESTABLISHED_CLIENT_HTTP response) dummy laoa =
     (let laoa = laoa\<lparr>http_resp := response\<rparr> in
      if response = 204 then (0, laoa\<lparr>result := TR_OKAY\<rparr>, []) else (dummy, laoa, []))"
| "callback_teep (CLIENT_APPEND_HANDSHAKE_HEADER accept len type) dummy laoa =
     (let c1 = Add_header (Header_name (ascii ''Accept:'')) media_type;
          c2 = Add_header WSI_TOKEN_HTTP_CONTENT_LENGTH (decimal (length (io_in (io laoa))));
          c3 = Add_header WSI_TOKEN_HTTP_CONTENT_TYPE media_type in
      if \<not> accept then (-1, laoa, [c1])
      else if \<not> len then (-1, laoa, [c1, c2])
      else if \<not> type then (-1, laoa, [c1, c2, c3])
      else (dummy, laoa, [c1, c2, c3, Body_pending True, Callback_on_writable]))"
| "callback_teep COMPLETED_CLIENT_HTTP dummy laoa = (dummy, laoa\<lparr>result := TR_OKAY\<rparr>, [])"
| "callback_teep (RECEIVE_CLIENT_HTTP_READ bytes) dummy laoa = receive_body dummy bytes laoa"
| "callback_teep (RECEIVE_CLIENT_HTTP r) dummy laoa =
     (if r < 0 then -1 else 0, laoa, [Http_client_read 1024])"
| "callback_teep (CLIENT_HTTP_WRITEABLE written) dummy laoa = write_body dummy written laoa"
| "callback_teep OTHER_REASON dummy laoa = (dummy, laoa, [])"

fun callback_download_ta_image ::
    "lws_event \<Rightarrow> int \<Rightarrow> libteep_async \<Rightarrow> int \<times> libteep_async \<times> lws_call list" where
  "callback_download_ta_image CLIENT_CONNECTION_ERROR dummy laoa = (dummy, laoa\<lparr>result := TR_FAIL_CONN_ERR\<rparr>, [])"
| "callback_download_ta_image CLOSED_CLIENT_HTTP dummy laoa =
     (dummy, if result laoa = TR_ONGOING then laoa\<lparr>result := TR_FAIL_CLOSED\<rparr> else laoa, [])"
| "callback_download_ta_image (ESTABLISHED_CLIENT_HTTP response) dummy laoa =
     (let laoa = laoa\<lparr>http_resp := response\<rparr> in
      if response \<noteq> 200 then (-1, laoa\<lparr>result := TR_FAIL_REFUSED\<rparr>, []) else (dummy, laoa, []))"
| "callback_download_ta_image (CLIENT_APPEND_HANDSHAKE_HEADER accept len type) dummy laoa = (dummy, laoa, [])"
| "callback_download_ta_image COMPLETED_CLIENT_HTTP dummy laoa = (dummy, laoa\<lparr>result := TR_OKAY\<rparr>, [])"
| "callback_download_ta_image (RECEIVE_CLIENT_HTTP_READ bytes) dummy laoa = receive_body dummy bytes laoa"
| "callback_download_ta_image (RECEIVE_CLIENT_HTTP r) dummy laoa =
     (if r < 0 then -1 else 0, laoa, [Http_client_read 1024])"
| "callback_download_ta_image (CLIENT_HTTP_WRITEABLE written) dummy laoa = write_body dummy written laoa"
| "callback_download_ta_image OTHER_REASON dummy laoa = (dummy, laoa, [])"

section \<open>The event loop\<close>

text \<open>
  One call of \<^verbatim>\<open>lws_service\<close>: the events it delivers, each with the answer of the dummy callback,
  and its result.
\<close>

type_synonym service_round = "(lws_event \<times> int) list \<times> int"
type_synonym callback = "lws_event \<Rightarrow> int \<Rightarrow> libteep_async \<Rightarrow> int \<times> libteep_async \<times> lws_call list"

definition deliver :: "callback \<Rightarrow> (lws_event \<times> int) list \<Rightarrow> libteep_async \<Rightarrow> libteep_async" where
  "deliver callback events laoa = fold (\<lambda>(e, dummy) laoa. fst (snd (callback e dummy laoa))) events laoa"

text \<open>\<open>None\<close> when the loop is still running behind the last of the rounds.\<close>

fun service_loop :: "callback \<Rightarrow> service_round list \<Rightarrow> libteep_async \<Rightarrow> libteep_async option" where
  "service_loop callback [] laoa = None"
| "service_loop callback ((events, r) # rounds) laoa =
     (let laoa = deliver callback events laoa in
      if r = 0 \<and> result laoa = TR_ONGOING then service_loop callback rounds laoa else Some laoa)"

section \<open>The two functions\<close>

text \<open>
  What libwebsockets and the allocator do for one request: whether a context is created, the
  address split into protocol, host, port and path, whether the request is allocated, whether the
  connection with its host, port, path, method and TLS is started and which events come with that,
  and the rounds of events.
\<close>

record lws =
  lws_create_context :: bool
  lws_parse_uri :: "u8 list \<Rightarrow> (u8 list \<times> u8 list \<times> int \<times> u8 list) option"
  alloc_async :: bool
  lws_client_connect :: "u8 list \<Rightarrow> int \<Rightarrow> u8 list \<Rightarrow> string \<Rightarrow> bool \<Rightarrow> bool \<times> (lws_event \<times> int) list"
  lws_rounds :: "service_round list"

text \<open>
  The result and what is in the buffer for it. The outer \<open>None\<close> is a request that does not end,
  the inner one undefined behaviour: an address without a NUL in the 200 bytes it is copied to, or
  a path that fills its array. The result of the loop counts as success whenever it is not negative.
\<close>

definition http_request ::
    "string \<Rightarrow> callback \<Rightarrow> lws \<Rightarrow> u8 list \<Rightarrow> u8 list \<Rightarrow> nat \<Rightarrow> (int \<times> u8 list) option option" where
  "http_request method callback lws url data out_len =
     (if \<not> lws_create_context lws then Some (Some (-1, []))
      else
        case c_string (strncpy (replicate 200 0) url 200) of
          None \<Rightarrow> Some None
        | Some tmp_url \<Rightarrow>
            case lws_parse_uri lws tmp_url of
              None \<Rightarrow> Some (Some (-1, []))
            | Some (proto, address, port, path_slash_dropped) \<Rightarrow>
                let path = 0x2F # strncpy (replicate 199 0) path_slash_dropped 199 in
                if \<not> alloc_async lws then Some (Some (-1, []))
                else
                  let laoa = \<lparr>io = \<lparr>io_in = data, io_out = []\<rparr>, max_out_len = out_len, http_resp = 0,
                              result = TR_OKAY\<rparr> in
                  if proto \<noteq> ascii ''https'' \<and> proto \<noteq> ascii ''http'' then Some (Some (-1, []))
                  else
                    case c_string path of
                      None \<Rightarrow> Some None
                    | Some path \<Rightarrow>
                        case lws_client_connect lws address port path method (proto = ascii ''https'') of
                          (connected, events) \<Rightarrow>
                        let laoa = deliver callback events laoa in
                        if \<not> connected then Some (Some (-1, io_out (io laoa)))
                        else
                          case service_loop callback (lws_rounds lws) (laoa\<lparr>result := TR_ONGOING\<rparr>) of
                            None \<Rightarrow> None
                          | Some laoa \<Rightarrow>
                              if tam_result_value (result laoa) < 0
                              then Some (Some (tam_result_value (result laoa), io_out (io laoa)))
                              else Some (Some (0, io_out (io laoa))))"

definition http_get :: "lws \<Rightarrow> u8 list \<Rightarrow> nat \<Rightarrow> (int \<times> u8 list) option option" where
  "http_get lws url out_len = http_request ''GET'' callback_download_ta_image lws url [] out_len"

definition http_post :: "lws \<Rightarrow> u8 list \<Rightarrow> u8 list \<Rightarrow> nat \<Rightarrow> (int \<times> u8 list) option option" where
  "http_post lws url data out_len = http_request ''POST'' callback_teep lws url data out_len"

end
