(* ===== verification/Http_Proofs.thy ===== *)
theory Http_Proofs
  imports Http_Lws
begin

text \<open>
  The answers of a request: what has been received is never longer than the buffer, and it is the
  bytes that were delivered, one after the other, as long as they fit.
\<close>

section \<open>The callbacks\<close>

text \<open>What both callbacks do to the answer.\<close>

definition body_of :: "lws_event \<Rightarrow> u8 list" where
  "body_of e = (case e of RECEIVE_CLIENT_HTTP_READ bytes \<Rightarrow> bytes | _ \<Rightarrow> [])"

definition appends :: "callback \<Rightarrow> bool" where
  "appends callback \<longleftrightarrow>
     (\<forall>e dummy laoa.
        let laoa' = fst (snd (callback e dummy laoa)) in
        max_out_len laoa' = max_out_len laoa \<and>
        io_out (io laoa') =
          (if length (io_out (io laoa)) + length (body_of e) \<le> max_out_len laoa
           then io_out (io laoa) @ body_of e else io_out (io laoa)))"

lemma callback_appends: "appends callback_teep" "appends callback_download_ta_image"
proof -
  have "max_out_len (fst (snd (callback_teep e d l))) = max_out_len l \<and>
    io_out (io (fst (snd (callback_teep e d l)))) =
      (if length (io_out (io l)) + length (body_of e) \<le> max_out_len l then io_out (io l) @ body_of e else io_out (io l))"
    for e d l
    by (cases e) (auto simp: body_of_def receive_body_def write_body_def Let_def)
  then show "appends callback_teep" by (simp add: appends_def Let_def)
  have "max_out_len (fst (snd (callback_download_ta_image e d l))) = max_out_len l \<and>
    io_out (io (fst (snd (callback_download_ta_image e d l)))) =
      (if length (io_out (io l)) + length (body_of e) \<le> max_out_len l then io_out (io l) @ body_of e else io_out (io l))"
    for e d l
    by (cases e) (auto simp: body_of_def receive_body_def write_body_def Let_def)
  then show "appends callback_download_ta_image" by (simp add: appends_def Let_def)
qed

lemma appendsD:
  assumes "appends callback"
  shows "max_out_len (fst (snd (callback e dummy laoa))) = max_out_len laoa"
    and "io_out (io (fst (snd (callback e dummy laoa)))) =
      (if length (io_out (io laoa)) + length (body_of e) \<le> max_out_len laoa
       then io_out (io laoa) @ body_of e else io_out (io laoa))"
  using assms by (simp_all add: appends_def Let_def)

section \<open>The loop\<close>

text \<open>The bytes a list of events delivers.\<close>

definition delivered :: "(lws_event \<times> int) list \<Rightarrow> u8 list" where
  "delivered events = concat (map (body_of o fst) events)"

lemma deliver_bounded:
  assumes "appends callback" and "length (io_out (io laoa)) \<le> max_out_len laoa"
  shows "max_out_len (deliver callback events laoa) = max_out_len laoa \<and>
    length (io_out (io (deliver callback events laoa))) \<le> max_out_len laoa"
  using assms(2)
proof (induction events arbitrary: laoa)
  case (Cons e events)
  let ?laoa = "fst (snd (callback (fst e) (snd e) laoa))"
  have "max_out_len ?laoa = max_out_len laoa" "length (io_out (io ?laoa)) \<le> max_out_len laoa"
    using appendsD [OF assms(1), of "fst e" "snd e" laoa] Cons.prems by (simp_all split: if_split_asm)
  then show ?case using Cons.IH [of ?laoa] by (simp add: deliver_def case_prod_beta)
qed (simp add: deliver_def)

lemma deliver_whole:
  assumes "appends callback" and "length (io_out (io laoa)) + length (delivered events) \<le> max_out_len laoa"
  shows "max_out_len (deliver callback events laoa) = max_out_len laoa \<and>
    io_out (io (deliver callback events laoa)) = io_out (io laoa) @ delivered events"
  using assms(2)
proof (induction events arbitrary: laoa)
  case (Cons e events)
  let ?laoa = "fst (snd (callback (fst e) (snd e) laoa))"
  have "max_out_len ?laoa = max_out_len laoa" "io_out (io ?laoa) = io_out (io laoa) @ body_of (fst e)"
    using appendsD [OF assms(1), of "fst e" "snd e" laoa] Cons.prems by (simp_all add: delivered_def)
  then show ?case
    using Cons.IH [of ?laoa] Cons.prems by (simp add: deliver_def delivered_def case_prod_beta)
qed (simp add: deliver_def delivered_def)

text \<open>The loop stops behind some of the rounds, and these are the ones whose events count.\<close>

lemma service_loop_stops:
  assumes "service_loop callback rounds laoa = Some laoa'"
  shows "\<exists>k. 0 < k \<and> k \<le> length rounds \<and> laoa' = deliver callback (concat (map fst (take k rounds))) laoa \<and>
    (snd (rounds ! (k - 1)) \<noteq> 0 \<or> result laoa' \<noteq> TR_ONGOING)"
  using assms
proof (induction callback rounds laoa rule: service_loop.induct)
  case (2 callback events r rounds laoa)
  let ?laoa = "deliver callback events laoa"
  show ?case
  proof (cases "r = 0 \<and> result ?laoa = TR_ONGOING")
    case True
    then have "service_loop callback rounds ?laoa = Some laoa'" using 2(2) by (simp add: Let_def)
    then obtain k where k: "0 < k" "k \<le> length rounds"
      "laoa' = deliver callback (concat (map fst (take k rounds))) ?laoa"
      "snd (rounds ! (k - 1)) \<noteq> 0 \<or> result laoa' \<noteq> TR_ONGOING"
      using 2(1) [OF refl True] by blast
    then show ?thesis
      by (intro exI [of _ "Suc k"]) (auto simp: deliver_def nth_Cons split: nat.split)
  next
    case False
    then show ?thesis using 2(2) by (intro exI [of _ 1]) (auto simp: Let_def)
  qed
qed simp

section \<open>The two functions\<close>

text \<open>A request as the callbacks find it, before it is connected.\<close>

definition new_async :: "u8 list \<Rightarrow> nat \<Rightarrow> libteep_async" where
  "new_async data n =
     \<lparr>io = \<lparr>io_in = data, io_out = []\<rparr>, max_out_len = n, http_resp = 0, result = TR_OKAY\<rparr>"

lemma new_async_simps [simp]: "max_out_len (new_async data n) = n" "io_out (io (new_async data n)) = []"
  by (simp_all add: new_async_def)

text \<open>
  A request that is connected: the address was cut into its parts, and there are the events that
  came with the connection.
\<close>

definition connects :: "string \<Rightarrow> lws \<Rightarrow> u8 list \<Rightarrow> (lws_event \<times> int) list \<Rightarrow> bool" where
  "connects method lws url events \<longleftrightarrow>
     lws_create_context lws \<and> alloc_async lws \<and> length url < 200 \<and> 0 \<notin> set url \<and>
     (\<exists>proto address port path.
        lws_parse_uri lws url = Some (proto, address, port, path) \<and>
        (proto = ascii ''https'' \<or> proto = ascii ''http'') \<and> length path < 199 \<and> 0 \<notin> set path \<and>
        lws_client_connect lws address port (0x2F # path) method (proto = ascii ''https'') = (True, events))"

lemma c_string_strncpy:
  assumes "0 \<notin> set s" and "length s < n"
  shows "c_string (strncpy dst s n) = Some s"
proof -
  obtain k where k: "n = length s + Suc k" using assms(2) less_iff_Suc_add by auto
  show ?thesis
    using c_string_append [OF assms(1)] by (simp add: k strncpy_def)
qed

lemma c_string_overlong: "0 \<notin> set s \<Longrightarrow> n \<le> length s \<Longrightarrow> length dst = n \<Longrightarrow> c_string (strncpy dst s n) = None"
  using in_set_takeD [of 0 n s] by (auto simp: strncpy_def c_string_None)

lemma http_request_connected:
  assumes "connects method lws url events"
  shows "http_request method callback lws url data n =
    map_option (\<lambda>laoa. Some (if tam_result_value (result laoa) < 0 then tam_result_value (result laoa) else 0,
        io_out (io laoa)))
      (service_loop callback (lws_rounds lws) ((deliver callback events (new_async data n))\<lparr>result := TR_ONGOING\<rparr>))"
proof -
  obtain proto address port path where p: "lws_parse_uri lws url = Some (proto, address, port, path)"
    "proto = ascii ''https'' \<or> proto = ascii ''http''" "length path < 199" "0 \<notin> set path"
    "lws_client_connect lws address port (0x2F # path) method (proto = ascii ''https'') = (True, events)"
    and l: "lws_create_context lws" "alloc_async lws" "length url < 200" "0 \<notin> set url"
    using assms unfolding connects_def by blast
  show ?thesis
    using p l c_string_strncpy [OF l(4,3)] c_string_strncpy [OF p(4,3)]
    by (auto simp: http_request_def Let_def new_async_def split: option.split)
qed

lemma http_request_bounded:
  assumes "http_request method callback lws url data n = Some (Some (r, bytes))" and a: "appends callback"
  shows "length bytes \<le> n"
proof -
  let ?laoa = "\<lambda>events. deliver callback events (new_async data n)"
  consider "bytes = []" | events where "bytes = io_out (io (?laoa events))"
    | events laoa' where "bytes = io_out (io laoa')"
        "service_loop callback (lws_rounds lws) ((?laoa events)\<lparr>result := TR_ONGOING\<rparr>) = Some laoa'"
    using assms(1)
    by (auto simp: http_request_def Let_def new_async_def split: if_split_asm option.split_asm prod.split_asm)
  then show ?thesis
  proof cases
    case 2
    then show ?thesis using deliver_bounded [OF a, of "new_async data n" events] by simp
  next
    case 3
    have b: "max_out_len (?laoa events) = n \<and> length (io_out (io (?laoa events))) \<le> n"
      using deliver_bounded [OF a, of "new_async data n" events] by simp
    obtain k where "laoa' = deliver callback (concat (map fst (take k (lws_rounds lws)))) ((?laoa events)\<lparr>result := TR_ONGOING\<rparr>)"
      using service_loop_stops [OF 3(2)] by blast
    then show ?thesis using deliver_bounded [OF a, of "(?laoa events)\<lparr>result := TR_ONGOING\<rparr>"] b 3(1) by simp
  qed simp
qed

text \<open>A loop whose calls of the service fail while the request is still going on.\<close>

lemma service_loop_prefix:
  "\<forall>k < length rounds. snd (rounds ! k) = 0 \<and>
      result (deliver callback (concat (map fst (take (Suc k) rounds))) laoa) = TR_ONGOING \<Longrightarrow>
    service_loop callback (rounds @ rest) laoa =
      service_loop callback rest (deliver callback (concat (map fst rounds)) laoa)"
proof (induction rounds arbitrary: laoa)
  case (Cons x rounds)
  have "snd x = 0" "result (deliver callback (fst x) laoa) = TR_ONGOING"
    using Cons.prems by (auto dest: spec [of _ 0])
  moreover have "\<forall>k < length rounds. snd (rounds ! k) = 0 \<and>
      result (deliver callback (concat (map fst (take (Suc k) rounds))) (deliver callback (fst x) laoa)) = TR_ONGOING"
    using Cons.prems by (auto simp: deliver_def dest: spec [of _ "Suc _"])
  ultimately show ?case using Cons.IH [of "deliver callback (fst x) laoa"]
    by (cases x) (simp add: Let_def, simp add: deliver_def)
qed (simp add: deliver_def)

text \<open>An address of 200 bytes or more is not a string any more in the array it is copied to.\<close>

lemma long_address_undefined:
  "lws_create_context lws \<Longrightarrow> 0 \<notin> set url \<Longrightarrow> 200 \<le> length url \<Longrightarrow>
     http_request method callback lws url data n = Some None"
  using c_string_overlong [of url 200 "replicate 200 0"] by (simp add: http_request_def)

end
