(* ===== verification/Broker_Proofs.thy ===== *)
theory Broker_Proofs
  imports Broker Teec_Proofs Http_Proofs
begin

text \<open>
  The broker on top of the agent: what it relies on of the network, the sessions it can drive the
  agent into, and how a run ends.
\<close>

section \<open>The network as an interface\<close>

text \<open>The broker relies on nothing but that an answer is not longer than the buffer for it.\<close>

locale http_client =
  fixes post :: "'n \<Rightarrow> u8 list \<Rightarrow> u8 list \<Rightarrow> nat \<Rightarrow> http_answer \<times> 'n"
    and get :: "'n \<Rightarrow> u8 list \<Rightarrow> nat \<Rightarrow> http_answer \<times> 'n"
  assumes post_bounded: "post st url data n = (Some (Some (r, bytes)), st') \<Longrightarrow> length bytes \<le> n"
    and get_bounded: "get st url n = (Some (Some (r, bytes)), st') \<Longrightarrow> length bytes \<le> n"

text \<open>The network of libwebsockets: its state is what the library is going to do, request by request.\<close>

definition lws_post :: "lws list \<Rightarrow> u8 list \<Rightarrow> u8 list \<Rightarrow> nat \<Rightarrow> http_answer \<times> lws list" where
  "lws_post ls url data n = (case ls of [] \<Rightarrow> (None, []) | l # ls \<Rightarrow> (http_post l url data n, ls))"

definition lws_get :: "lws list \<Rightarrow> u8 list \<Rightarrow> nat \<Rightarrow> http_answer \<times> lws list" where
  "lws_get ls url n = (case ls of [] \<Rightarrow> (None, []) | l # ls \<Rightarrow> (http_get l url n, ls))"

definition lws_network :: "lws list network" where
  "lws_network = \<lparr>net_post = lws_post, net_get = lws_get\<rparr>"

interpretation lws_net: http_client lws_post lws_get
  by unfold_locales
    (auto simp: lws_post_def lws_get_def http_post_def http_get_def
      dest: http_request_bounded [OF _ callback_appends(1)] http_request_bounded [OF _ callback_appends(2)]
      split: list.split_asm)

section \<open>The sessions of the broker\<close>

text \<open>The memory the broker writes to.\<close>

definition broker_memory :: "broker_layout \<Rightarrow> ptr set" where
  "broker_memory l =
     block_bytes (task_uri l, of_nat TEEP_MAX_URI_LEN) \<union>
     block_bytes (task_post_data l, of_nat TEEP_MAX_MESSAGE_LEN) \<union>
     block_bytes (http_res_buf l, of_nat http_res_buf_size)"

definition broker_env_ok :: "('d, 'pk, 'n) broker_env \<Rightarrow> bool" where
  "broker_env_ok env \<longleftrightarrow>
     malloc_ok (dev_env env) \<and> malloc_clear (dev_env env) (broker_memory (dev_layout env)) \<and> length (stack_params env) = 4"

text \<open>
  The states between the calls of a run: opened, and then any of the things the broker does. As
  for the agent, calls that run out of memory while a manifest is replaced are not covered.
\<close>

inductive broker_reaches :: "('d, 'pk, 'n) broker_env \<Rightarrow> 'n broker_ctx \<Rightarrow> bool" for env where
  at_start: "fresh_world w \<Longrightarrow> broker_ctx_init env raw w st = Some (0, Some ctx, w') \<Longrightarrow> broker_reaches env ctx"
| at_option: "broker_reaches env ctx \<Longrightarrow> set_agent_dev_option env opt v ctx = Some (Some (n, ctx')) \<Longrightarrow>
    manifests_live (dev_world ctx') \<Longrightarrow> broker_reaches env ctx'"
| at_query: "broker_reaches env ctx \<Longrightarrow> agent_query_next_broker_task env ctx = Some (Some (n, task, ctx')) \<Longrightarrow>
    manifests_live (dev_world ctx') \<Longrightarrow> broker_reaches env ctx'"
| at_post: "broker_reaches env ctx \<Longrightarrow> broker_http_post env task ctx = Some (Some (n, ctx')) \<Longrightarrow>
    manifests_live (dev_world ctx') \<Longrightarrow> broker_reaches env ctx'"
| at_get: "broker_reaches env ctx \<Longrightarrow> broker_http_get env task ctx = Some (Some (n, ctx')) \<Longrightarrow>
    manifests_live (dev_world ctx') \<Longrightarrow> broker_reaches env ctx'"

definition device_ok :: "('d, 'pk, 'n) broker_env \<Rightarrow> 'n broker_ctx \<Rightarrow> bool" where
  "device_ok env ctx \<longleftrightarrow>
     reachable (dev_env env) (dev_world ctx) (dev_session ctx) \<and>
     blocks_clear (broker_memory (dev_layout env)) (dev_world ctx)"

lemma invoke_device_ok:
  assumes "invoke env cmd operation ctx = Some (Some (r, operation', ctx'))" and "broker_env_ok env"
    and "device_ok env ctx" and "outputs_in (broker_memory (dev_layout env)) operation"
    and "manifests_live (dev_world ctx')"
  shows "device_ok env ctx'"
proof -
  obtain w s where "TEEC_InvokeCommand (dev_env env) (dev_world ctx) (dev_session ctx) cmd (stack_params env) operation =
      Some (Some (r, w, s, operation'))" "ctx' = ctx\<lparr>dev_world := w, dev_session := s\<rparr>"
    using assms(1) by (auto simp: invoke_def)
  then show ?thesis
    using teec_invoke_reachable [of "dev_env env" "dev_world ctx" "dev_session ctx" "broker_memory (dev_layout env)"] assms(2-5)
    by (simp add: device_ok_def broker_env_ok_def)
qed

lemma less_4_cases: "(k :: nat) < 4 \<Longrightarrow> k = 0 \<or> k = 1 \<or> k = 2 \<or> k = 3"
  by linarith

lemma broker_outputs:
  "outputs_in X (option_operation opt v n)" "outputs_in X (task_done_operation p n)"
  by (auto simp: outputs_in_def option_operation_def task_done_operation_def zero_operation_def
      TEEC_PARAM_TYPES_def TEEC_PARAM_TYPE_GET_def Let_def dest!: less_4_cases)

lemma query_outputs: "outputs_in (broker_memory l) (query_operation l)"
  by (auto simp: outputs_in_def query_operation_def zero_operation_def TEEC_PARAM_TYPES_def TEEC_PARAM_TYPE_GET_def
      broker_memory_def Let_def dest!: less_4_cases)

lemma option_device_ok:
  assumes "set_agent_dev_option env opt v ctx = Some (Some (n, ctx'))" and "broker_env_ok env" and "device_ok env ctx"
    and "manifests_live (dev_world ctx')"
  shows "device_ok env ctx'"
  using assms invoke_device_ok [OF _ assms(2,3) broker_outputs(1) assms(4)]
  by (auto simp: set_agent_dev_option_def Let_def split: option.split_asm)

lemma task_done_device_ok:
  assumes "agent_broker_task_done env p k ctx = Some (Some (n, ctx'))" and "broker_env_ok env" and "device_ok env ctx"
    and "manifests_live (dev_world ctx')"
  shows "device_ok env ctx'"
  using assms invoke_device_ok [OF _ assms(2,3) broker_outputs(2) assms(4)]
  by (auto simp: agent_broker_task_done_def Let_def)

lemma query_device_ok:
  assumes "agent_query_next_broker_task env ctx = Some (Some (n, task, ctx'))" and "broker_env_ok env"
    and "device_ok env ctx" and "manifests_live (dev_world ctx')"
  shows "device_ok env ctx'"
  using assms invoke_device_ok [OF _ assms(2,3) query_outputs assms(4)]
  by (auto simp: agent_query_next_broker_task_def Let_def split: if_split_asm)

lemma answer_device_ok:
  assumes a: "take_answer env (answer, st) ctx = Some (Some (n, ctx'))"
    and bounded: "\<And>r bytes. answer = Some (Some (r, bytes)) \<Longrightarrow> length bytes \<le> http_res_buf_size"
    and env: "broker_env_ok env" and ok: "device_ok env ctx" and live: "manifests_live (dev_world ctx')"
  shows "device_ok env ctx'"
proof -
  obtain r bytes where answer: "answer = Some (Some (r, bytes))"
    using a by (auto simp: take_answer_def split: option.split_asm)
  let ?w = "dev_world ctx"
  let ?w1 = "?w\<lparr>w_memory := copy_bytes (w_memory ?w) (http_res_buf (dev_layout env)) bytes\<rparr>"
  let ?ctx = "ctx\<lparr>dev_world := ?w1, net_state := st\<rparr>"
  let ?n = "of_nat (length bytes) :: u64"
  have len: "length bytes \<le> http_res_buf_size" by (rule bounded [OF answer])
  then have n: "unat ?n = length bytes" by (simp add: http_res_buf_size_def take_bit_nat_eq_self unat_of_nat)
  have sub: "block_bytes (http_res_buf (dev_layout env), ?n) \<subseteq> broker_memory (dev_layout env)"
    using len n block_bytes_mono [of ?n "of_nat http_res_buf_size"]
    by (auto simp: broker_memory_def http_res_buf_size_def)
  have "copy_bytes (w_memory ?w) (http_res_buf (dev_layout env)) bytes x = w_memory ?w x"
    if "b \<in> set (w_blocks ?w)" "x \<in> block_bytes b" for b x
    using that sub n ok by (intro copy_bytes_outside) (auto simp: device_ok_def blocks_clear_def)
  then have "same_heap ?w ?w1" by (auto simp: same_heap_def survives_def)
  moreover have "heap_ok ?w"
    using ok env reachable_ok by (auto simp: device_ok_def broker_env_ok_def agent_ok_def)
  then have "heap_ok ?w1" by (simp add: heap_ok_def)
  ultimately have "reachable (dev_env env) ?w1 (dev_session ctx)"
    using ok reach_outside [OF _ same_heap_keeps] unfolding device_ok_def by blast
  then have "device_ok env ?ctx" using ok by (simp add: device_ok_def blocks_clear_def)
  then show ?thesis
    using a answer task_done_device_ok [OF _ env _ live] by (auto simp: take_answer_def Let_def split: if_split_asm)
qed

text \<open>Without parameters, nothing is prepared and nothing written back.\<close>

lemma no_type [simp]: "TEE_PARAM_TYPE_GET 0 i = TEE_PARAM_TYPE_NONE" "TEEC_PARAM_TYPE_GET 0 i = TEEC_NONE"
  by (simp_all add: TEE_PARAM_TYPE_GET_def TEEC_PARAM_TYPE_GET_def)

lemma prepare_nothing: "prepare_loop env 0 i qs ps w = Some (ps', w') \<Longrightarrow> w' = w"
proof (induction qs arbitrary: i ps ps')
  case (Cons q qs)
  then show ?case by (cases ps) (auto simp: prepare_param_def Let_def)
qed simp

lemma writeback_nothing: "writeback_loop 0 i ps qs w = Some (qs', w') \<Longrightarrow> w' = w"
proof (induction ps arbitrary: i qs qs')
  case (Cons p ps)
  then show ?case by (cases qs) (auto simp: writeback_param_def Let_def)
qed simp

lemma prepare_zero_operation:
  assumes "prepare_params env zero_operation ps w = Some (t, ps', w')"
  shows "t = 0 \<and> w' = w"
  using assms prepare_nothing [of env 0 _ ps w]
  by (auto simp: prepare_params_def zero_operation_def prepare_type_def TEE_PARAM_TYPES_def Let_def)

lemma opened_world:
  assumes "TA_OpenSessionEntryPoint env w raw t = (r, Some s, w')"
  shows "\<exists>p. malloc_block env w (env_sizeof_session env) = (p, w')"
proof -
  obtain p w1 where m: "malloc_block env w (env_sizeof_session env) = (p, w1)" by fastforce
  then have "w1 = w'"
    using assms by (simp add: TA_OpenSessionEntryPoint_def teep_agent_session_create_def Let_def split: if_split_asm)
  then show ?thesis using m by blast
qed

lemma init_device_ok:
  assumes "fresh_world w" and init: "broker_ctx_init env raw w st = Some (0, Some ctx, w')" and env: "broker_env_ok env"
  shows "device_ok env ctx"
proof -
  obtain t ps w1 where prep: "prepare_params (dev_env env) zero_operation (stack_params env) w = Some (t, ps, w1)"
    using init by (auto simp: broker_ctx_init_def TEEC_InitializeContext_def TEEC_OpenSession_def split: option.split_asm)
  have [simp]: "t = 0" "w1 = w" using prepare_zero_operation [OF prep] by auto
  obtain r so w2 where ta: "TA_OpenSessionEntryPoint (dev_env env) w raw 0 = (r, so, w2)" by (rule prod_cases3)
  have step: "TEEC_OpenSession (dev_env env) w raw (stack_params env) zero_operation =
      (if r = TEE_SUCCESS then map_option (\<lambda>(op, w). (r, w, so, op)) (writeback_params zero_operation 0 ps w2)
       else Some (r, w2, so, zero_operation))"
    by (simp add: TEEC_OpenSession_def prep ta)
  have run: "broker_ctx_init env raw w st =
      (case (if r = TEE_SUCCESS then map_option (\<lambda>(op, w). (r, w, so, op)) (writeback_params zero_operation 0 ps w2)
             else Some (r, w2, so, zero_operation)) of
         None \<Rightarrow> None
       | Some (r, w, s, op) \<Rightarrow>
           if r \<noteq> TEEC_SUCCESS then Some (-1, None, w)
           else Some (0, map_option (\<lambda>s. \<lparr>dev_world = w, dev_session = s, net_state = st\<rparr>) s, w))"
    unfolding broker_ctx_init_def TEEC_InitializeContext_def step by simp
  have "r = TEE_SUCCESS" using init run by (cases "r = TEE_SUCCESS") simp_all
  with init run obtain op s where wb: "writeback_params zero_operation 0 ps w2 = Some (op, w')"
    and s: "so = Some s" and ctx: "ctx = \<lparr>dev_world = w', dev_session = s, net_state = st\<rparr>"
    by (cases "writeback_params zero_operation 0 ps w2"; cases so) auto
  obtain qs where "writeback_loop 0 0 ps (op_params zero_operation) w2 = Some (qs, w')"
    using wb by (auto simp: writeback_params_def)
  then have w': "w' = w2" by (rule writeback_nothing)
  have r: "reachable (dev_env env) w2 s" using reach_open [OF assms(1)] ta s by simp
  obtain p where "malloc_block (dev_env env) w (env_sizeof_session (dev_env env)) = (p, w2)"
    using opened_world ta s by blast
  then have new: "blocks_from (dev_env env) w w2" by (rule malloc_block_from)
  have "blocks_clear (broker_memory (dev_layout env)) w" using assms(1) by (simp add: fresh_world_def blocks_clear_def)
  moreover have "malloc_clear (dev_env env) (broker_memory (dev_layout env))" using env by (simp add: broker_env_ok_def)
  ultimately have "blocks_clear (broker_memory (dev_layout env)) w2" using blocks_clear_from [OF _ _ new] by blast
  then show ?thesis using r by (simp add: device_ok_def ctx w')
qed

text \<open>With a network that keeps to the interface, every state of a run is in order.\<close>

context http_client
begin

lemma device_reached:
  assumes "broker_reaches env ctx" and "broker_env_ok env" and "dev_net env = \<lparr>net_post = post, net_get = get\<rparr>"
  shows "device_ok env ctx"
  using assms(1)
proof (induction rule: broker_reaches.induct)
  case (at_start w raw st ctx w')
  then show ?case by (rule init_device_ok [OF _ _ assms(2)])
next
  case (at_option ctx opt v n ctx')
  then show ?case using option_device_ok [OF _ assms(2)] by blast
next
  case (at_query ctx n task ctx')
  then show ?case using query_device_ok [OF _ assms(2)] by blast
next
  case (at_post ctx task n ctx')
  then obtain url data where a:
    "take_answer env (post (net_state ctx) url data http_res_buf_size) ctx = Some (Some (n, ctx'))"
    by (auto simp: broker_http_post_def assms(3) Let_def split: option.split_asm)
  obtain answer st where p: "post (net_state ctx) url data http_res_buf_size = (answer, st)" by fastforce
  show ?case
    using answer_device_ok [OF a [unfolded p] _ assms(2) at_post.IH at_post.hyps(3)] post_bounded p by blast
next
  case (at_get ctx task n ctx')
  then obtain url where a: "take_answer env (get (net_state ctx) url http_res_buf_size) ctx = Some (Some (n, ctx'))"
    by (auto simp: broker_http_get_def assms(3) split: option.split_asm)
  obtain answer st where p: "get (net_state ctx) url http_res_buf_size = (answer, st)" by fastforce
  show ?case
    using answer_device_ok [OF a [unfolded p] _ assms(2) at_get.IH at_get.hyps(3)] get_bounded p by blast
qed

end

section \<open>The end of a run\<close>

text \<open>One byte string handed to the agent.\<close>

lemma done_types [simp]:
  "paramTypes (task_done_operation p n) = 5"
  "TEEC_PARAM_TYPE_GET 5 0 = 5" "TEEC_PARAM_TYPE_GET 5 1 = 0" "TEEC_PARAM_TYPE_GET 5 (Suc 0) = 0"
  "TEEC_PARAM_TYPE_GET 5 2 = 0" "TEEC_PARAM_TYPE_GET 5 3 = 0"
  "TEE_PARAM_TYPES 5 0 0 0 = 5"
  "TEE_PARAM_TYPE_GET 5 0 = 5" "TEE_PARAM_TYPE_GET 5 1 = 0" "TEE_PARAM_TYPE_GET 5 (Suc 0) = 0"
  "TEE_PARAM_TYPE_GET 5 (Suc (Suc 0)) = 0" "TEE_PARAM_TYPE_GET 5 (Suc (Suc (Suc 0))) = 0"
  by (simp_all add: task_done_operation_def TEEC_PARAM_TYPES_def TEEC_PARAM_TYPE_GET_def TEE_PARAM_TYPES_def
      TEE_PARAM_TYPE_GET_def Let_def)

lemma prepare_type_simps [simp]: "prepare_type 5 = 5" "prepare_type 0 = 0" "prepare_type 2 = 2" "prepare_type 6 = 6"
  by (simp_all add: prepare_type_def)

definition no_op :: TEEC_Parameter where
  "no_op = \<lparr>op_a = 0, op_b = 0, tmpref_buffer = 0, tmpref_size = 0\<rparr>"

lemma done_params_op: "op_params (task_done_operation p n) =
  \<lparr>op_a = 0, op_b = 0, tmpref_buffer = p, tmpref_size = n\<rparr> # no_op # no_op # [no_op]"
  by (simp add: task_done_operation_def zero_operation_def no_op_def Let_def numeral_eq_Suc)

lemma length_4_cases: "length ps = 4 \<Longrightarrow> \<exists>a b c d. ps = [a, b, c, d]"
  by (auto simp: numeral_eq_Suc length_Suc_conv)

lemma prepare_done:
  assumes "length ps = 4" and "malloc_block env w n = (b, w1)" and "b \<noteq> 0 \<or> n = 0"
  shows "\<exists>ps'. prepare_params env (task_done_operation p n) ps w =
      Some (5, ps', w1\<lparr>w_memory := copy_bytes (w_memory w1) b (peek (w_memory w1) p (unat n))\<rparr>) \<and>
    memref_buffer (ps' ! 0) = b \<and> memref_size (ps' ! 0) = ucast n"
proof -
  obtain p0 p1 p2 p3 where ps: "ps = [p0, p1, p2, p3]" using length_4_cases [OF assms(1)] by blast
  have "b = 0 \<longrightarrow> n = 0" using assms(3) by blast
  then show ?thesis
    using assms(2) by (simp add: prepare_params_def done_params_op ps prepare_param_def Let_def)
qed

text \<open>A message the agent does not understand: the command fails, and its block is not freed.\<close>

lemma bad_message_done:
  assumes "length (stack_params env) = 4" and "unat n < 2 ^ 32" and "n \<noteq> 0"
    and "on_going_task (dev_session ctx)" and "command (task_buffer (dev_session ctx)) = BROKER_HTTP_POST"
    and "state (dev_session ctx) \<noteq> AGENT_POSTING_ERROR"
    and m: "env_malloc (dev_env env) (w_blocks (dev_world ctx)) n = b" "b \<noteq> 0"
    and bad: "\<And>m p. peek m p (unat n) = peek (w_memory (dev_world ctx)) q (unat n) \<Longrightarrow>
      parse_teep_message (env_qcbor (dev_env env) m) \<lparr>ub_ptr = p, ub_len = n\<rparr> = None"
  shows "\<exists>ctx'. agent_broker_task_done env q n ctx = Some (Some (sint TEE_ERROR_BAD_FORMAT, ctx')) \<and>
    w_blocks (dev_world ctx') = (b, n) # w_blocks (dev_world ctx) \<and>
    dev_session ctx' = (dev_session ctx)\<lparr>state := AGENT_POSTING_ERROR, on_going_task := False\<rparr>"
proof -
  let ?w = "dev_world ctx" and ?s = "dev_session ctx"
  let ?w1 = "?w\<lparr>w_blocks := (b, n) # w_blocks ?w,
    w_memory := copy_bytes (w_memory ?w) b (peek (w_memory ?w) q (unat n))\<rparr>"
  have "malloc_block (dev_env env) ?w n = (b, ?w\<lparr>w_blocks := (b, n) # w_blocks ?w\<rparr>)"
    using m by (simp add: malloc_block_def Let_def)
  from prepare_done [OF assms(1) this, of q] m(2) obtain ps where
    prep: "prepare_params (dev_env env) (task_done_operation q n) (stack_params env) ?w = Some (5, ps, ?w1)"
    and p: "memref_buffer (ps ! 0) = b" "memref_size (ps ! 0) = ucast n"
    by auto
  have n: "ucast (ucast n :: u32) = n"
    using assms(2) by (simp add: word_unat_eq_iff unsigned_ucast_eq unsigned_take_bit_eq take_bit_nat_eq_self)
  have "peek (w_memory ?w1) b (unat n) = peek (w_memory ?w) q (unat n)"
    using peek_copy_bytes [of "peek (w_memory ?w) q (unat n)" "w_memory ?w" b] unat_ptr_less [of n] by simp
  from bad [OF this] have "handle_tam_message (dev_env env) ?w1 ?s b n = Some (TEE_ERROR_BAD_FORMAT, ?w1, teep_error ?s)"
    using assms(3,6) by (simp add: handle_tam_message_def)
  then have "TA_InvokeCommandEntryPoint (dev_env env) ?w1 ?s TEEP_AGENT_BROKER_TASK_DONE 5 ps =
      Some (Some (TEE_ERROR_BAD_FORMAT, ?w1, (teep_error ?s)\<lparr>on_going_task := False\<rparr>, ps))"
    using assms(4,5) p n
    by (simp add: TA_InvokeCommandEntryPoint_def handle_TEEP_AGENT_BROKER_TASK_DONE_def broker_task_done_def)
  then show ?thesis
    by (simp add: agent_broker_task_done_def invoke_def TEEC_InvokeCommand_def prep teep_error_def)
qed

text \<open>An empty answer: the agent goes to its last state.\<close>

lemma copy_nothing [simp]: "copy_bytes m p [] = m"
  by (simp add: copy_bytes_def)

lemma free_malloc:
  assumes "malloc_block env w n = (b, w1)" and "w_blocks w2 = w_blocks w1"
  shows "\<exists>w3. free_block w2 b = Some w3 \<and> w_memory w3 = w_memory w2"
  using assms by (auto simp: malloc_block_def free_block_def Let_def split: if_split_asm)

lemma done_writeback:
  assumes "length ps = 4" and "free_block w (memref_buffer (ps ! 0)) = Some w'"
  shows "\<exists>op. writeback_params (task_done_operation p n) 5 ps w = Some (op, w')"
proof -
  obtain p0 p1 p2 p3 where "ps = [p0, p1, p2, p3]" using length_4_cases [OF assms(1)] by blast
  then show ?thesis
    using assms(2) by (simp add: writeback_params_def done_params_op writeback_param_def Let_def)
qed

lemma prepare_params_length:
  assumes "prepare_params env operation ps w = Some (t, ps', w')" and "length ps = 4" and "length (op_params operation) = 4"
  shows "length ps' = 4"
proof -
  have "prepare_loop env t i qs ps w = Some (ps', w') \<Longrightarrow> length ps = length qs \<Longrightarrow> length ps' = length qs" for i qs ps ps' w
  proof (induction qs arbitrary: i ps ps' w)
    case (Cons q qs)
    then show ?case by (cases ps) (auto split: option.split_asm)
  qed simp
  then show ?thesis using assms by (auto simp: prepare_params_def Let_def)
qed

lemma empty_message_done:
  assumes len: "length (stack_params env) = 4" and "on_going_task (dev_session ctx)"
    and "command (task_buffer (dev_session ctx)) = BROKER_HTTP_POST"
  shows "\<exists>ctx'. agent_broker_task_done env q 0 ctx = Some (Some (0, ctx')) \<and>
    dev_session ctx' = (dev_session ctx)\<lparr>state := AGENT_FINISH, on_going_task := False\<rparr>"
proof -
  let ?w = "dev_world ctx" and ?s = "dev_session ctx"
  obtain b w1 where m: "malloc_block (dev_env env) ?w 0 = (b, w1)" by fastforce
  from prepare_done [OF len m, of q] obtain ps where
    prep: "prepare_params (dev_env env) (task_done_operation q 0) (stack_params env) ?w = Some (5, ps, w1)"
    and p: "memref_buffer (ps ! 0) = b" "memref_size (ps ! 0) = 0"
    by auto
  have "length ps = 4" using prepare_params_length [OF prep len] by (simp add: done_params_op)
  moreover obtain w2 where "free_block w1 (memref_buffer (ps ! 0)) = Some w2"
    using free_malloc [OF m refl] p by auto
  ultimately obtain op where wb: "writeback_params (task_done_operation q 0) 5 ps w1 = Some (op, w2)"
    using done_writeback by blast
  have "TA_InvokeCommandEntryPoint (dev_env env) w1 ?s TEEP_AGENT_BROKER_TASK_DONE 5 ps =
      Some (Some (TEE_SUCCESS, w1, ?s\<lparr>state := AGENT_FINISH, on_going_task := False\<rparr>, ps))"
    using assms(2,3) p
    by (simp add: TA_InvokeCommandEntryPoint_def handle_TEEP_AGENT_BROKER_TASK_DONE_def broker_task_done_def
        handle_tam_message_def)
  then show ?thesis
    by (simp add: agent_broker_task_done_def invoke_def TEEC_InvokeCommand_def prep wb)
qed

text \<open>The last task.\<close>

lemma query_types [simp]:
  "TEEC_PARAM_TYPES 2 6 6 0 = 0x662" "TEE_PARAM_TYPES 2 6 6 0 = 0x662"
  "TEEC_PARAM_TYPE_GET 0x662 0 = 2" "TEEC_PARAM_TYPE_GET 0x662 1 = 6" "TEEC_PARAM_TYPE_GET 0x662 (Suc 0) = 6"
  "TEEC_PARAM_TYPE_GET 0x662 2 = 6" "TEEC_PARAM_TYPE_GET 0x662 3 = 0"
  "TEE_PARAM_TYPE_GET 0x662 0 = 2" "TEE_PARAM_TYPE_GET 0x662 (Suc 0) = 6"
  "TEE_PARAM_TYPE_GET 0x662 (Suc (Suc 0)) = 6" "TEE_PARAM_TYPE_GET 0x662 (Suc (Suc (Suc 0))) = 0"
  by (simp_all add: TEEC_PARAM_TYPES_def TEEC_PARAM_TYPE_GET_def TEE_PARAM_TYPES_def TEE_PARAM_TYPE_GET_def)

lemma query_operation_simps:
  "paramTypes (query_operation l) = 0x662"
  "op_params (query_operation l) =
     [no_op, no_op\<lparr>tmpref_buffer := task_uri l, tmpref_size := 512\<rparr>,
      no_op\<lparr>tmpref_buffer := task_post_data l, tmpref_size := 2048\<rparr>, no_op]"
  by (simp_all add: query_operation_def zero_operation_def no_op_def TEEP_MAX_URI_LEN_def TEEP_MAX_MESSAGE_LEN_def
      Let_def numeral_eq_Suc)

lemma prepare_query:
  assumes "length ps = 4" and m1: "malloc_block env w 512 = (b1, w1)"
    and m2: "malloc_block env (w1\<lparr>w_memory := copy_bytes (w_memory w1) b1 (replicate 512 0)\<rparr>) 2048 = (b2, w2)"
  shows "if b1 = 0 \<or> b2 = 0 then prepare_params env (query_operation l) ps w = None
    else \<exists>p0 p1 p2 p3 m. prepare_params env (query_operation l) ps w = Some (0x662, [p0, p1, p2, p3], w2\<lparr>w_memory := m\<rparr>) \<and>
      memref_buffer p1 = b1 \<and> memref_size p1 = 512 \<and> memref_buffer p2 = b2 \<and> memref_size p2 = 2048"
proof -
  obtain q0 q1 q2 q3 where ps: "ps = [q0, q1, q2, q3]" using length_4_cases [OF assms(1)] by blast
  show ?thesis
    using m1 m2 by (simp add: prepare_params_def query_operation_simps prepare_param_def ps Let_def) blast
qed

lemma finish_copy:
  assumes "uri (task_buffer s) \<noteq> []" and "memref_buffer p1 = b1" "memref_size p1 = 512"
    and "memref_buffer p2 = b2" "memref_size p2 = 2048"
  shows "copy_task w (task_buffer (finish_task s)) [p0, p1, p2, p3] =
    Some (TEE_SUCCESS, w\<lparr>w_memory := copy_bytes (w_memory w) b1 [0]\<rparr>,
      [p0\<lparr>value_a := 2\<rparr>, p1\<lparr>memref_size := 1\<rparr>, p2\<lparr>memref_size := 0\<rparr>, p3])"
proof -
  obtain c cs where "uri (task_buffer s) = c # cs" using assms(1) by (cases "uri (task_buffer s)") auto
  moreover have "[a, b, c, d][2 := x] = [a, b, x, d]" for a b c d x :: TEE_Param
    by (simp add: numeral_2_eq_2)
  ultimately show ?thesis
    using assms(2-5) by (simp add: copy_task_def finish_task_def copyout_param_def Let_def)
qed

lemma finish_writeback:
  assumes f1: "free_block (w\<lparr>w_memory := copy_bytes (w_memory w) (task_uri l) [w_memory w b1]\<rparr>) b1 = Some w1"
    and f2: "free_block w1 b2 = Some w2"
    and "memref_buffer p1 = b1" "memref_size p1 = 1" and "memref_buffer p2 = b2" "memref_size p2 = 0"
  shows "\<exists>op. writeback_params (query_operation l) 0x662 [p0, p1, p2, p3] w = Some (op, w2) \<and>
    op_a (op_params op ! 0) = value_a p0 \<and> tmpref_size (op_params op ! 1) = 1"
  using assms
  by (simp add: writeback_params_def query_operation_simps writeback_param_def Let_def)

text \<open>There is no memory for the two blocks of a query.\<close>

definition no_room :: "('d, 'pk) agent_env \<Rightarrow> world \<Rightarrow> bool" where
  "no_room env w \<longleftrightarrow>
     (let p = env_malloc env (w_blocks w) 512 in p = 0 \<or> env_malloc env ((p, 512) # w_blocks w) 2048 = 0)"

lemma finish_invoke:
  assumes len: "length (stack_params env) = 4" and st: "state (dev_session ctx) = AGENT_FINISH"
    and idle: "\<not> on_going_task (dev_session ctx)" and uri: "uri (task_buffer (dev_session ctx)) \<noteq> []"
    and mal: "malloc_ok (dev_env env)"
  shows "\<exists>x. invoke env TEEP_AGENT_QUERY_NEXT_BROKER_TASK (query_operation (dev_layout env)) ctx = Some x \<and>
    (x = None \<longrightarrow> no_room (dev_env env) (dev_world ctx)) \<and>
    (\<forall>r op ctx'. x = Some (r, op, ctx') \<longrightarrow> r = TEE_SUCCESS \<and> op_a (op_params op ! 0) = 2 \<and>
       tmpref_size (op_params op ! 1) = 1 \<and> w_memory (dev_world ctx') (task_uri (dev_layout env)) = 0)"
proof -
  let ?env = "dev_env env" and ?w = "dev_world ctx" and ?s = "dev_session ctx"
  obtain b1 w1 where m1: "malloc_block ?env ?w 512 = (b1, w1)" by fastforce
  obtain b2 w2 where m2: "malloc_block ?env (w1\<lparr>w_memory := copy_bytes (w_memory w1) b1 (replicate 512 0)\<rparr>) 2048 = (b2, w2)"
    by fastforce
  note prep = prepare_query [OF len m1 m2, of "dev_layout env"]
  show ?thesis
  proof (cases "b1 = 0 \<or> b2 = 0")
    case True
    then have "no_room ?env ?w"
      using m1 m2 by (auto simp: no_room_def malloc_block_def Let_def split: if_split_asm)
    then show ?thesis using prep True by (simp add: invoke_def TEEC_InvokeCommand_def)
  next
    case False
    then obtain p0 p1 p2 p3 m where
      prep: "prepare_params ?env (query_operation (dev_layout env)) (stack_params env) ?w =
        Some (0x662, [p0, p1, p2, p3], w2\<lparr>w_memory := m\<rparr>)"
      and p: "memref_buffer p1 = b1" "memref_size p1 = 512" "memref_buffer p2 = b2" "memref_size p2 = 2048"
      using prep by auto
    let ?w2 = "w2\<lparr>w_memory := copy_bytes m b1 [0]\<rparr>"
    have "query_next_broker_task ?env (w2\<lparr>w_memory := m\<rparr>) ?s = Some (Some (w2\<lparr>w_memory := m\<rparr>, finish_task ?s))"
      using idle st by (intro query_post) (simp_all add: query_round_def finish_task_def)
    then have call: "TA_InvokeCommandEntryPoint ?env (w2\<lparr>w_memory := m\<rparr>) ?s TEEP_AGENT_QUERY_NEXT_BROKER_TASK 0x662 [p0, p1, p2, p3] =
      Some (Some (TEE_SUCCESS, ?w2, finish_task ?s, [p0\<lparr>value_a := 2\<rparr>, p1\<lparr>memref_size := 1\<rparr>, p2\<lparr>memref_size := 0\<rparr>, p3]))"
      using finish_copy [OF uri p, of "w2\<lparr>w_memory := m\<rparr>" p0 p3]
      by (simp add: TA_InvokeCommandEntryPoint_def handle_TEEP_AGENT_QUERY_NEXT_BROKER_TASK_def)
    have blocks: "w_blocks w2 = (b2, 2048) # (b1, 512) # w_blocks ?w"
      and b2: "b2 = env_malloc ?env ((b1, 512) # w_blocks ?w) 2048"
      using m1 m2 False by (auto simp: malloc_block_def Let_def split: if_split_asm)
    have "b2 \<noteq> b1"
      using mal [unfolded malloc_ok_def, rule_format, of "(b1, 512) # w_blocks ?w" 2048 "(b1, 512)"] False
      unfolding b2 by simp
    let ?w3 = "?w2\<lparr>w_memory := copy_bytes (w_memory ?w2) (task_uri (dev_layout env)) [w_memory ?w2 b1]\<rparr>"
    let ?bs = "filter (\<lambda>(q, n). q \<noteq> b1) (w_blocks w2)"
    have f: "free_block ?w3 b1 = Some (?w3\<lparr>w_blocks := ?bs\<rparr>)"
      "free_block (?w3\<lparr>w_blocks := ?bs\<rparr>) b2 = Some (?w3\<lparr>w_blocks := filter (\<lambda>(q, n). q \<noteq> b2) ?bs\<rparr>)"
      using False blocks \<open>b2 \<noteq> b1\<close> by (auto simp: free_block_def)
    from finish_writeback [OF f, of "p1\<lparr>memref_size := 1\<rparr>" "p2\<lparr>memref_size := 0\<rparr>" "p0\<lparr>value_a := 2\<rparr>" p3] p
    obtain op where wb: "writeback_params (query_operation (dev_layout env)) 0x662
        [p0\<lparr>value_a := 2\<rparr>, p1\<lparr>memref_size := 1\<rparr>, p2\<lparr>memref_size := 0\<rparr>, p3] ?w2 =
        Some (op, ?w3\<lparr>w_blocks := filter (\<lambda>(q, n). q \<noteq> b2) ?bs\<rparr>)"
      "op_a (op_params op ! 0) = 2" "tmpref_size (op_params op ! 1) = 1"
      by auto
    have "w_memory ?w3 (task_uri (dev_layout env)) = 0" by (simp add: copy_bytes_def)
    then show ?thesis
      by (simp add: invoke_def TEEC_InvokeCommand_def prep call wb wb(3) [unfolded One_nat_def])
  qed
qed

lemma finish_loop:
  assumes "length (stack_params env) = 4" and "state (dev_session ctx) = AGENT_FINISH"
    and "\<not> on_going_task (dev_session ctx)" and "uri (task_buffer (dev_session ctx)) \<noteq> []"
    and "malloc_ok (dev_env env)"
  shows "\<exists>x. loop_tasks env ctx = Some x \<and> (x = None \<longrightarrow> no_room (dev_env env) (dev_world ctx)) \<and>
    (\<forall>r ctx'. x = Some (r, ctx') \<longrightarrow> r = 0)"
proof -
  obtain x where x: "invoke env TEEP_AGENT_QUERY_NEXT_BROKER_TASK (query_operation (dev_layout env)) ctx = Some x"
    "x = None \<longrightarrow> no_room (dev_env env) (dev_world ctx)"
    "\<And>r op ctx'. x = Some (r, op, ctx') \<Longrightarrow> r = TEE_SUCCESS \<and> op_a (op_params op ! 0) = 2 \<and>
       tmpref_size (op_params op ! 1) = 1 \<and> w_memory (dev_world ctx') (task_uri (dev_layout env)) = 0"
    using finish_invoke [OF assms] by blast
  show ?thesis
  proof (cases x)
    case None
    then have "loop_round env ctx = Some None"
      using x(1) by (simp add: loop_round_def agent_query_next_broker_task_def)
    then show ?thesis using x(2) None by (subst loop_tasks.simps) simp
  next
    case (Some y)
    then obtain r op ctx' where y: "x = Some (r, op, ctx')" by (cases y) auto
    then have "loop_round env ctx = Some (Some (Inl 0, ctx'))"
      using x by (simp add: loop_round_def agent_query_next_broker_task_def Let_def)
    then show ?thesis by (subst loop_tasks.simps) simp
  qed
qed

end
