(* ===== verification/Libteep_Proofs.thy ===== *)
theory Libteep_Proofs
  imports Libteep Cbor_Spec
begin

text \<open>
  What the parser of TEEP messages guarantees, for every decoder: its loops end when the decoder
  advances, the type of a message is the one announced, an update is parsed into the manifests it
  lists, and what is never set. For the encoder: the item a sequence of calls describes.
\<close>

section \<open>Decoders that advance\<close>

text \<open>
  The documented behaviour the loops rely on: an item that is not of type none takes at least
  one byte of the input, and the input stays what it is.
\<close>

definition decoder_ok :: "'d qcbor \<Rightarrow> bool" where
  "decoder_ok q \<longleftrightarrow>
     (\<forall>dc ok item dc'. q_next q dc = (ok, item, dc') \<and> item_data item \<noteq> QCBOR_NONE \<longrightarrow>
        q_input q dc' = q_input q dc \<and> unat (q_tell q dc) < unat (q_tell q dc') \<and>
        unat (q_tell q dc') \<le> unat (ub_len (q_input q dc)))"

lemma decoder_advances:
  "decoder_ok q \<Longrightarrow> q_next q dc = (ok, item, dc') \<Longrightarrow> item_data item \<noteq> QCBOR_NONE \<Longrightarrow>
     left_over q dc' < left_over q dc"
  unfolding decoder_ok_def left_over_def by fastforce

text \<open>The loop of the code that skips an option, with its two ends.\<close>

inductive skips :: "'d qcbor \<Rightarrow> u8 \<Rightarrow> u8 \<Rightarrow> 'd \<Rightarrow> 'd option \<Rightarrow> bool" for q target where
  skips_done: "skips q target target dc (Some dc)"
| skips_none: "level \<noteq> target \<Longrightarrow> q_next q dc = (ok, item, dc') \<Longrightarrow> item_data item = QCBOR_NONE \<Longrightarrow>
    skips q target level dc None"
| skips_next: "level \<noteq> target \<Longrightarrow> q_next q dc = (ok, item, dc') \<Longrightarrow> item_data item \<noteq> QCBOR_NONE \<Longrightarrow>
    skips q target (item_next_nest item) dc' r \<Longrightarrow> skips q target level dc r"

lemma skip_level_skips:
  assumes q: "decoder_ok q"
  shows "left_over q dc \<le> fuel \<Longrightarrow> skips q target level dc (skip_level q fuel target level dc)"
proof (induction fuel arbitrary: dc level)
  case 0
  obtain ok item dc' where n: "q_next q dc = (ok, item, dc')" by (rule prod_cases3)
  then have "item_data item = QCBOR_NONE"
    using decoder_advances [OF q n] 0 by auto
  then show ?case using n by (auto simp: skip_level.simps [of q 0] intro: skips.intros)
next
  case (Suc fuel)
  obtain ok item dc' where n: "q_next q dc = (ok, item, dc')" by (rule prod_cases3)
  show ?case
  proof (cases "level = target \<or> item_data item = QCBOR_NONE")
    case True
    then show ?thesis using n by (auto simp: skip_level.simps [of q "Suc fuel"] intro: skips.intros)
  next
    case False
    have "skips q target (item_next_nest item) dc' (skip_level q fuel target (item_next_nest item) dc')"
      using decoder_advances [OF q n] False Suc.prems by (intro Suc.IH) simp
    then show ?thesis
      using False n by (auto simp: skip_level.simps [of q "Suc fuel"] intro: skips_next)
  qed
qed

lemma skips_unique: "skips q target level dc r \<Longrightarrow> skips q target level dc r' \<Longrightarrow> r = r'"
proof (induction arbitrary: r' rule: skips.induct)
  case (skips_done dc)
  then show ?case by (cases rule: skips.cases) simp_all
next
  case (skips_none level dc ok item dc')
  from skips_none.prems show ?case
    by (cases rule: skips.cases) (use skips_none.hyps in simp_all)
next
  case (skips_next level dc ok item dc' r)
  from skips_next.prems have "skips q target (item_next_nest item) dc' r'"
    by (cases rule: skips.cases) (use skips_next.hyps in simp_all)
  then show ?case by (rule skips_next.IH)
qed

lemma skip_level_iff:
  assumes "decoder_ok q"
  shows "skip_level q (left_over q dc) target level dc = r \<longleftrightarrow> skips q target level dc r"
  using skip_level_skips [OF assms order_refl] skips_unique by metis

section \<open>What is kept and what is never set\<close>

lemma tc_info_entry_binary:
  assumes "tc_info_entry q requested dc entry info = Some (info', dc')"
  shows "have_binary info' = have_binary info"
  using assms
  by (auto simp: tc_info_entry_def split: prod.split_asm qcbor_label.split_asm if_split_asm option.split_asm)

lemma tc_info_entries_binary:
  "tc_info_entries q requested n dc info = Some (info', dc') \<Longrightarrow> have_binary info' = have_binary info"
proof (induction n arbitrary: dc info)
  case (Suc n)
  then show ?case
    by (auto dest!: tc_info_entry_binary split: prod.split_asm option.split_asm)
qed simp

lemma read_tc_infos_binary:
  "read_tc_infos q requested n dc = Some (infos, dc') \<Longrightarrow> \<forall>info \<in> set infos. have_binary info = None"
proof (induction n arbitrary: dc infos)
  case (Suc n)
  from Suc.prems obtain ok item dc1 k info dc2 rest where
    "q_next q dc = (ok, item, dc1)" and e: "tc_info_entries q requested k dc1 zero_tc_info = Some (info, dc2)"
    and r: "read_tc_infos q requested n dc2 = Some (rest, dc')" "infos = info # rest"
    by (auto split: prod.split_asm qcbor_data.split_asm option.split_asm)
  have "have_binary info = None" using tc_info_entries_binary [OF e] by (simp add: zero_tc_info_def)
  then show ?case using Suc.IH r by simp
qed simp

lemma parse_tc_info_array_binary:
  assumes "parse_tc_info_array q dc option requested = Some (Some infos, dc')"
  shows "\<forall>info \<in> set infos. have_binary info = None"
  using assms read_tc_infos_binary
  by (fastforce simp: parse_tc_info_array_def split: qcbor_data.split_asm if_split_asm)

lemma put_body_type:
  "put_body msg put r = Some (msg', dc') \<Longrightarrow> (\<And>a. body_type (put a) = t) \<Longrightarrow>
     body_type (msg_body msg') = t"
  by (auto simp: put_body_def)

lemma parse_option_type:
  assumes "parse_option q msg dc option nest = Some (msg', dc')"
  shows "body_type (msg_body msg') = body_type (msg_body msg)"
  using assms
  by (cases "msg_body msg")
    (auto simp: parse_option_def parse_option_from_tc_list_def Let_def skip_option_def
      split: qcbor_label.split_asm if_split_asm dest!: put_body_type)

lemma options_loop_type:
  "options_loop q nest n msg dc = Some (msg', dc') \<Longrightarrow> body_type (msg_body msg') = body_type (msg_body msg)"
proof (induction n arbitrary: msg dc)
  case (Suc n)
  then show ?case by (fastforce dest: parse_option_type split: prod.split_asm option.split_asm)
qed simp

lemma parse_options_type:
  "parse_options q msg dc = Some (msg', dc') \<Longrightarrow> body_type (msg_body msg') = body_type (msg_body msg)"
  by (auto simp: parse_options_def dest: options_loop_type split: prod.split_asm qcbor_data.split_asm)

lemma parse_trailer_type:
  "parse_trailer q msg dc = Some (msg', dc') \<Longrightarrow> body_type (msg_body msg') = body_type (msg_body msg)"
  by (auto simp: parse_trailer_def split: teep_body.split_asm prod.split_asm qcbor_data.split_asm)

lemma body_type_zero [simp]: "body_type (zero_body t) = t"
  by (cases t) simp_all

text \<open>How a message that is accepted starts.\<close>

lemma parse_message_cases:
  assumes "parse_teep_message q cbor = Some msg"
  obtains ok1 item1 dc1 n ok2 item2 dc2 v t msg1 dc3 dc4 where
    "q_next q (q_init q cbor) = (ok1, item1, dc1)" "item_data item1 = QCBOR_ARRAY n"
    "q_next q dc1 = (ok2, item2, dc2)" "item_data item2 = QCBOR_INT64 v" "message_type_of v = Some t"
    "parse_options q \<lparr>msg_token = NULLUsefulBufC, msg_body = zero_body t\<rparr> dc2 = Some (msg1, dc3)"
    "parse_trailer q msg1 dc3 = Some (msg, dc4)" "q_finish q dc4"
  using assms
  by (auto simp: parse_teep_message_def
      split: prod.split_asm qcbor_data.split_asm option.split_asm if_split_asm)

lemma message_type_of_value: "message_type_of v = Some t \<longleftrightarrow> v = message_type_value t"
  by (cases t) (auto simp: message_type_of_def split: if_splits)

lemma parse_message_type:
  assumes "parse_teep_message q cbor = Some msg"
  shows "\<exists>ok1 item1 dc1 ok2 item2 dc2. q_next q (q_init q cbor) = (ok1, item1, dc1) \<and>
    q_next q dc1 = (ok2, item2, dc2) \<and>
    item_data item2 = QCBOR_INT64 (message_type_value (body_type (msg_body msg)))"
  using assms
proof (cases rule: parse_message_cases)
  case (1 ok1 item1 dc1 n ok2 item2 dc2 v t msg1 dc3 dc4)
  have "body_type (msg_body msg) = t"
    using parse_trailer_type [OF 1(7)] parse_options_type [OF 1(6)] by simp
  then show ?thesis using 1 message_type_of_value [of v t] by auto
qed

section \<open>The parser on an update\<close>

text \<open>The decoder delivers items with these contents, one after the other.\<close>

fun delivers :: "'d qcbor \<Rightarrow> 'd \<Rightarrow> qcbor_data list \<Rightarrow> 'd \<Rightarrow> bool" where
  "delivers q dc [] dc' \<longleftrightarrow> dc' = dc"
| "delivers q dc (d # ds) dc' \<longleftrightarrow>
     (\<exists>ok item dc1. q_next q dc = (ok, item, dc1) \<and> item_data item = d \<and> delivers q dc1 ds dc')"

text \<open>The options of an update, and what of them the decoder delivers.\<close>

datatype update_option =
    Token_option ubuf
  | Manifests_option "ubuf list"
  | Other_option i64

fun delivers_option :: "'d qcbor \<Rightarrow> u8 \<Rightarrow> 'd \<Rightarrow> update_option \<Rightarrow> 'd \<Rightarrow> bool" where
  "delivers_option q nest dc (Token_option b) dc' \<longleftrightarrow>
     (\<exists>ok item. q_next q dc = (ok, item, dc') \<and> item_label item = Label_int64 TEEP_OPTION_TOKEN \<and>
        item_data item = QCBOR_BYTE_STRING b)"
| "delivers_option q nest dc (Manifests_option bs) dc' \<longleftrightarrow>
     (\<exists>ok item dc1. q_next q dc = (ok, item, dc1) \<and> item_label item = Label_int64 TEEP_OPTION_MANIFEST_LIST \<and>
        item_data item = QCBOR_ARRAY (of_nat (length bs)) \<and> length bs < 2 ^ 16 \<and>
        delivers q dc1 (map QCBOR_BYTE_STRING bs) dc')"
| "delivers_option q nest dc (Other_option k) dc' \<longleftrightarrow>
     k \<noteq> TEEP_OPTION_TOKEN \<and> k \<noteq> TEEP_OPTION_MANIFEST_LIST \<and>
     (\<exists>ok item dc1. q_next q dc = (ok, item, dc1) \<and> item_label item = Label_int64 k \<and>
        skips q nest (item_next_nest item) dc1 (Some dc'))"

fun delivers_options :: "'d qcbor \<Rightarrow> u8 \<Rightarrow> 'd \<Rightarrow> update_option list \<Rightarrow> 'd \<Rightarrow> bool" where
  "delivers_options q nest dc [] dc' \<longleftrightarrow> dc' = dc"
| "delivers_options q nest dc (opt # opts) dc' \<longleftrightarrow>
     (\<exists>dc1. delivers_option q nest dc opt dc1 \<and> delivers_options q nest dc1 opts dc')"

text \<open>The reference: the last token and the last list count, other options are left out.\<close>

fun apply_option :: "update_option \<Rightarrow> teep_message \<Rightarrow> teep_message" where
  "apply_option (Token_option b) msg = msg\<lparr>msg_token := b\<rparr>"
| "apply_option (Manifests_option bs) msg = msg\<lparr>msg_body := Update \<lparr>manifest_list = Some bs\<rparr>\<rparr>"
| "apply_option (Other_option k) msg = msg"

lemma read_buffers_delivers:
  "delivers q dc (map QCBOR_BYTE_STRING bs) dc' \<Longrightarrow> read_buffers q True (length bs) dc = Some (bs, dc')"
  by (induction bs arbitrary: dc) auto

lemma parse_option_delivers:
  assumes d: "delivers_option q nest dc opt dc'" and body: "msg_body msg = Update b"
    and q: "decoder_ok q" and mal: "\<And>n. q_malloc q n"
  shows "\<exists>ok item dc1. q_next q dc = (ok, item, dc1) \<and>
    parse_option q msg dc1 item nest = Some (apply_option opt msg, dc')"
proof (cases opt)
  case (Token_option t)
  then show ?thesis using d by (auto simp: parse_option_def parse_option_from_tc_list_def beside_def)
next
  case (Manifests_option bs)
  then obtain ok item dc1 where 1: "q_next q dc = (ok, item, dc1)"
    "item_label item = Label_int64 TEEP_OPTION_MANIFEST_LIST"
    "item_data item = QCBOR_ARRAY (of_nat (length bs))" "length bs < 2 ^ 16"
    "delivers q dc1 (map QCBOR_BYTE_STRING bs) dc'"
    using d by auto
  have "unat (of_nat (length bs) :: 16 word) = length bs" using 1(4) by (simp add: unat_of_nat)
  then have "parse_buffer_array q dc1 item True = Some (Some bs, dc')"
    using 1(3) read_buffers_delivers [OF 1(5)] mal by (simp add: parse_buffer_array_def)
  then show ?thesis using 1(1,2) body Manifests_option by (simp add: parse_option_def parse_option_from_tc_list_def put_body_def)
next
  case (Other_option k)
  then obtain ok item dc1 where 1: "q_next q dc = (ok, item, dc1)" "item_label item = Label_int64 k"
    "skips q nest (item_next_nest item) dc1 (Some dc')" "k \<noteq> TEEP_OPTION_TOKEN" "k \<noteq> TEEP_OPTION_MANIFEST_LIST"
    using d by auto
  have "skip_level q (left_over q dc1) nest (item_next_nest item) dc1 = Some dc'"
    using 1(3) by (simp add: skip_level_iff [OF q])
  then have "skip_option q msg dc1 item nest = Some (msg, dc')" by (simp add: skip_option_def)
  then show ?thesis using 1 body Other_option by (simp add: parse_option_def parse_option_from_tc_list_def Let_def)
qed

lemma apply_option_body:
  "msg_body msg = Update b \<Longrightarrow> \<exists>b'. msg_body (apply_option opt msg) = Update b'"
  by (cases opt) auto

lemma options_loop_delivers:
  assumes q: "decoder_ok q" and mal: "\<And>n. q_malloc q n"
  shows "delivers_options q nest dc opts dc' \<Longrightarrow> msg_body msg = Update b \<Longrightarrow>
    options_loop q nest (length opts) msg dc = Some (fold apply_option opts msg, dc')"
proof (induction opts arbitrary: dc msg b)
  case (Cons opt opts)
  then obtain dc1 where d: "delivers_option q nest dc opt dc1" "delivers_options q nest dc1 opts dc'" by auto
  obtain ok item dc2 where n: "q_next q dc = (ok, item, dc2)"
    "parse_option q msg dc2 item nest = Some (apply_option opt msg, dc1)"
    using parse_option_delivers [OF d(1) Cons.prems(2) q mal] by blast
  obtain b' where "msg_body (apply_option opt msg) = Update b'"
    using apply_option_body [OF Cons.prems(2)] by blast
  from Cons.IH [OF d(2) this] show ?case using n by simp
qed simp

lemma fold_apply_option_body:
  "msg_body msg = Update b \<Longrightarrow> \<exists>b'. msg_body (fold apply_option opts msg) = Update b'"
proof (induction opts arbitrary: msg b)
  case (Cons opt opts)
  then show ?case using apply_option_body [OF Cons.prems] by fastforce
qed simp

definition empty_update :: teep_message where
  "empty_update = \<lparr>msg_token = NULLUsefulBufC, msg_body = Update \<lparr>manifest_list = None\<rparr>\<rparr>"

lemma parse_update:
  assumes q: "decoder_ok q" and mal: "\<And>n. q_malloc q n"
    and start: "delivers q (q_init q cbor) [QCBOR_ARRAY n, QCBOR_INT64 3] dc1"
    and opts: "q_next q dc1 = (ok, item, dc2)" "item_data item = QCBOR_MAP (of_nat (length opts))"
      "length opts < 2 ^ 16" "delivers_options q (item_next_nest item) dc2 opts dc3"
    and fin: "q_finish q dc3"
  shows "parse_teep_message q cbor = Some (fold apply_option opts empty_update)"
proof -
  have "unat (of_nat (length opts) :: 16 word) = length opts" using opts(3) by (simp add: unat_of_nat)
  then have po: "parse_options q empty_update dc1 = Some (fold apply_option opts empty_update, dc3)"
    using opts(1,2) options_loop_delivers [OF q mal opts(4), of empty_update]
    by (simp add: parse_options_def empty_update_def)
  have "parse_trailer q (fold apply_option opts empty_update) dc3 = Some (fold apply_option opts empty_update, dc3)"
    using fold_apply_option_body [of empty_update _ opts]
    by (auto simp: parse_trailer_def empty_update_def)
  then show ?thesis
    using start po fin mal
    by (auto simp: parse_teep_message_def message_type_of_def empty_update_def)
qed

section \<open>The item a sequence of encoder calls describes\<close>

text \<open>
  The reading of the calls: a stack of the containers that are open. Every one holds its key in the
  map around it, whether it is a map, and its contents so far, the last one first.
\<close>

type_synonym container = "i64 option \<times> bool \<times> (i64 option \<times> cbor) list"

definition int_item :: "i64 \<Rightarrow> cbor" where
  "int_item v = (if 0 \<le> sint v then CUint (unat v) else CNint (unat (NOT v)))"

text \<open>In a map an element needs a key, in an array it has none.\<close>

fun put_item :: "i64 option \<Rightarrow> cbor \<Rightarrow> container list \<Rightarrow> container list option" where
  "put_item key c ((k, is_map, es) # cs) =
     (if is_map = (key \<noteq> None) then Some ((k, is_map, (key, c) # es) # cs) else None)"
| "put_item key c [] = None"

definition close_map :: "(i64 option \<times> cbor) list \<Rightarrow> cbor" where
  "close_map es = CMap (rev (map (\<lambda>(k, c). (int_item (the k), c)) es))"

definition close_array :: "(i64 option \<times> cbor) list \<Rightarrow> cbor" where
  "close_array es = CArray (rev (map snd es))"

fun encoder_step :: "encoder_call \<Rightarrow> container list \<Rightarrow> container list option" where
  "encoder_step OpenArray cs = Some ((None, False, []) # cs)"
| "encoder_step OpenMap cs = Some ((None, True, []) # cs)"
| "encoder_step (OpenArrayInMapN k) cs = Some ((Some k, False, []) # cs)"
| "encoder_step CloseArray ((k, False, es) # cs) = put_item k (close_array es) cs"
| "encoder_step CloseMap ((k, True, es) # cs) = put_item k (close_map es) cs"
| "encoder_step (AddInt64 v) cs = put_item None (int_item v) cs"
| "encoder_step (AddUInt64 v) cs = put_item None (CUint (unat v)) cs"
| "encoder_step (AddBytesToMapN k bs) cs = put_item (Some k) (CBstr bs) cs"
| "encoder_step (AddSZString bs) cs = put_item None (CTstr bs) cs"
| "encoder_step _ cs = None"

fun encoder_steps :: "encoder_call list \<Rightarrow> container list \<Rightarrow> container list option" where
  "encoder_steps [] cs = Some cs"
| "encoder_steps (call # calls) cs =
     (case encoder_step call cs of None \<Rightarrow> None | Some cs \<Rightarrow> encoder_steps calls cs)"

text \<open>The calls describe an item when they leave it alone in the outermost container.\<close>

definition calls_item :: "encoder_call list \<Rightarrow> cbor option" where
  "calls_item calls =
     (case encoder_steps calls [(None, False, [])] of
        Some [(None, False, [(None, c)])] \<Rightarrow> Some c
      | _ \<Rightarrow> None)"

lemma encoder_steps_append:
  "encoder_steps (xs @ ys) cs = (case encoder_steps xs cs of None \<Rightarrow> None | Some cs \<Rightarrow> encoder_steps ys cs)"
  by (induction xs arbitrary: cs) (auto split: option.split)

text \<open>The elements of the three lists of components.\<close>

lemma tc_list_steps:
  "encoder_steps (concat (map (\<lambda>s. [AddSZString s]) ss)) ((k, False, es) # cs) =
   Some ((k, False, rev (map (\<lambda>s. (None, CTstr s)) ss) @ es) # cs)"
  by (induction ss arbitrary: es) auto

lemma requested_steps:
  "encoder_steps (concat (map (\<lambda>s. [OpenMap, OpenArrayInMapN k', AddSZString s, CloseArray, CloseMap]) ss))
     ((k, False, es) # cs) =
   Some ((k, False, rev (map (\<lambda>s. (None, CMap [(int_item k', CArray [CTstr s])])) ss) @ es) # cs)"
  by (induction ss arbitrary: es) (auto simp: close_array_def close_map_def)

lemma unneeded_steps:
  "encoder_steps (concat (map (\<lambda>s. [OpenArray, AddSZString s, CloseArray]) ss)) ((k, False, es) # cs) =
   Some ((k, False, rev (map (\<lambda>s. (None, CArray [CTstr s])) ss) @ es) # cs)"
  by (induction ss arbitrary: es) (auto simp: close_array_def)

end
