(* ===== verification/Agent_Sample.thy ===== *)
theory Agent_Sample
  imports Agent_Proofs Libteep_Proofs
begin

text \<open>
  A concrete session, for the witnesses: a decoder over lists of items, an allocator that puts every
  block behind the others, and the messages of one run - a query request, and an update with one
  signed envelope.
\<close>

section \<open>A decoder\<close>

text \<open>Every item counts for one byte of the input.\<close>

type_synonym list_state = "ubuf \<times> u64 \<times> qcbor_item list"

definition no_item :: qcbor_item where
  "no_item = \<lparr>item_data = QCBOR_NONE, item_label = No_label, item_nest = 0, item_next_nest = 0\<rparr>"

definition list_decoder :: "(ubuf \<Rightarrow> qcbor_item list) \<Rightarrow> list_state qcbor" where
  "list_decoder items =
     \<lparr>q_init = (\<lambda>b. (b, 0, items b)),
      q_next = (\<lambda>(b, p, xs).
        if xs = [] \<or> ub_len b \<le> p then (False, no_item, (b, p, xs)) else (True, hd xs, (b, p + 1, tl xs))),
      q_finish = (\<lambda>(b, p, xs). xs = []),
      q_tell = (\<lambda>(b, p, xs). p), q_input = (\<lambda>(b, p, xs). b),
      q_head = (\<lambda>b n. b\<lparr>ub_len := n\<rparr>), q_tail = (\<lambda>b n. \<lparr>ub_ptr = ub_ptr b + n, ub_len = ub_len b - n\<rparr>),
      q_u32 = (\<lambda>v. if unat v < 2 ^ 32 then Some (ucast v) else None), q_malloc = (\<lambda>n. True)\<rparr>"

lemma list_decoder_ok: "decoder_ok (list_decoder items)"
proof -
  have "unat p < unat (p + 1) \<and> unat (p + 1) \<le> unat n" if "\<not> n \<le> p" for p n :: u64
    using that by unat_arith
  then show ?thesis by (auto simp: decoder_ok_def list_decoder_def no_item_def split: if_split_asm)
qed

definition mk_item :: "i64 \<Rightarrow> qcbor_data \<Rightarrow> u8 \<Rightarrow> qcbor_item" where
  "mk_item label d nest = \<lparr>item_data = d, item_label = Label_int64 label, item_nest = nest, item_next_nest = nest\<rparr>"

text \<open>A query request for the list of components, with a token of two bytes at \<open>0x5001\<close>.\<close>

definition request_items :: "qcbor_item list" where
  "request_items =
     [mk_item 0 (QCBOR_ARRAY 3) 1, mk_item 0 (QCBOR_INT64 1) 1, mk_item 0 (QCBOR_MAP 1) 2,
      mk_item 20 (QCBOR_BYTE_STRING \<lparr>ub_ptr = 0x5001, ub_len = 2\<rparr>) 1, mk_item 0 (QCBOR_INT64 2) 0]"

text \<open>An update with an option the parser does not know, and one manifest at \<open>0x7000\<close>.\<close>

definition update_items :: "u64 \<Rightarrow> qcbor_item list" where
  "update_items n =
     [mk_item 0 (QCBOR_ARRAY 2) 1, mk_item 0 (QCBOR_INT64 3) 1, mk_item 0 (QCBOR_MAP 2) 2,
      mk_item 99 (QCBOR_ARRAY 1) 3, mk_item 0 (QCBOR_INT64 7) 2,
      mk_item 10 (QCBOR_ARRAY 1) 3, mk_item 0 (QCBOR_BYTE_STRING \<lparr>ub_ptr = 0x7000, ub_len = n\<rparr>) 0]"

definition sample_messages :: "u64 \<Rightarrow> ubuf \<Rightarrow> qcbor_item list" where
  "sample_messages n b = (if ub_ptr b = 0x5000 then request_items else update_items n)"

section \<open>An allocator\<close>

definition bump_malloc :: "(ptr \<times> u64) list \<Rightarrow> u64 \<Rightarrow> ptr" where
  "bump_malloc bs n =
     (let p = (case bs of [] \<Rightarrow> 0x100000 | (q, k) # _ \<Rightarrow> q + k + 1) in
      if n < 0x100000000 \<and> p < 0x100000000 \<and> list_all (\<lambda>(q, k). q < p \<and> k \<le> p - q) bs then p else 0)"

lemma bump_apart:
  assumes "unat p + unat n \<le> 2 ^ 64" and "unat q + unat k \<le> unat p"
  shows "block_bytes (p, n) \<inter> block_bytes (q, k) = {}"
proof -
  have "unat a < unat p" if "a \<in> block_bytes (q, k)" for a
  proof -
    have "unat (a - q) < unat k" using that by (simp add: block_bytes_def)
    moreover have "unat ((a - q) + q) = unat (a - q) + unat q"
      using calculation assms(2) unat_ptr_less [of p] by (intro unat_add_exact) simp
    ultimately show ?thesis using assms(2) by simp
  qed
  moreover have "unat p \<le> unat a" if "a \<in> block_bytes (p, n)" for a
  proof -
    have "unat (a - p) < unat n" using that by (simp add: block_bytes_def)
    then have "unat ((a - p) + p) = unat (a - p) + unat p"
      using assms(1) by (intro unat_add_exact) simp
    then show ?thesis by simp
  qed
  ultimately show ?thesis by (metis disjoint_iff linorder_not_le)
qed

lemma bump_ok:
  assumes "env_malloc env = bump_malloc"
  shows "malloc_ok env"
proof -
  have "bump_malloc bs n \<noteq> fst b \<and> block_bytes (bump_malloc bs n, n) \<inter> block_bytes b = {}"
    if "bump_malloc bs n \<noteq> 0" "b \<in> set bs" for bs n b
  proof -
    obtain q k where b: "b = (q, k)" by fastforce
    let ?p = "bump_malloc bs n"
    have le: "n < 0x100000000" "?p < 0x100000000" "q < ?p" "k \<le> ?p - q"
      using that by (auto simp: bump_malloc_def Let_def b list_all_iff split: if_split_asm)
    have "unat ?p + unat n \<le> 2 ^ 64"
      using le(1,2) by (simp add: word_less_nat_alt)
    moreover have "unat q + unat k \<le> unat ?p"
      using le(3,4) unat_sub [of q ?p] by (simp add: word_le_nat_alt word_less_nat_alt)
    ultimately show ?thesis using bump_apart [of ?p n q k] b le(3) by auto
  qed
  then show ?thesis using assms by (simp add: malloc_ok_def)
qed

section \<open>A session\<close>

text \<open>
  The signed envelope: a digest structure with SHA-256 and a digest of one byte, one signature block,
  and a manifest of version 1 with one component. Cryptography is a length: the digest is the number
  of bytes, and the one block \<open>D2\<close> is valid.
\<close>

definition session_envelope :: "u8 list" where
  "session_envelope =
     [0xD8, 0x6B, 0xA2, 0x02, 0x48, 0x82, 0x44, 0x82, 0x2F, 0x41, 0x0E, 0x41, 0xD2,
      0x03, 0x4D, 0xA3, 0x01, 0x01, 0x02, 0x01, 0x03, 0x46, 0xA1, 0x02, 0x81, 0x81, 0x41, 0x00]"

definition length_crypto :: "unit crypto" where
  "length_crypto =
     \<lparr>sign1_tag = 18, pk_parse = (\<lambda>pem. Some ()), cose_verify = (\<lambda>pk msg dig. msg = Some [0xD2]),
      md_size = Some 1, md = (\<lambda>chunks. Some [of_nat (length (concat chunks))])\<rparr>"

definition session_env :: "(list_state, unit) agent_env" where
  "session_env =
     \<lparr>env_image = \<lparr>empty_array_at = 0x10, cbor_true_at = 0x11, target_at = (\<lambda>_. 0x20)\<rparr>,
      env_literal = (\<lambda>_. 0x100), env_crypto = length_crypto,
      env_qcbor = (\<lambda>m. list_decoder (sample_messages 28)),
      env_emit = (\<lambda>calls buffer. (buffer, if length calls \<le> length buffer then Some (length calls) else None)),
      env_malloc = bump_malloc, env_sizeof_session = 0x2000\<rparr>"

definition start_world :: world where
  "start_world =
     \<lparr>w_memory = copy_bytes (\<lambda>_. 0) 0x7000 session_envelope, w_blocks = [],
      suit_manifests = [NULLUsefulBufC, NULLUsefulBufC],
      w_files = \<lparr>fs_files = Map.empty, fs_opens = (\<lambda>_. True), fs_room = 1000\<rparr>\<rparr>"

definition raw_runner :: agent_runner where
  "raw_runner =
     \<lparr>run_context = suit_context_init,
      run_user = \<lparr>fetch_uri = tcbor_range_null, fetch_component_path = no_path, user_fs = w_files start_world\<rparr>,
      run_sequence = SUIT_COMMAND_SEQUENCE_INSTALL,
      selected_components = tcbor_range_null, selected_dependencies = tcbor_range_null,
      n_binder = 0, bindings = replicate SUIT_BINDER_MAX zero_binder,
      program_counter = \<lparr>pc_manifest = None, pc_next = SUIT_NEXT_EXIT\<rparr>,
      n_stack = 0, stack = replicate SUIT_STACK_MAX zero_continuation,
      has_error = False, suspended = False, on_resume = None\<rparr>"

definition raw_session :: teep_agent_session where
  "raw_session =
     \<lparr>session_addr = 0, state = AGENT_FINISH, tam_uri = replicate 512 0, on_going_task = True,
      task_buffer = \<lparr>command = BROKER_FINISH, uri = replicate 512 0, post_data = replicate 2048 0,
        post_data_len = 0\<rparr>,
      token = NULLUsefulBufC, n_requests = 0,
      requests = replicate 16 \<lparr>requested = False, unneeded = False, request_id = replicate 128 0\<rparr>,
      session_data_item_requested = 0, session_context = suit_context_init, session_runner = raw_runner\<rparr>"

definition no_param :: TEE_Param where
  "no_param = \<lparr>value_a = 0, value_b = 0, memref_buffer = 0, memref_size = 0\<rparr>"

definition query_params :: "TEE_Param list" where
  "query_params =
     [no_param, no_param\<lparr>memref_buffer := 0x8000, memref_size := 512\<rparr>,
      no_param\<lparr>memref_buffer := 0x9000, memref_size := 2048\<rparr>, no_param]"

definition done_params :: "ptr \<Rightarrow> TEE_Param list" where
  "done_params p = [no_param\<lparr>memref_buffer := p, memref_size := 64\<rparr>, no_param, no_param, no_param]"

definition query_types :: u32 where
  "query_types = TEE_PARAM_TYPES TEE_PARAM_TYPE_VALUE_OUTPUT TEE_PARAM_TYPE_MEMREF_OUTPUT
     TEE_PARAM_TYPE_MEMREF_OUTPUT TEE_PARAM_TYPE_NONE"

definition done_types :: u32 where
  "done_types = TEE_PARAM_TYPES TEE_PARAM_TYPE_MEMREF_INPUT TEE_PARAM_TYPE_NONE TEE_PARAM_TYPE_NONE TEE_PARAM_TYPE_NONE"

section \<open>The calls of a run\<close>

text \<open>The envelope of the update is at \<open>0x7000\<close> throughout the run.\<close>

definition holds_envelope :: "memory \<Rightarrow> bool" where
  "holds_envelope m \<longleftrightarrow> peek m 0x7000 28 = session_envelope"

lemma peek_numeral: "peek m p (numeral k) = m p # peek m (p + 1) (pred_numeral k)"
  by (simp add: numeral_eq_Suc)

lemma start_holds: "holds_envelope (w_memory start_world)"
proof -
  have "length session_envelope = 28" by (simp add: session_envelope_def)
  then show ?thesis
    using peek_copy_bytes [of session_envelope "\<lambda>_. 0" "0x7000"] by (simp add: holds_envelope_def start_world_def)
qed

lemma holds_after_copy:
  assumes "0x7000 + 28 \<le> unat p" and "unat p + length bs < 2 ^ 64"
  shows "holds_envelope (copy_bytes m p bs) = holds_envelope m"
proof -
  have "peek (copy_bytes m p bs) 0x7000 28 = peek m 0x7000 28"
  proof (rule peek_cong)
    fix a :: ptr
    assume "unat (a - 0x7000) < 28"
    then have "unat (a - 0x7000 + 0x7000) < unat p"
      using assms(1) unat_add_exact [of "a - 0x7000" "0x7000"] by simp
    then have "\<not> unat (a - p) < length bs"
      using assms(2) unat_add_exact [of "a - p" p] by auto
    then show "copy_bytes m p bs a = m a" using assms(2) by (simp add: copy_bytes_at)
  qed simp
  then show ?thesis by (simp add: holds_envelope_def)
qed

definition query_memory :: "memory \<Rightarrow> broker_task \<Rightarrow> memory" where
  "query_memory m task =
     copy_bytes (copy_bytes m 0x8000 [0]) 0x9000 (take (post_data_len task) (post_data task))"

lemma query_memory_holds:
  "length (post_data task) = 2048 \<Longrightarrow> holds_envelope (query_memory m task) = holds_envelope m"
  by (simp add: query_memory_def holds_after_copy)

lemma c_string_zeros: "c_string (replicate 512 0) = Some []"
  by (simp add: numeral_eq_Suc)

lemma query_call:
  assumes "query_next_broker_task session_env w s = Some (Some (w, s'))"
    and "uri (task_buffer s') = replicate 512 0" and "length (post_data (task_buffer s')) = 2048"
  shows "\<exists>ps. TA_InvokeCommandEntryPoint session_env w s TEEP_AGENT_QUERY_NEXT_BROKER_TASK query_types query_params =
    Some (Some (TEE_SUCCESS, w\<lparr>w_memory := query_memory (w_memory w) (task_buffer s')\<rparr>, s', ps))"
  using assms
  by (simp add: TA_InvokeCommandEntryPoint_def handle_TEEP_AGENT_QUERY_NEXT_BROKER_TASK_def query_types_def
      copy_task_def copyout_param_def query_params_def no_param_def c_string_zeros query_memory_def Let_def)

lemma done_call:
  assumes "broker_task_done session_env w s buffer 64 = Some (r, w', s')"
  shows "TA_InvokeCommandEntryPoint session_env w s TEEP_AGENT_BROKER_TASK_DONE done_types (done_params buffer) =
    Some (Some (r, w', s', done_params buffer))"
  using assms
  by (simp add: TA_InvokeCommandEntryPoint_def handle_TEEP_AGENT_BROKER_TASK_DONE_def done_types_def
      done_params_def no_param_def Let_def)

section \<open>The run\<close>

definition opened_session :: teep_agent_session where
  "opened_session = raw_session
     \<lparr>session_addr := 0x100000, state := AGENT_INIT, on_going_task := False, n_requests := 0\<rparr>"

definition first_session :: teep_agent_session where
  "first_session = opened_session
     \<lparr>state := AGENT_POSTING_INITIAL_REQUEST, on_going_task := True,
      task_buffer := (task_buffer opened_session)\<lparr>command := BROKER_HTTP_POST\<rparr>\<rparr>"

definition asked_session :: teep_agent_session where
  "asked_session = first_session
     \<lparr>state := AGENT_POSTING_QUERY_RESPONSE, on_going_task := False,
      token := \<lparr>ub_ptr = 0x102001, ub_len = 2\<rparr>, session_data_item_requested := 2\<rparr>"

definition run_world :: "memory \<Rightarrow> (ptr \<times> u64) list \<Rightarrow> world" where
  "run_world m bs = start_world\<lparr>w_memory := m, w_blocks := bs\<rparr>"

lemma run_world_simps [simp]:
  "w_memory (run_world m bs) = m" "w_blocks (run_world m bs) = bs"
  "suit_manifests (run_world m bs) = [NULLUsefulBufC, NULLUsefulBufC]"
  "(run_world m bs)\<lparr>w_memory := m'\<rparr> = run_world m' bs"
  "(run_world m bs)\<lparr>w_blocks := bs'\<rparr> = run_world m bs'"
  by (simp_all add: run_world_def start_world_def)

lemma run_opened: "reachable session_env (run_world (w_memory start_world) [(0x100000, 0x2000)]) opened_session"
proof (rule reach_open)
  show "fresh_world start_world" by (simp add: fresh_world_def start_world_def)
  show "TA_OpenSessionEntryPoint session_env start_world raw_session 0 =
    (TEE_SUCCESS, Some opened_session, run_world (w_memory start_world) [(0x100000, 0x2000)])"
    by (simp add: TA_OpenSessionEntryPoint_def TEE_PARAM_TYPES_def teep_agent_session_create_def malloc_block_def
        session_env_def bump_malloc_def opened_session_def run_world_def start_world_def raw_session_def Let_def)
qed

lemma zero_uri: "strncpy (replicate 512 0) (string_in (replicate 512 0)) 511 = replicate 512 0"
  using replicate_add [of 511 1 "0 :: u8"] by (simp add: strncpy_def string_in_def)

lemma posted_first: "post_task (opened_session\<lparr>state := AGENT_POSTING_INITIAL_REQUEST\<rparr>) None = first_session"
  by (simp add: post_task_def Let_def first_session_def opened_session_def raw_session_def zero_uri
      TEEP_MAX_URI_LEN_def)

text \<open>The parameters of the two calls stay clear of the blocks of the run, which are at \<open>0x100000\<close> and above.\<close>

lemma low_buffer:
  assumes "unat p + unat n \<le> 0x100000" and "0x100000 \<le> unat q" and "unat q + unat k < 2 ^ 64"
  shows "block_bytes (p, n) \<inter> block_bytes (q, k) = {}"
  using bump_apart [of q k p n] assms by (simp add: Int_commute)

lemma params_apart:
  assumes bs: "list_all (\<lambda>(q, k). 0x100000 \<le> unat q \<and> unat q + unat k < 2 ^ 64) bs"
    and ps: "list_all (\<lambda>p. unat (memref_buffer p) + unat (memref_size p) \<le> 0x100000) params"
  shows "clear_of_manifests (run_world m bs) types params"
  unfolding clear_of_manifests_def
proof (intro allI impI)
  fix k i
  assume k: "k < length params" and "manifest_block (run_world m bs) i \<in> set (w_blocks (run_world m bs))"
  then obtain b where b: "b \<in> set bs" "manifest_block (run_world m bs) i = b" by simp
  have "unat (memref_buffer (params ! k)) + unat (memref_size (params ! k)) \<le> 0x100000"
    "0x100000 \<le> unat (fst b) \<and> unat (fst b) + unat (snd b) < 2 ^ 64"
    using bs ps b(1) k by (auto simp: list_all_iff case_prod_beta)
  then show "block_bytes (memref_buffer (params ! k), ucast (memref_size (params ! k))) \<inter>
      block_bytes (manifest_block (run_world m bs) i) = {}"
    using low_buffer [of "memref_buffer (params ! k)" "ucast (memref_size (params ! k))" "fst b" "snd b"]
    by (simp add: unat_ucast_u32 b(2))
qed

lemma query_params_low:
  "list_all (\<lambda>p. unat (memref_buffer p) + unat (memref_size p) \<le> 0x100000) query_params" "length query_params = 4"
  by (simp_all add: query_params_def no_param_def)

lemma done_params_low:
  "unat p \<le> 0x9000 \<Longrightarrow> list_all (\<lambda>p. unat (memref_buffer p) + unat (memref_size p) \<le> 0x100000) (done_params p)"
  "length (done_params p) = 4"
  by (simp_all add: done_params_def no_param_def)

lemma run_live: "manifests_live (run_world m bs)"
  by (auto simp: manifests_live_def NULLUsefulBufC_def less_2_cases_iff)

lemma run_first:
  "\<exists>m. holds_envelope m \<and> reachable session_env (run_world m [(0x100000, 0x2000)]) first_session"
proof -
  let ?w = "run_world (w_memory start_world) [(0x100000, 0x2000)]"
  let ?m = "query_memory (w_memory start_world) (task_buffer first_session)"
  have "query_next_broker_task session_env ?w opened_session = Some (Some (?w, first_session))"
    using query_first [of opened_session session_env ?w] posted_first by (simp add: opened_session_def)
  from query_call [OF this] obtain ps where
    "TA_InvokeCommandEntryPoint session_env ?w opened_session TEEP_AGENT_QUERY_NEXT_BROKER_TASK query_types query_params =
      Some (Some (TEE_SUCCESS, run_world ?m [(0x100000, 0x2000)], first_session, ps))"
    by (auto simp: first_session_def opened_session_def raw_session_def)
  from reach_invoke [OF run_opened this query_params_low(2) params_apart run_live]
  have "reachable session_env (run_world ?m [(0x100000, 0x2000)]) first_session"
    by (simp add: query_params_low)
  moreover have "holds_envelope ?m"
    using query_memory_holds [of "task_buffer first_session"] start_holds
    by (simp add: first_session_def opened_session_def raw_session_def)
  ultimately show ?thesis by blast
qed

lemma list_decoder_simps [simp]:
  "q_init (list_decoder items) b = (b, 0, items b)"
  "q_next (list_decoder items) (b, p, xs) =
     (if xs = [] \<or> ub_len b \<le> p then (False, no_item, (b, p, xs)) else (True, hd xs, (b, p + 1, tl xs)))"
  "q_finish (list_decoder items) (b, p, xs) = (xs = [])"
  "q_malloc (list_decoder items) n"
  by (simp_all add: list_decoder_def)

lemma mk_item_simps [simp]:
  "item_data (mk_item k d n) = d" "item_label (mk_item k d n) = Label_int64 k"
  "item_nest (mk_item k d n) = n" "item_next_nest (mk_item k d n) = n"
  by (simp_all add: mk_item_def)

lemma parsed_request:
  "parse_teep_message (list_decoder (sample_messages 28)) \<lparr>ub_ptr = 0x5000, ub_len = 64\<rparr> =
   Some \<lparr>msg_token = \<lparr>ub_ptr = 0x5001, ub_len = 2\<rparr>,
     msg_body = Query_request
       \<lparr>qr_supported_cipher_suits = None, qr_supported_freshness_mechanisms = None,
        qr_challenge = NULLUsefulBufC, qr_versions = None, qr_ocsp_data = NULLUsefulBufC, data_item_requested = 2\<rparr>\<rparr>"
  by (simp add: parse_teep_message_def sample_messages_def request_items_def message_type_of_def
      parse_options_def parse_option_def parse_option_from_tc_list_def beside_def parse_trailer_def
      word_le_nat_alt)

definition update_options :: "update_option list" where
  "update_options = [Other_option 99, Manifests_option [\<lparr>ub_ptr = 0x7000, ub_len = 28\<rparr>]]"

lemma update_delivered:
  defines "q \<equiv> list_decoder (sample_messages 28)" and "b \<equiv> \<lparr>ub_ptr = 0x6000, ub_len = 64\<rparr>"
    and "xs \<equiv> update_items 28"
  shows "delivers q (q_init q b) [QCBOR_ARRAY 2, QCBOR_INT64 3] (b, 2, drop 2 xs)"
    and "q_next q (b, 2, drop 2 xs) = (True, mk_item 0 (QCBOR_MAP (of_nat (length update_options))) 2, (b, 3, drop 3 xs))"
    and "delivers_options q 2 (b, 3, drop 3 xs) update_options (b, 7, [])"
proof -
  have sk: "skips q 2 3 (b, p, mk_item k d 2 # ys) (Some (b, p + 1, ys))"
    if "p < ub_len b" "d \<noteq> QCBOR_NONE" for p k d ys
  proof (rule skips_next)
    show "q_next q (b, p, mk_item k d 2 # ys) = (True, mk_item k d 2, (b, p + 1, ys))"
      using that(1) by (simp add: q_def)
    show "skips q 2 (item_next_nest (mk_item k d 2)) (b, p + 1, ys) (Some (b, p + 1, ys))"
      by (simp add: skips_done)
  qed (use that(2) in simp_all)
  show "delivers q (q_init q b) [QCBOR_ARRAY 2, QCBOR_INT64 3] (b, 2, drop 2 xs)"
    by (auto simp: q_def b_def xs_def sample_messages_def update_items_def word_le_nat_alt)
  show "q_next q (b, 2, drop 2 xs) = (True, mk_item 0 (QCBOR_MAP (of_nat (length update_options))) 2, (b, 3, drop 3 xs))"
    by (simp add: q_def b_def xs_def update_items_def update_options_def word_le_nat_alt)
  have "delivers_option q 2 (b, 3, drop 3 xs) (Other_option 99) (b, 5, drop 5 xs)"
    using sk [of 4 "QCBOR_INT64 7" 0 "drop 5 xs"]
    by (auto simp: q_def b_def xs_def update_items_def word_le_nat_alt)
  moreover have "delivers_option q 2 (b, 5, drop 5 xs) (Manifests_option [\<lparr>ub_ptr = 0x7000, ub_len = 28\<rparr>]) (b, 7, [])"
    by (auto simp: q_def b_def xs_def update_items_def word_le_nat_alt)
  ultimately show "delivers_options q 2 (b, 3, drop 3 xs) update_options (b, 7, [])"
    unfolding update_options_def delivers_options.simps by blast
qed

lemma update_facts:
  defines "q \<equiv> list_decoder (sample_messages 28)" and "b \<equiv> \<lparr>ub_ptr = 0x6000, ub_len = 64\<rparr>"
  shows "q_malloc q n" and "length update_options < 2 ^ 16"
    and "item_data (mk_item 0 (QCBOR_MAP (of_nat (length update_options))) 2) = QCBOR_MAP (of_nat (length update_options))"
    and "delivers_options q (item_next_nest (mk_item 0 (QCBOR_MAP (of_nat (length update_options))) 2))
      (b, 3, drop 3 (update_items 28)) update_options (b, 7, [])"
    and "q_finish q (b, 7, [])"
  unfolding q_def b_def mk_item_simps using update_delivered(3)
  by (simp_all add: update_options_def del: delivers_options.simps)

lemma parsed_update:
  "parse_teep_message (list_decoder (sample_messages 28)) \<lparr>ub_ptr = 0x6000, ub_len = 64\<rparr> =
   Some \<lparr>msg_token = NULLUsefulBufC, msg_body = Update \<lparr>manifest_list = Some [\<lparr>ub_ptr = 0x7000, ub_len = 28\<rparr>]\<rparr>\<rparr>"
  unfolding parse_update [OF list_decoder_ok update_facts(1) update_delivered(1,2) update_facts(3,2,4,5)]
  by (simp add: update_options_def empty_update_def)

lemma session_env_simps [simp]:
  "env_qcbor session_env m = list_decoder (sample_messages 28)" "env_malloc session_env = bump_malloc"
  "env_crypto session_env = length_crypto" "env_emit session_env calls buffer =
     (buffer, if length calls \<le> length buffer then Some (length calls) else None)"
  by (simp_all add: session_env_def)

lemma session_malloc: "malloc_ok session_env"
  by (rule bump_ok) simp

definition token_world :: "memory \<Rightarrow> world" where
  "token_world m = run_world m [(0x102001, 2), (0x100000, 0x2000)]"

lemma run_asked:
  "\<exists>m. holds_envelope m \<and> reachable session_env (token_world m) asked_session"
proof -
  obtain m where m: "holds_envelope m" and r: "reachable session_env (run_world m [(0x100000, 0x2000)]) first_session"
    using run_first by blast
  let ?m = "copy_bytes m 0x102001 (peek m 0x5001 2)"
  have "broker_task_done session_env (run_world m [(0x100000, 0x2000)]) first_session 0x5000 64 =
    Some (TEE_SUCCESS, token_world ?m, asked_session)"
    by (simp add: broker_task_done_def handle_tam_message_def parsed_request handle_query_request_def
        malloc_block_def bump_malloc_def first_session_def opened_session_def raw_session_def Let_def
        token_world_def asked_session_def run_world_def start_world_def)
  from reach_invoke [OF r done_call [OF this] done_params_low(2) params_apart]
  have "reachable session_env (token_world ?m) asked_session"
    by (simp add: done_params_low run_live token_world_def)
  moreover have "holds_envelope ?m" using m by (simp add: holds_after_copy)
  ultimately show ?thesis by blast
qed

definition answered_session :: teep_agent_session where
  "answered_session = asked_session
     \<lparr>on_going_task := True, task_buffer := (task_buffer asked_session)\<lparr>post_data_len := 12\<rparr>\<rparr>"

lemma answer_posted:
  "post_task asked_session (Some (build_query_response session_env m asked_session)) = answered_session"
proof -
  have "build_query_response session_env m asked_session (replicate 2048 0) 2048 = (True, replicate 2048 0, 12)"
    by (simp add: build_query_response_def build_message_def query_response_calls_def Let_def add_components_def
        teep_message_encoder_defs teep_message_encoder_finish_def token_bytes_def UsefulBuf_IsNULLC_def
        asked_session_def first_session_def opened_session_def raw_session_def)
  then show ?thesis
    by (simp add: post_task_def Let_def answered_session_def asked_session_def first_session_def
        opened_session_def raw_session_def zero_uri TEEP_MAX_URI_LEN_def TEEP_MAX_MESSAGE_LEN_def)
qed

lemma run_answered:
  "\<exists>m. holds_envelope m \<and> reachable session_env (token_world m) answered_session"
proof -
  obtain m where m: "holds_envelope m" and r: "reachable session_env (token_world m) asked_session"
    using run_asked by blast
  have st: "state asked_session = AGENT_POSTING_QUERY_RESPONSE" "\<not> on_going_task asked_session"
    by (simp_all add: asked_session_def)
  have "query_next_broker_task session_env (token_world m) asked_session = Some (Some (token_world m, answered_session))"
    by (rule query_post) (simp_all add: st query_round_def answer_posted, simp add: answered_session_def)
  from query_call [OF this] obtain ps where
    "TA_InvokeCommandEntryPoint session_env (token_world m) asked_session TEEP_AGENT_QUERY_NEXT_BROKER_TASK
       query_types query_params =
     Some (Some (TEE_SUCCESS, token_world (query_memory m (task_buffer answered_session)), answered_session, ps))"
    by (auto simp: answered_session_def asked_session_def first_session_def opened_session_def raw_session_def
        token_world_def)
  from reach_invoke [OF r this query_params_low(2)]
  have "reachable session_env (token_world (query_memory m (task_buffer answered_session))) answered_session"
    using params_apart [OF _ query_params_low(1)] by (simp add: run_live token_world_def)
  moreover have "holds_envelope (query_memory m (task_buffer answered_session))"
    using m by (simp add: query_memory_holds answered_session_def asked_session_def first_session_def
        opened_session_def raw_session_def)
  ultimately show ?thesis by blast
qed

text \<open>The envelope is authentic and is added to the table, wherever it is.\<close>

definition session_fields :: "(cbor \<times> cbor) list" where
  "session_fields =
     [(CUint 2, CBstr (encode (CArray (CBstr (encode (CArray [CNint 15, CBstr [0x0E]])) # map CBstr [[0xD2]])))),
      (CUint 3, CBstr (drop 15 session_envelope))]"

lemma session_envelope_encoded:
  "session_envelope = encode (CTag 107 (CMap session_fields)) @ []"
  "length session_envelope = 28"
  by (simp_all add: session_fields_def session_envelope_def encode_head_def)

lemma session_fields_facts:
  "\<forall>(k, v) \<in> set session_fields. envelope_key k \<and> wf_cbor v"
  "find_field (\<lambda>k. k = CUint 2) session_fields None =
     Some (Some (encode (CArray (CBstr (encode (CArray [CNint 15, CBstr [0x0E]])) # map CBstr [[0xD2]]))))"
  "find_field (\<lambda>k. k = CUint 3) session_fields None = Some (Some (drop 15 session_envelope))"
  by (simp_all add: session_fields_def session_envelope_def encode_head_def)

lemma length_crypto_facts:
  "block_valid length_crypto pem dig [0xD2]" "digest_valid length_crypto [0x0E] (drop 15 session_envelope)"
  by (simp_all add: block_valid_def digest_valid_def length_crypto_def tag_of_def spec_read_def encode_head_def
      session_envelope_def)

lemma session_authentic:
  assumes "holds_envelope m"
  shows "suit_authenticate_envelope length_crypto m \<lparr>rbegin = 0x7000, rend = 0x7000 + 28\<rparr> pem"
proof -
  have b: "bytes_of m \<lparr>rbegin = 0x7000, rend = 0x7000 + 28\<rparr> = encode (CTag 107 (CMap session_fields)) @ []"
    using assms session_envelope_encoded(1) by (simp add: bytes_of_def span_def holds_envelope_def)
  have a: "addressable \<lparr>rbegin = 0x7000, rend = 0x7000 + 28\<rparr>"
    by (simp add: addressable_def word_le_nat_alt)
  show ?thesis
    unfolding authenticate_encoded [OF b session_fields_facts(1) a session_fields_facts(2,3)]
    by (simp add: length_crypto_facts)
qed

lemma mem_of_envelope_accepted:
  "fst (suit_envelope_get_manifest (mem_of 0x102004 session_envelope)
     \<lparr>rbegin = 0x102004, rend = 0x102020\<rparr> zero_manifest)"
  by code_simp

lemma session_added:
  assumes "peek m 0x102004 28 = session_envelope"
  shows "\<exists>ctx. suit_context_add_envelope m suit_context_init \<lparr>rbegin = 0x102004, rend = 0x102004 + 28\<rparr> = (True, ctx) \<and>
    n_manifest ctx = 1"
proof -
  let ?r = "\<lparr>rbegin = 0x102004, rend = 0x102020\<rparr> :: tcbor_range"
  have "agree m (mem_of 0x102004 session_envelope) ?r"
    using assms peek_mem_of [of session_envelope "0x102004"] session_envelope_encoded(2)
    by (simp add: agree_def bytes_of_def span_def)
  then have "fst (suit_envelope_get_manifest m ?r zero_manifest)"
    using mem_of_envelope_accepted get_manifest_local by simp
  then show ?thesis
    by (cases "suit_envelope_get_manifest m ?r zero_manifest")
      (simp add: suit_context_add_envelope_def suit_context_init_def SUIT_MANIFEST_MAX_def)
qed

definition updated_world :: "memory \<Rightarrow> world" where
  "updated_world m = (run_world m [(0x102004, 28), (0x102001, 2), (0x100000, 0x2000)])
     \<lparr>suit_manifests := [\<lparr>ub_ptr = 0x102004, ub_len = 28\<rparr>, NULLUsefulBufC]\<rparr>"

definition updated_session :: "suit_context \<Rightarrow> teep_agent_session" where
  "updated_session ctx =
     answered_session\<lparr>session_context := ctx, state := AGENT_INIT_RUNNER, on_going_task := False\<rparr>"

lemma session_stored:
  assumes "holds_envelope m"
  shows "store_manifests session_env 0 [\<lparr>ub_ptr = 0x7000, ub_len = 28\<rparr>] (token_world m) =
    Some (True, updated_world (copy_bytes m 0x102004 session_envelope))"
  using session_authentic [OF assms] assms
  by (simp add: store_suit_envelope_def store_envelope_def store_bstr_def UsefulBuf_IsNULLC_def NULLUsefulBufC_def
      malloc_block_def bump_malloc_def token_world_def updated_world_def run_world_def start_world_def
      holds_envelope_def Let_def)

lemma run_updated:
  "\<exists>m ctx. reachable session_env (updated_world m) (updated_session ctx) \<and> n_manifest ctx = 1"
proof -
  obtain m where m: "holds_envelope m" and r: "reachable session_env (token_world m) answered_session"
    using run_answered by blast
  let ?m = "copy_bytes m 0x102004 session_envelope"
  have "peek ?m 0x102004 28 = session_envelope"
    using peek_copy_bytes [of session_envelope m "0x102004"] session_envelope_encoded(2) by simp
  then obtain ctx where ctx: "suit_context_add_envelope ?m suit_context_init
      \<lparr>rbegin = 0x102004, rend = 0x102004 + 28\<rparr> = (True, ctx)" "n_manifest ctx = 1"
    using session_added by blast
  have "handle_tam_message session_env (token_world m) answered_session 0x6000 64 =
    Some (TEE_SUCCESS, updated_world ?m, answered_session\<lparr>session_context := ctx, state := AGENT_INIT_RUNNER\<rparr>)"
    using session_stored [OF m] ctx(1)
    by (simp add: handle_tam_message_def parsed_update handle_update_def Let_def answered_session_def
        asked_session_def first_session_def opened_session_def raw_session_def updated_world_def)
  then have "broker_task_done session_env (token_world m) answered_session 0x6000 64 =
    Some (TEE_SUCCESS, updated_world ?m, updated_session ctx)"
    by (simp add: broker_task_done_def updated_session_def answered_session_def asked_session_def
        first_session_def opened_session_def raw_session_def)
  from reach_invoke [OF r done_call [OF this] done_params_low(2)]
  have "reachable session_env (updated_world ?m) (updated_session ctx)"
    using params_apart [OF _ done_params_low(1)]
    by (simp add: token_world_def manifests_live_def updated_world_def NULLUsefulBufC_def less_2_cases_iff)
  then show ?thesis using ctx(2) by blast
qed

end
