(* ===== verification/Agent_Messages.thy ===== *)
theory Agent_Messages
  imports Agent_Session Libteep_Proofs
begin

text \<open>
  What the agent tells the server: the list of components that is set as an option is the text
  split at its commas, and the messages built from a session are the items of the protocol.
\<close>

unbundle bit_operations_syntax

section \<open>The list of components\<close>

text \<open>The reference: the text between the commas, and what follows the first comma.\<close>

fun split_commas :: "u8 list \<Rightarrow> u8 list list" where
  "split_commas [] = [[]]"
| "split_commas (c # s) =
     (if c = comma then [] # split_commas s else (c # hd (split_commas s)) # tl (split_commas s))"

fun after_comma :: "u8 list \<Rightarrow> u8 list" where
  "after_comma [] = []"
| "after_comma (c # s) = (if c = comma then s else after_comma s)"

lemma split_commas_not_Nil [simp]: "split_commas s \<noteq> []"
  by (cases s) simp_all

lemma length_split_commas: "length (split_commas s) = 1 + length (filter (\<lambda>c. c = comma) s)"
  by (induction s) (auto simp: Suc_diff_le)

lemma split_after_comma: "tl (split_commas s) \<noteq> [] \<Longrightarrow> split_commas (after_comma s) = tl (split_commas s)"
  by (induction s) auto

text \<open>A name in its field of 128 bytes: cut to 127, and padded with NUL.\<close>

definition id_field :: "u8 list \<Rightarrow> u8 list" where
  "id_field name = take 127 name @ replicate (128 - min 127 (length name)) 0"

definition request_of :: "u8 list \<Rightarrow> teep_manifest_request" where
  "request_of v =
     (case v of
        [] \<Rightarrow> \<lparr>requested = False, unneeded = False, request_id = id_field []\<rparr>
      | c # name \<Rightarrow>
          \<lparr>requested = (c = plus_sign), unneeded = (c = minus_sign),
           request_id = id_field (if c = plus_sign \<or> c = minus_sign then name else v)\<rparr>)"

fun write_from :: "u8 list \<Rightarrow> nat \<Rightarrow> u8 list \<Rightarrow> u8 list" where
  "write_from name i [] = name"
| "write_from name i (c # x) = write_from (if i < length name - 1 then name[i := c] else name) (i + 1) x"

lemma read_request_id_split:
  "read_request_id name i s = (write_from name i (hd (split_commas s)), after_comma s)"
  by (induction name i s rule: read_request_id.induct) auto

lemma write_from_full: "length name - 1 \<le> i \<Longrightarrow> write_from name i x = name"
  by (induction x arbitrary: i) auto

lemma write_from_zeros:
  "write_from (pre @ replicate (Suc k) 0) (length pre) x =
     pre @ take k x @ replicate (Suc k - min k (length x)) 0"
proof (induction x arbitrary: pre k)
  case (Cons c x)
  show ?case
  proof (cases k)
    case 0
    then show ?thesis by (simp add: write_from_full)
  next
    case (Suc j)
    have "(pre @ replicate (Suc k) 0)[length pre := c] = (pre @ [c]) @ replicate (Suc j) 0"
      by (simp add: Suc)
    then show ?thesis using Cons.IH [of "pre @ [c]" j] Suc by simp
  qed
qed simp

lemma write_id: "write_from (replicate 128 0) 0 x = id_field x"
  using write_from_zeros [of "[]" 127 x] by (simp add: id_field_def)

lemma id_field_Nil [simp]: "id_field [] = replicate 128 0"
  by (simp add: id_field_def)

lemma sign_not_comma [simp]: "plus_sign \<noteq> comma" "minus_sign \<noteq> comma" "minus_sign \<noteq> plus_sign"
  by (simp_all add: plus_sign_def minus_sign_def comma_def)

lemma read_request_split: "read_request s = (request_of (hd (split_commas s)), after_comma s)"
  by (cases s) (auto simp: read_request_def Let_def read_request_id_split write_id request_of_def)

lemma read_requests_split:
  "k \<le> length (split_commas s) \<Longrightarrow> index + k \<le> length rs \<Longrightarrow>
     read_requests rs index k s = take index rs @ map request_of (take k (split_commas s)) @ drop (index + k) rs"
proof (induction k arbitrary: rs index s)
  case (Suc k)
  let ?x = "hd (split_commas s)"
  have sp: "split_commas s = ?x # tl (split_commas s)" by simp
  have eq: "read_requests rs index (Suc k) s = read_requests (rs[index := request_of ?x]) (index + 1) k (after_comma s)"
    by (simp add: read_request_split)
  have tk: "take (Suc index) (rs[index := request_of ?x]) = take index rs @ [request_of ?x]"
    using Suc.prems(2) by (simp add: take_Suc_conv_app_nth)
  show ?case
  proof (cases "k = 0")
    case True
    then show ?thesis
      using eq tk Suc.prems(2) by (simp add: take_Suc upd_conv_take_nth_drop)
  next
    case False
    then have "tl (split_commas s) \<noteq> []" using Suc.prems(1) by (cases "split_commas s") auto
    note sp' = split_after_comma [OF this]
    have "read_requests rs index (Suc k) s =
      take index rs @ request_of ?x # map request_of (take k (tl (split_commas s))) @ drop (Suc index + k) rs"
      unfolding eq using Suc.IH [of "after_comma s" "index + 1" "rs[index := request_of ?x]"] Suc.prems sp' tk
      by simp
    moreover have "take (Suc k) (split_commas s) = ?x # take k (tl (split_commas s))"
      by (cases "split_commas s") auto
    ultimately show ?thesis by simp
  qed
qed simp

lemma set_component_list:
  assumes "state s = AGENT_INIT" and "v \<noteq> []" and "length (split_commas v) \<le> 16"
    and "length (requests s) = 16"
  shows "set_dev_option s AGENT_OPTION_SET_CURRENT_TA_LIST v =
    (TEE_SUCCESS, s\<lparr>requests := map request_of (split_commas v) @ drop (length (split_commas v)) (requests s),
      n_requests := length (split_commas v)\<rparr>)"
proof -
  have "read_requests (requests s) 0 (length (split_commas v)) v =
    map request_of (split_commas v) @ drop (length (split_commas v)) (requests s)"
    using read_requests_split [of "length (split_commas v)" v 0 "requests s"] assms(3,4) by simp
  then show ?thesis using assms(1-3) by (simp add: set_dev_option_def length_split_commas Let_def)
qed

section \<open>The messages\<close>

text \<open>The names of the components that are wanted in a list.\<close>

definition names :: "(teep_manifest_request \<Rightarrow> bool) \<Rightarrow> teep_agent_session \<Rightarrow> u8 list list" where
  "names wanted s = map (\<lambda>r. string_in (request_id r)) (filter wanted (take (n_requests s) (requests s)))"

lemma add_calls_add [simp]: "add_calls (add_calls enc xs) ys = add_calls enc (xs @ ys)"
  by (simp add: add_calls_def)

lemma add_calls_Nil [simp]: "add_calls enc [] = enc"
  by (simp add: add_calls_def)

lemma add_components_calls:
  assumes "\<And>enc s. add enc s = add_calls enc (f s)"
  shows "add_components wanted add session enc = add_calls enc (concat (map f (names wanted session)))"
proof -
  have "fold (\<lambda>r enc. if wanted r then add enc (string_in (request_id r)) else enc) rs enc =
    add_calls enc (concat (map f (map (\<lambda>r. string_in (request_id r)) (filter wanted rs))))" for rs
    by (induction rs arbitrary: enc) (simp_all add: assms)
  then show ?thesis by (simp add: add_components_def names_def)
qed

text \<open>The items of the protocol.\<close>

definition token_entry :: "u8 list option \<Rightarrow> (cbor \<times> cbor) list" where
  "token_entry t = (case t of None \<Rightarrow> [] | Some bs \<Rightarrow> [(CUint 20, CBstr bs)])"

definition component_entries :: "teep_agent_session \<Rightarrow> (cbor \<times> cbor) list" where
  "component_entries s =
     [(CUint 8, CArray (map CTstr (names (\<lambda>r. \<not> requested r \<and> \<not> unneeded r) s))),
      (CUint 14, CArray (map (\<lambda>n. CMap [(CUint 16, CArray [CTstr n])]) (names requested s))),
      (CUint 15, CArray (map (\<lambda>n. CArray [CTstr n]) (names unneeded s)))]"

definition query_response_item :: "memory \<Rightarrow> teep_agent_session \<Rightarrow> cbor" where
  "query_response_item m s =
     CArray [CUint 2, CMap (token_entry (token_bytes m (token s)) @
       (if session_data_item_requested s AND TEEP_DATA_ATTESTATION = 0 \<and>
           session_data_item_requested s AND TEEP_DATA_TRUSTED_COMPONENTS \<noteq> 0
        then component_entries s else []))]"

definition success_item :: "memory \<Rightarrow> teep_agent_session \<Rightarrow> cbor" where
  "success_item m s = CArray [CUint 5, CMap (token_entry (token_bytes m (token s)))]"

definition error_item :: "memory \<Rightarrow> teep_agent_session \<Rightarrow> cbor" where
  "error_item m s = CArray [CUint 6, CMap (token_entry (token_bytes m (token s))), CUint 42]"

text \<open>The calls a message is made of, the last one included.\<close>

definition message_calls :: "(teep_message_encoder \<Rightarrow> teep_message_encoder) \<Rightarrow> u8 list \<Rightarrow> encoder_call list" where
  "message_calls calls buffer = enc_calls (calls (teep_message_encoder_init buffer)) @ [CloseArray]"

lemma enc_calls_add [simp]: "enc_calls (add_calls enc xs) = enc_calls enc @ xs"
  by (simp add: add_calls_def)

lemma add_token_calls:
  "teep_message_encoder_add_token enc t = add_calls enc (case t of None \<Rightarrow> [] | Some bs \<Rightarrow> [AddBytesToMapN TEEP_OPTION_TOKEN bs])"
  by (simp add: teep_message_encoder_add_token_def split: option.split)

lemma int_item_small [simp]:
  "int_item 1 = CUint 1" "int_item 2 = CUint 2" "int_item 3 = CUint 3" "int_item 5 = CUint 5"
  "int_item 6 = CUint 6" "int_item 8 = CUint 8" "int_item 14 = CUint 14" "int_item 15 = CUint 15"
  "int_item 16 = CUint 16" "int_item 20 = CUint 20"
  by (simp_all add: int_item_def)

lemma success_message: "calls_item (message_calls (success_calls m s) buffer) = Some (success_item m s)"
  by (cases "token_bytes m (token s)")
    (simp_all add: calls_item_def message_calls_def success_calls_def add_token_calls Let_def success_item_def
      token_entry_def teep_message_encoder_init_def teep_message_encoder_add_header_def
      teep_message_encoder_open_options_def teep_message_encoder_close_options_def close_map_def close_array_def)

lemma error_message: "calls_item (message_calls (error_calls m s) buffer) = Some (error_item m s)"
  by (cases "token_bytes m (token s)")
    (simp_all add: calls_item_def message_calls_def error_calls_def add_token_calls Let_def error_item_def
      token_entry_def teep_message_encoder_init_def teep_message_encoder_add_header_def
      teep_message_encoder_open_options_def teep_message_encoder_close_options_def close_map_def close_array_def
      teep_message_encoder_add_err_code_def)

text \<open>The three lists, inside the map of the options.\<close>

lemma tc_list_entry:
  "encoder_steps (OpenArrayInMapN k # concat (map (\<lambda>s. [AddSZString s]) ss) @ [CloseArray]) ((key, True, es) # cs) =
   Some ((key, True, (Some k, CArray (map CTstr ss)) # es) # cs)"
  by (simp add: encoder_steps_append tc_list_steps [simplified] close_array_def rev_map [symmetric] comp_def)

lemma requested_entry:
  "encoder_steps (OpenArrayInMapN k # concat (map (\<lambda>s. [OpenMap, OpenArrayInMapN k', AddSZString s, CloseArray, CloseMap]) ss)
     @ [CloseArray]) ((key, True, es) # cs) =
   Some ((key, True, (Some k, CArray (map (\<lambda>s. CMap [(int_item k', CArray [CTstr s])]) ss)) # es) # cs)"
  by (simp add: encoder_steps_append requested_steps close_array_def rev_map [symmetric] comp_def)

lemma unneeded_entry:
  "encoder_steps (OpenArrayInMapN k # concat (map (\<lambda>s. [OpenArray, AddSZString s, CloseArray]) ss) @ [CloseArray])
     ((key, True, es) # cs) =
   Some ((key, True, (Some k, CArray (map (\<lambda>s. CArray [CTstr s]) ss)) # es) # cs)"
  by (simp add: encoder_steps_append unneeded_steps close_array_def rev_map [symmetric] comp_def)

definition component_calls :: "teep_agent_session \<Rightarrow> encoder_call list" where
  "component_calls s =
     (OpenArrayInMapN TEEP_OPTION_TC_LIST #
        concat (map (\<lambda>s. [AddSZString s]) (names (\<lambda>r. \<not> requested r \<and> \<not> unneeded r) s)) @ [CloseArray]) @
     (OpenArrayInMapN TEEP_OPTION_REQUESTED_TC_LIST #
        concat (map (\<lambda>s. [OpenMap, OpenArrayInMapN TEEP_OPTION_COMPONENT_ID, AddSZString s, CloseArray, CloseMap])
          (names requested s)) @ [CloseArray]) @
     (OpenArrayInMapN TEEP_OPTION_UNNEEDED_TC_LIST #
        concat (map (\<lambda>s. [OpenArray, AddSZString s, CloseArray]) (names unneeded s)) @ [CloseArray])"

lemma component_calls_steps:
  "encoder_steps (component_calls s) ((key, True, es) # cs) =
   Some ((key, True, rev (map (\<lambda>(k, c). (Some k, c))
     [(8, CArray (map CTstr (names (\<lambda>r. \<not> requested r \<and> \<not> unneeded r) s))),
      (14, CArray (map (\<lambda>n. CMap [(CUint 16, CArray [CTstr n])]) (names requested s))),
      (15, CArray (map (\<lambda>n. CArray [CTstr n]) (names unneeded s)))]) @ es) # cs)"
  unfolding component_calls_def
  by (subst encoder_steps_append, subst tc_list_entry, simp only: option.case,
      subst encoder_steps_append, subst requested_entry, simp only: option.case,
      subst unneeded_entry) simp

lemma query_response_enc_calls:
  "message_calls (query_response_calls m s) buffer =
     [OpenArray, AddInt64 2, OpenMap] @
     (case token_bytes m (token s) of None \<Rightarrow> [] | Some bs \<Rightarrow> [AddBytesToMapN TEEP_OPTION_TOKEN bs]) @
     (if session_data_item_requested s AND TEEP_DATA_ATTESTATION = 0 \<and>
         session_data_item_requested s AND TEEP_DATA_TRUSTED_COMPONENTS \<noteq> 0
      then component_calls s else []) @ [CloseMap, CloseArray]"
proof -
  note comp = add_components_calls
    [of teep_message_encoder_add_tc_to_tc_list, OF teep_message_encoder_add_tc_to_tc_list_def]
    add_components_calls
    [of teep_message_encoder_add_tc_to_requested_tc_list, OF teep_message_encoder_add_tc_to_requested_tc_list_def]
    add_components_calls
    [of teep_message_encoder_add_tc_to_unneeded_tc_list, OF teep_message_encoder_add_tc_to_unneeded_tc_list_def]
  show ?thesis
    by (simp add: message_calls_def query_response_calls_def Let_def add_token_calls comp component_calls_def
        teep_message_encoder_init_def teep_message_encoder_add_header_def teep_message_encoder_open_options_def
        teep_message_encoder_close_options_def teep_message_encoder_open_tc_list_def
        teep_message_encoder_close_tc_list_def teep_message_encoder_open_requested_tc_list_def
        teep_message_encoder_close_requested_tc_list_def teep_message_encoder_open_unneeded_tc_list_def
        teep_message_encoder_close_unneeded_tc_list_def)
qed

lemma query_response_message:
  "calls_item (message_calls (query_response_calls m s) buffer) = Some (query_response_item m s)"
  by (cases "token_bytes m (token s)")
    (simp_all add: calls_item_def query_response_enc_calls encoder_steps_append component_calls_steps
      query_response_item_def token_entry_def component_entries_def close_map_def close_array_def)

end
