(* ===== verification/Agent_Shape.thy ===== *)
theory Agent_Shape
  imports Agent_Proofs Agent_Messages
begin

text \<open>
  The buffers of a session keep their sizes: the URIs, the data to post, the requests and their
  names are as long as the arrays of the code, and a task never announces more data than its
  buffer holds.
\<close>

definition request_shape :: "teep_manifest_request \<Rightarrow> bool" where
  "request_shape r \<longleftrightarrow> length (request_id r) = 128"

definition session_shape :: "teep_agent_session \<Rightarrow> bool" where
  "session_shape s \<longleftrightarrow>
     length (tam_uri s) = TEEP_MAX_URI_LEN \<and> length (uri (task_buffer s)) = TEEP_MAX_URI_LEN \<and>
     length (post_data (task_buffer s)) = TEEP_MAX_MESSAGE_LEN \<and>
     length (requests s) = 16 \<and> (\<forall>r \<in> set (requests s). request_shape r) \<and> n_requests s \<le> 16 \<and>
     (on_going_task s \<longrightarrow> post_data_len (task_buffer s) \<le> TEEP_MAX_MESSAGE_LEN)"

text \<open>The encoder of QCBOR stays inside of the buffer it is given.\<close>

definition emit_ok :: "(encoder_call list \<Rightarrow> u8 list \<Rightarrow> u8 list \<times> nat option) \<Rightarrow> bool" where
  "emit_ok emit \<longleftrightarrow>
     (\<forall>calls buffer. length (fst (emit calls buffer)) = length buffer \<and>
        (\<forall>n. snd (emit calls buffer) = Some n \<longrightarrow> n \<le> length buffer))"

lemma length_strncpy [simp]: "length (strncpy dst src n) = n + (length dst - n)"
  by (simp add: strncpy_def)

lemma request_of_shape: "request_shape (request_of v)"
  by (cases v) (simp_all add: request_shape_def request_of_def id_field_def)

lemma set_dev_option_shape:
  assumes h: "set_dev_option s option v = (r, s')" and shape: "session_shape s"
  shows "session_shape s'"
proof -
  consider "s' = s" | "s' = s\<lparr>tam_uri := strncpy (tam_uri s) v (TEEP_MAX_URI_LEN - 1)\<rparr>"
    | "state s = AGENT_INIT" "option = AGENT_OPTION_SET_CURRENT_TA_LIST" "v \<noteq> []" "length (split_commas v) \<le> 16"
    using h by (auto simp: set_dev_option_def length_split_commas Let_def split: if_split_asm)
  then show ?thesis
  proof cases
    case 1
    then show ?thesis using shape by simp
  next
    case 2
    then show ?thesis using shape by (simp add: session_shape_def TEEP_MAX_URI_LEN_def)
  next
    case 3
    have "length (requests s) = 16" using shape by (simp add: session_shape_def)
    then have "s' = s\<lparr>requests := map request_of (split_commas v) @ drop (length (split_commas v)) (requests s),
        n_requests := length (split_commas v)\<rparr>"
      using h set_component_list [OF 3(1,3,4)] 3(2) by simp
    then show ?thesis using shape 3(4) request_of_shape by (auto simp: session_shape_def dest: in_set_dropD)
  qed
qed

lemma enc_buffer_add [simp]: "enc_buffer (add_calls enc xs) = enc_buffer enc"
  by (simp add: add_calls_def)

text \<open>None of the functions that add to a message touches the buffer.\<close>

definition keeps_buffer :: "(teep_message_encoder \<Rightarrow> teep_message_encoder) \<Rightarrow> bool" where
  "keeps_buffer calls \<longleftrightarrow> (\<forall>enc. enc_buffer (calls enc) = enc_buffer enc)"

lemma add_components_buffer:
  assumes "\<And>enc s. enc_buffer (add enc s) = enc_buffer enc"
  shows "enc_buffer (add_components wanted add session enc) = enc_buffer enc"
proof -
  have "enc_buffer (fold (\<lambda>r enc. if wanted r then add enc (string_in (request_id r)) else enc) rs enc) = enc_buffer enc"
    for rs by (induction rs arbitrary: enc) (simp_all add: assms)
  then show ?thesis by (simp add: add_components_def)
qed

lemma message_buffers:
  "keeps_buffer (query_response_calls m s)" "keeps_buffer (success_calls m s)" "keeps_buffer (error_calls m s)"
proof -
  note defs = teep_message_encoder_add_header_def teep_message_encoder_open_options_def
    teep_message_encoder_close_options_def teep_message_encoder_open_tc_list_def
    teep_message_encoder_add_tc_to_tc_list_def teep_message_encoder_close_tc_list_def
    teep_message_encoder_open_requested_tc_list_def teep_message_encoder_add_tc_to_requested_tc_list_def
    teep_message_encoder_close_requested_tc_list_def teep_message_encoder_open_unneeded_tc_list_def
    teep_message_encoder_add_tc_to_unneeded_tc_list_def teep_message_encoder_close_unneeded_tc_list_def
    teep_message_encoder_add_err_code_def
  show "keeps_buffer (query_response_calls m s)" "keeps_buffer (success_calls m s)" "keeps_buffer (error_calls m s)"
    by (simp_all add: keeps_buffer_def query_response_calls_def success_calls_def error_calls_def Let_def defs
        add_token_calls add_components_buffer)
qed

lemma build_message_shape:
  assumes "emit_ok emit" and "keeps_buffer calls" and "n = length dst"
    and b: "build_message emit calls dst n = (ok, dst', n')"
  shows "length dst' = length dst \<and> n' \<le> length dst"
proof -
  obtain bs x where e: "teep_message_encoder_finish emit (calls (teep_message_encoder_init dst)) = (bs, x)"
    by fastforce
  then have "length bs = length dst \<and> (\<forall>k. x = Some k \<longrightarrow> k \<le> length dst)"
    using assms(1,2)
    by (simp add: teep_message_encoder_finish_def emit_ok_def keeps_buffer_def teep_message_encoder_init_def Let_def)
      (metis fst_conv snd_conv)
  then show ?thesis using b e assms(3) by (auto simp: build_message_def split: option.split_asm)
qed

lemma build_message_calls:
  assumes "keeps_buffer calls"
  shows "build_message emit calls dst (length dst) =
    (case emit (message_calls calls dst) dst of
       (bs, x) \<Rightarrow> (x \<noteq> None, bs, case x of None \<Rightarrow> length dst | Some n \<Rightarrow> n))"
  using assms
  by (simp add: build_message_def teep_message_encoder_finish_def message_calls_def keeps_buffer_def
      teep_message_encoder_init_def Let_def split: prod.split option.split)

lemma post_task_shape:
  assumes shape: "session_shape s"
    and build: "\<And>b. build = Some b \<Longrightarrow> \<exists>calls emit. emit_ok emit \<and> keeps_buffer calls \<and> b = build_message emit calls"
  shows "session_shape (post_task s build)"
proof (cases build)
  case None
  then show ?thesis
    using shape by (simp add: post_task_def session_shape_def Let_def TEEP_MAX_URI_LEN_def)
next
  case (Some b)
  then obtain calls emit where b: "emit_ok emit" "keeps_buffer calls" "b = build_message emit calls"
    using build by blast
  obtain ok dst' n' where r: "build_message emit calls (post_data (task_buffer s)) TEEP_MAX_MESSAGE_LEN = (ok, dst', n')"
    by (rule prod_cases3)
  have "length (post_data (task_buffer s)) = TEEP_MAX_MESSAGE_LEN" using shape by (simp add: session_shape_def)
  then have "length dst' = TEEP_MAX_MESSAGE_LEN \<and> n' \<le> TEEP_MAX_MESSAGE_LEN"
    using build_message_shape [OF b(1,2) _ r] by simp
  then show ?thesis
    using shape Some b(3) r by (simp add: post_task_def session_shape_def Let_def TEEP_MAX_URI_LEN_def)
qed

lemma post_built_shape:
  "session_shape s \<Longrightarrow> emit_ok emit \<Longrightarrow> keeps_buffer calls \<Longrightarrow>
     session_shape (post_task s (Some (build_message emit calls)))"
  by (rule post_task_shape) blast+

lemma query_round_shape:
  assumes q: "query_round env w s = Some (Some (w', s'))" and shape: "session_shape s" and emit: "emit_ok (env_emit env)"
  shows "session_shape s'"
proof (cases "state s")
  case AGENT_FETCH_COMPONENT
  then show ?thesis
    using q shape by (auto simp: query_round_def fetch_task_def session_shape_def Let_def split: if_split_asm)
next
  case AGENT_RUN_SUIT_RUNNER
  then obtain r where "after_run w s r = (w', s')"
    using q by (auto simp: query_round_def split: option.split_asm)
  then show ?thesis using shape by (auto simp: after_run_def Let_def teep_error_def session_shape_def split: if_split_asm)
next
  case AGENT_INIT_RUNNER
  then show ?thesis
    using q shape by (auto simp: query_round_def start_runner_def session_shape_def split: option.split_asm)
next
  case AGENT_POSTING_INITIAL_REQUEST
  then show ?thesis using q post_task_shape [OF shape, of None] by (simp add: query_round_def)
next
  case AGENT_POSTING_QUERY_RESPONSE
  have "build_query_response env (w_memory w) s = build_message (env_emit env) (query_response_calls (w_memory w) s)"
    by (rule ext)+ (simp add: build_query_response_def)
  then show ?thesis
    using AGENT_POSTING_QUERY_RESPONSE q post_built_shape [OF shape emit] message_buffers by (auto simp: query_round_def)
next
  case AGENT_POSTING_SUCCESS
  have "build_success env (w_memory w) s = build_message (env_emit env) (success_calls (w_memory w) s)"
    by (rule ext)+ (simp add: build_success_def)
  then show ?thesis
    using AGENT_POSTING_SUCCESS q post_built_shape [OF shape emit] message_buffers by (auto simp: query_round_def)
next
  case AGENT_POSTING_ERROR
  have "build_error env (w_memory w) s = build_message (env_emit env) (error_calls (w_memory w) s)"
    by (rule ext)+ (simp add: build_error_def)
  then show ?thesis
    using AGENT_POSTING_ERROR q post_built_shape [OF shape emit] message_buffers by (auto simp: query_round_def)
qed (use q shape in \<open>auto simp: query_round_def finish_task_def session_shape_def\<close>)

text \<open>What every round keeps, the loop keeps: induction over the calls that return.\<close>

lemma query_next_broker_task_invariant:
  assumes q: "query_next_broker_task env w s = Some x" and "P s"
    and round: "\<And>w s w' s'. query_round env w s = Some (Some (w', s')) \<Longrightarrow> P s \<Longrightarrow> P s'"
  shows "x = None \<or> P (snd (the x))"
proof -
  let ?Q = "\<lambda>e (w :: world) s x. e = env \<longrightarrow> P s \<longrightarrow> x = None \<or> P (snd (the (x :: (world \<times> teep_agent_session) option)))"
  have "?Q env w s x"
    using q
  proof (rule query_next_broker_task.raw_induct [where P = ?Q, rotated])
    fix loop e w s x
    assume IH: "\<And>e w s x. loop e w s = Some x \<Longrightarrow> ?Q e w s x"
      and eq: "(if on_going_task s then Some (Some (w, s))
        else case query_round e w s of None \<Rightarrow> None | Some None \<Rightarrow> Some None
          | Some (Some y) \<Rightarrow> loop e (fst y) (snd y)) = Some x"
    show "?Q e w s x"
    proof (cases "on_going_task s")
      case True
      then show ?thesis using eq by auto
    next
      case False
      then consider "x = None" | w1 s1 where "query_round e w s = Some (Some (w1, s1))" "loop e w1 s1 = Some x"
        using eq by (auto split: option.split_asm)
      then show ?thesis
      proof cases
        case 2
        then show ?thesis using IH [OF 2(2)] round by blast
      qed simp
    qed
  qed
  then show ?thesis using assms(2) by simp
qed

lemma query_shape:
  assumes "query_next_broker_task env w s = Some (Some (w', s'))" and "session_shape s" and "emit_ok (env_emit env)"
  shows "session_shape s'"
  using query_next_broker_task_invariant [where P = session_shape, OF assms(1,2)] query_round_shape [OF _ _ assms(3)]
  by fastforce

lemma session_shape_updates [simp]:
  "session_shape (s\<lparr>state := st\<rparr>) = session_shape s"
  "session_shape (s\<lparr>token := t\<rparr>) = session_shape s"
  "session_shape (s\<lparr>session_data_item_requested := d\<rparr>) = session_shape s"
  "session_shape (s\<lparr>session_context := ctx\<rparr>) = session_shape s"
  "session_shape (s\<lparr>session_runner := r\<rparr>) = session_shape s"
  "session_shape s \<Longrightarrow> session_shape (s\<lparr>on_going_task := False\<rparr>)"
  "session_shape (teep_error s) = session_shape s"
  by (simp_all add: session_shape_def teep_error_def)

lemma task_done_shape:
  assumes h: "broker_task_done env w s buffer len = Some (r, w', s')" and shape: "session_shape s"
  shows "session_shape s'"
proof -
  have tam: "session_shape s1" if "handle_tam_message env w s buffer len = Some (r1, w1, s1)" for r1 w1 s1
    using that shape
    by (auto simp: handle_tam_message_def handle_query_request_def handle_update_def Let_def
        split: if_split_asm option.split_asm teep_body.split_asm prod.split_asm bool.split_asm)
  have get: "session_shape s1" if "handle_component_download w s buffer len = (r1, w1, s1)" for r1 w1 s1
    using that shape by (auto simp: handle_component_download_def Let_def split: if_split_asm prod.split_asm)
  show ?thesis
    using h tam get shape
    by (fastforce simp: broker_task_done_def split: if_split_asm broker_command.split_asm prod.split_asm)
qed

lemma invoke_shape:
  assumes h: "TA_InvokeCommandEntryPoint env w s cmd types params = Some (Some (r, w', s', params'))"
    and shape: "session_shape s" and emit: "emit_ok (env_emit env)"
  shows "session_shape s'"
  using h
proof (cases rule: invoke_cases)
  case set_option
  then consider "s' = s" | opt v where "set_dev_option s opt v = (r, s')"
    by (auto simp: handle_TEEP_AGENT_SET_DEV_OPTION_def Let_def split: if_split_asm)
  then show ?thesis using set_dev_option_shape shape by cases auto
next
  case task_done
  then consider "s' = s" | buffer n where "broker_task_done env w s buffer n = Some (r, w', s')"
    by (auto simp: handle_TEEP_AGENT_BROKER_TASK_DONE_def Let_def split: if_split_asm)
  then show ?thesis using task_done_shape shape by cases auto
next
  case query
  then consider "s' = s" | w1 where "query_next_broker_task env w s = Some (Some (w1, s'))"
    by (auto simp: handle_TEEP_AGENT_QUERY_NEXT_BROKER_TASK_def Let_def
        split: if_split_asm option.split_asm prod.split_asm)
  then show ?thesis using query_shape [OF _ shape emit] shape by cases auto
next
  case unknown
  then show ?thesis using shape by simp
qed

end
