(* ===== verification/Agent_Properties.thy ===== *)
theory Agent_Properties
  imports Agent_Sample Agent_Shape
begin

text \<open>
  The properties of the TEEP messages and of the agent, over the lemmas of their theories, each with
  a witness on the session of \<open>Agent_Sample\<close>.
\<close>

section \<open>TEEP messages\<close>

text \<open>
  C16. The body of a message that is accepted is of the type its second element announces, whatever
  options it carries.
\<close>

theorem message_type_is_announced:
  assumes "parse_teep_message q cbor = Some msg"
  shows "\<exists>ok1 item1 dc1 ok2 item2 dc2. q_next q (q_init q cbor) = (ok1, item1, dc1) \<and>
    q_next q dc1 = (ok2, item2, dc2) \<and>
    item_data item2 = QCBOR_INT64 (message_type_value (body_type (msg_body msg)))"
  by (rule parse_message_type [OF assms])

theorem message_type_is_announced_witness:
  "\<exists>ok1 item1 dc1 ok2 item2 dc2.
     q_next (list_decoder (sample_messages 28)) (q_init (list_decoder (sample_messages 28))
       \<lparr>ub_ptr = 0x5000, ub_len = 64\<rparr>) = (ok1, item1, dc1) \<and>
     q_next (list_decoder (sample_messages 28)) dc1 = (ok2, item2, dc2) \<and> item_data item2 = QCBOR_INT64 1"
  using message_type_is_announced [OF parsed_request] by simp

text \<open>
  C15. An update whose options the decoder delivers is parsed into its token and its list of
  manifests: the last of each counts, and every other option is left out with all it contains.
\<close>

theorem update_is_parsed:
  assumes "decoder_ok q" and "\<And>n. q_malloc q n"
    and "delivers q (q_init q cbor) [QCBOR_ARRAY n, QCBOR_INT64 3] dc1"
    and "q_next q dc1 = (ok, options, dc2)" and "item_data options = QCBOR_MAP (of_nat (length opts))"
    and "length opts < 2 ^ 16" and "delivers_options q (item_next_nest options) dc2 opts dc3" and "q_finish q dc3"
  shows "parse_teep_message q cbor = Some (fold apply_option opts empty_update)"
  by (rule parse_update [OF assms])

theorem update_is_parsed_witness:
  "parse_teep_message (list_decoder (sample_messages 28)) \<lparr>ub_ptr = 0x6000, ub_len = 64\<rparr> =
   Some \<lparr>msg_token = NULLUsefulBufC, msg_body = Update \<lparr>manifest_list = Some [\<lparr>ub_ptr = 0x7000, ub_len = 28\<rparr>]\<rparr>\<rparr>"
  unfolding update_is_parsed [OF list_decoder_ok update_facts(1) update_delivered(1,2) update_facts(3,2,4,5)]
  by (simp add: update_options_def empty_update_def)

text \<open>
  C29. Skipping an option ends for every decoder that advances: the loop of the code has exactly one
  result, and the definition computes it.
\<close>

theorem option_skipping_ends:
  assumes "decoder_ok q"
  shows "\<exists>r. (\<forall>r'. skips q nest (item_next_nest option) dc r' \<longleftrightarrow> r' = r) \<and>
    skip_option q msg dc option nest = map_option (\<lambda>dc. (msg, dc)) r"
proof -
  have "skips q nest (item_next_nest option) dc r' \<longleftrightarrow>
      r' = skip_level q (left_over q dc) nest (item_next_nest option) dc" for r'
    using skip_level_iff [OF assms, of dc nest "item_next_nest option" r'] by auto
  then show ?thesis
    by (intro exI [of _ "skip_level q (left_over q dc) nest (item_next_nest option) dc"]) (simp add: skip_option_def)
qed

theorem option_skipping_ends_witness:
  "\<exists>r. \<forall>r'. skips (list_decoder (sample_messages 28)) 2 3
     (\<lparr>ub_ptr = 0x6000, ub_len = 64\<rparr>, 4, drop 4 (update_items 28)) r' \<longleftrightarrow> r' = r"
  using option_skipping_ends [OF list_decoder_ok, of "sample_messages 28" 2 "mk_item 99 (QCBOR_ARRAY 1) 3"
      "(\<lparr>ub_ptr = 0x6000, ub_len = 64\<rparr>, 4, drop 4 (update_items 28))" empty_update]
  unfolding mk_item_simps by blast

text \<open>
  The flag that says whether a binary is there is never read: its case runs on into the one that
  refuses, so that an entry with it is an error, and no list that is accepted has it set.
\<close>

theorem have_binary_is_refused:
  "(item_label (snd entry) = Label_int64 TEEP_OPTION_HAVE_BINARY \<longrightarrow> tc_info_entry q req dc entry info = None) \<and>
   (parse_tc_info_array q dc option req = Some (Some infos, dc') \<longrightarrow> (\<forall>info \<in> set infos. have_binary info = None))"
  using parse_tc_info_array_binary [of q dc option req infos dc']
  by (auto simp: tc_info_entry_def split: option.split prod.split)

theorem have_binary_is_refused_witness:
  "tc_info_entry (list_decoder (\<lambda>_. [])) True (\<lparr>ub_ptr = 0x5000, ub_len = 64\<rparr>, 1, [])
     (0, mk_item TEEP_OPTION_HAVE_BINARY (QCBOR_INT64 1) 0) zero_tc_info = None"
  using have_binary_is_refused [of "(0, mk_item TEEP_OPTION_HAVE_BINARY (QCBOR_INT64 1) 0)"
      "list_decoder (\<lambda>_. [])" True "(\<lparr>ub_ptr = 0x5000, ub_len = 64\<rparr>, 1, [])" zero_tc_info] by simp

section \<open>The agent\<close>

text \<open>
  C1. In every session that can be reached, the manifests the interpreter is started on have been
  accepted, and lie in envelopes whose bytes, as they are in memory now, have passed the check of
  the signature with the built-in key; while the interpreter is at work it is on this very table.
\<close>

theorem only_signed_manifests_run:
  assumes "malloc_ok env" and "reachable env w s" and "i < n_manifest (session_context s)"
  shows "accepted (manifests (session_context s) ! i) \<and>
    authentic env (bytes_of (w_memory w) (man_envelope_bstr (manifests (session_context s) ! i))) \<and>
    (state s = AGENT_RUN_SUIT_RUNNER \<longrightarrow> run_context (session_runner s) = session_context s)"
proof -
  have "session_ok env w s" using reachable_ok [OF assms(2,1)] by (simp add: agent_ok_def)
  then show ?thesis using reachable_signed [OF assms] by (auto simp: session_ok_def)
qed

theorem only_signed_manifests_run_witness:
  "\<exists>w s. reachable session_env w s \<and> n_manifest (session_context s) = 1 \<and>
     accepted (manifests (session_context s) ! 0) \<and>
     authentic session_env (bytes_of (w_memory w) (man_envelope_bstr (manifests (session_context s) ! 0)))"
proof -
  obtain m ctx where r: "reachable session_env (updated_world m) (updated_session ctx)" "n_manifest ctx = 1"
    using run_updated by blast
  then have ctx: "session_context (updated_session ctx) = ctx" and one: "0 < n_manifest (session_context (updated_session ctx))"
    by (simp_all add: updated_session_def)
  show ?thesis
    using only_signed_manifests_run [OF session_malloc r(1) one] r ctx
    by (intro exI [of _ "updated_world m"] exI [of _ "updated_session ctx"]) simp
qed





text \<open>
  C28. The list of components set as an option is the text split at its commas: one request for each
  piece, the sign in front taken off, the name cut to 127 bytes and padded with NUL; the entries
  behind them keep what they had.
\<close>

theorem component_list_is_split:
  assumes "state s = AGENT_INIT" and "v \<noteq> []" and "length (split_commas v) \<le> 16"
    and "length (requests s) = 16"
  shows "set_dev_option s AGENT_OPTION_SET_CURRENT_TA_LIST v =
    (TEE_SUCCESS, s\<lparr>requests := map request_of (split_commas v) @ drop (length (split_commas v)) (requests s),
      n_requests := length (split_commas v)\<rparr>)"
  by (rule set_component_list [OF assms])

theorem component_list_is_split_witness:
  "\<exists>s'. set_dev_option opened_session AGENT_OPTION_SET_CURRENT_TA_LIST (ascii ''a,+b,,-cd'') = (TEE_SUCCESS, s') \<and>
     n_requests s' = 4 \<and> map requested (take 4 (requests s')) = [False, True, False, False] \<and>
     map (string_in o request_id) (take 4 (requests s')) = [ascii ''a'', ascii ''b'', [], ascii ''cd'']"
proof -
  have split: "split_commas (ascii ''a,+b,,-cd'') = [ascii ''a'', ascii ''+b'', [], ascii ''-cd'']"
    by (simp add: ascii_def comma_def)
  have "state opened_session = AGENT_INIT" "length (requests opened_session) = 16"
    by (simp_all add: opened_session_def raw_session_def)
  from component_list_is_split [OF this(1) _ _ this(2), of "ascii ''a,+b,,-cd''"] show ?thesis
    by (simp add: split)
      (simp add: ascii_def request_of_def plus_sign_def minus_sign_def id_field_def string_in_def)
qed




text \<open>
  C36. When there is no memory for the replacement of a stored manifest, the old one has been freed
  and its pointer is kept: the next authentic manifest for this place frees it again.
\<close>

theorem failed_replacement_frees_twice:
  fixes env :: "('d, 'pk) agent_env"
  assumes "i < 2" and "length (suit_manifests w) = 2"
    and "ub_ptr (suit_manifests w ! i) \<noteq> 0" and "ub_ptr (suit_manifests w ! i) \<in> fst ` set (w_blocks w)"
    and "suit_authenticate_envelope (env_crypto env) (w_memory w) \<lparr>rbegin = p, rend = p + n\<rparr> tc_singer_pubkey"
    and "env_malloc env (filter (\<lambda>(q, k). q \<noteq> ub_ptr (suit_manifests w ! i)) (w_blocks w)) n = 0"
  shows "\<exists>w'. store_envelope env w i p n = Some (False, w') \<and> suit_manifests w' = suit_manifests w \<and>
    (\<forall>(env' :: ('d, 'pk) agent_env) p' n'. suit_authenticate_envelope (env_crypto env') (w_memory w') \<lparr>rbegin = p', rend = p' + n'\<rparr>
       tc_singer_pubkey \<longrightarrow> store_envelope env' w' i p' n' = None)"
proof -
  let ?e = "suit_manifests w ! i"
  let ?w = "w\<lparr>w_blocks := filter (\<lambda>(q, k). q \<noteq> ub_ptr ?e) (w_blocks w)\<rparr>"
  have free: "free_block w (ub_ptr ?e) = Some ?w" using assms(3,4) by (simp add: free_block_def)
  have "ub_ptr ?e \<notin> fst ` set (w_blocks ?w)" by auto
  then have again: "free_block ?w (ub_ptr ?e) = None" using assms(3) by (simp add: free_block_def)
  have "store_envelope env w i p n = Some (False, ?w)"
    using assms free
    by (simp add: store_envelope_def store_bstr_def UsefulBuf_IsNULLC_def malloc_block_def Let_def)
  moreover have "store_envelope env' ?w i p' n' = None"
    if "suit_authenticate_envelope (env_crypto env') (w_memory ?w) \<lparr>rbegin = p', rend = p' + n'\<rparr> tc_singer_pubkey"
    for env' :: "('d, 'pk) agent_env" and p' n'
    using that assms(1-3) again by (simp add: store_envelope_def store_bstr_def UsefulBuf_IsNULLC_def)
  ultimately show ?thesis by (intro exI [of _ ?w]) simp
qed

theorem failed_replacement_frees_twice_witness:
  "\<exists>w'. store_envelope (session_env\<lparr>env_malloc := \<lambda>_ _. 0\<rparr>) (updated_world (w_memory start_world)) 0 0x7000 28 =
      Some (False, w') \<and>
    (suit_authenticate_envelope length_crypto (w_memory w') \<lparr>rbegin = 0x7000, rend = 0x7000 + 28\<rparr> tc_singer_pubkey \<longrightarrow>
       store_envelope session_env w' 0 0x7000 28 = None)"
proof -
  let ?env = "session_env\<lparr>env_malloc := \<lambda>_ _. 0\<rparr>"
  let ?w = "updated_world (w_memory start_world)"
  have env: "env_crypto ?env = length_crypto" "env_malloc ?env bs n = 0" for bs n
    by simp_all
  have w: "length (suit_manifests ?w) = 2" "ub_ptr (suit_manifests ?w ! 0) \<noteq> 0"
    "ub_ptr (suit_manifests ?w ! 0) \<in> fst ` set (w_blocks ?w)"
    by (simp_all add: updated_world_def)
  have "suit_authenticate_envelope (env_crypto ?env) (w_memory ?w) \<lparr>rbegin = 0x7000, rend = 0x7000 + 28\<rparr> tc_singer_pubkey"
    unfolding env using session_authentic [OF start_holds] by (simp add: updated_world_def)
  from failed_replacement_frees_twice [OF _ w this env(2)] obtain w' where
    w': "store_envelope ?env ?w 0 0x7000 28 = Some (False, w')"
    and again: "\<And>(env' :: (list_state, unit) agent_env) p' n'. suit_authenticate_envelope (env_crypto env') (w_memory w')
       \<lparr>rbegin = p', rend = p' + n'\<rparr> tc_singer_pubkey \<Longrightarrow> store_envelope env' w' 0 p' n' = None"
    by auto
  show ?thesis
    using w' again [of session_env "0x7000" 28] unfolding session_env_simps(3) by blast
qed

text \<open>
  C37. The address of a component is copied as it is in the manifest: with more than 512 bytes the
  buffer of the task overflows; with fewer it is there as a string; and with exactly 512, none of
  them NUL, it has no end, so that handing the task out is undefined.
\<close>

theorem fetched_uri_bounds:
  assumes "state s = AGENT_FETCH_COMPONENT" and "\<not> on_going_task s"
    and "bytes = bytes_of (w_memory w) (fetch_uri (run_user (session_runner s)))"
  shows "(512 < length bytes \<longrightarrow> query_next_broker_task env w s = Some None) \<and>
    (length bytes \<le> 512 \<longrightarrow>
      (\<exists>s'. query_next_broker_task env w s = Some (Some (w, s')) \<and> command (task_buffer s') = BROKER_HTTP_GET \<and>
         (copy_task w (task_buffer s') params = None \<longleftrightarrow> length bytes = 512 \<and> 0 \<notin> set bytes)))"
proof -
  have step: "query_round env w s = Some (map_option (Pair w) (fetch_task w s))"
    using assms(1) by (simp add: query_round_def)
  have over: "query_next_broker_task env w s = Some None" if "512 < length bytes"
    using that assms(2) step
    by (subst query_next_broker_task.simps) (simp add: fetch_task_def Let_def TEEP_MAX_URI_LEN_def assms(3))
  have inside: "\<exists>s'. query_next_broker_task env w s = Some (Some (w, s')) \<and> command (task_buffer s') = BROKER_HTTP_GET \<and>
      uri (task_buffer s') = bytes @ replicate (512 - length bytes) 0" if "length bytes \<le> 512"
    using that query_post [OF assms(2), of env w w] step
    by (simp add: fetch_task_def Let_def TEEP_MAX_URI_LEN_def assms(3))
  have "copy_task w t params = None \<longleftrightarrow> 0 \<notin> set (uri t)" for t
    using c_string_None [of "uri t"] by (auto simp: copy_task_def Let_def split: option.split prod.split)
  moreover have "0 \<notin> set (bytes @ replicate (512 - length bytes) 0) \<longleftrightarrow> length bytes = 512 \<and> 0 \<notin> set bytes"
    if "length bytes \<le> 512" using that by auto
  ultimately show ?thesis using over inside by metis
qed

theorem fetched_uri_bounds_witness:
  "query_next_broker_task session_env (run_world (\<lambda>_. 0x41) [])
     (opened_session\<lparr>state := AGENT_FETCH_COMPONENT,
       session_runner := raw_runner\<lparr>run_user := (run_user raw_runner)
         \<lparr>fetch_uri := \<lparr>rbegin = 0x7000, rend = 0x7000 + 513\<rparr>\<rparr>\<rparr>\<rparr>) = Some None"
  using fetched_uri_bounds [where env = session_env and w = "run_world (\<lambda>_. 0x41) []"
      and s = "opened_session\<lparr>state := AGENT_FETCH_COMPONENT,
        session_runner := raw_runner\<lparr>run_user := (run_user raw_runner)
          \<lparr>fetch_uri := \<lparr>rbegin = 0x7000, rend = 0x7000 + 513\<rparr>\<rparr>\<rparr>\<rparr>"]
  by (simp add: opened_session_def bytes_of_def span_def)



end
