(* ===== verification/Cose_Crypto.thy ===== *)
theory Cose_Crypto
  imports Prelude
begin

text \<open>
  The adapter between the COSE library and mbed TLS, \<^verbatim>\<open>lib/cose/t_cose_mbedtls_crypto.c\<close>: signatures as
  the two numbers one after the other, and hashes in steps. What both libraries do is a parameter.
\<close>

section \<open>The libraries\<close>

datatype t_cose_err_t =
    T_COSE_SUCCESS
  | T_COSE_ERR_INCORRECT_KEY_FOR_LIB
  | T_COSE_ERR_EMPTY_KEY
  | T_COSE_ERR_UNSUPPORTED_SIGNING_ALG
  | T_COSE_ERR_SIG_FAIL
  | T_COSE_ERR_SIG_VERIFY
  | T_COSE_ERR_INSUFFICIENT_MEMORY
  | T_COSE_ERR_UNSUPPORTED_HASH
  | T_COSE_ERR_HASH_GENERAL_FAIL

text \<open>A key says which library it is for, and points to a key pair, or to nothing.\<close>

record 'key t_cose_key =
  lib_unidentified :: bool
  key_ptr :: "'key option"

datatype md_type = MBEDTLS_MD_SHA256 | MBEDTLS_MD_SHA384 | MBEDTLS_MD_SHA512

text \<open>
  The numbers of the algorithms and the test for ECDSA, of the COSE library; the size of the prime
  of the curve, signing, checking, and numbers written to and read from so many bytes, of mbed TLS;
  then its hashes, where a state is set up and started, is fed, and gives its result. A call that
  fails gives nothing.
\<close>

record ('key, 'md) cose_libs =
  ES256 :: int
  ES384 :: int
  ES512 :: int
  SHA_256 :: int
  SHA_384 :: int
  SHA_512 :: int
  t_cose_algorithm_is_ecdsa :: "int \<Rightarrow> bool"
  mpi_size_P :: "'key \<Rightarrow> nat"
  ecdsa_sign_det :: "'key \<Rightarrow> u8 list \<Rightarrow> md_type \<Rightarrow> (nat \<times> nat) option"
  mpi_write_binary :: "nat \<Rightarrow> nat \<Rightarrow> u8 list option"
  mpi_read_binary :: "u8 list \<Rightarrow> nat option"
  ecdsa_verify :: "'key \<Rightarrow> u8 list \<Rightarrow> nat \<times> nat \<Rightarrow> bool"
  md_known :: "md_type \<Rightarrow> bool"
  md_setup :: "md_type \<Rightarrow> 'md option"
  md_starts :: "'md \<Rightarrow> 'md option"
  md_update :: "'md \<Rightarrow> u8 list \<Rightarrow> int \<times> 'md"
  md_get_size :: "'md \<Rightarrow> nat"
  md_finish :: "'md \<Rightarrow> u8 list option"

section \<open>Signatures\<close>

definition key_convert_and_size ::
    "('key, 'md) cose_libs \<Rightarrow> 'key t_cose_key \<Rightarrow> t_cose_err_t + ('key \<times> nat)" where
  "key_convert_and_size libs key =
     (if \<not> lib_unidentified key then Inl T_COSE_ERR_INCORRECT_KEY_FOR_LIB
      else
        case key_ptr key of
          None \<Rightarrow> Inl T_COSE_ERR_EMPTY_KEY
        | Some keypair \<Rightarrow> Inr (keypair, mpi_size_P libs keypair))"

definition t_cose_crypto_sig_size ::
    "('key, 'md) cose_libs \<Rightarrow> int \<Rightarrow> 'key t_cose_key \<Rightarrow> t_cose_err_t + nat" where
  "t_cose_crypto_sig_size libs alg key =
     (if \<not> t_cose_algorithm_is_ecdsa libs alg then Inl T_COSE_ERR_UNSUPPORTED_SIGNING_ALG
      else
        case key_convert_and_size libs key of
          Inl e \<Rightarrow> Inl e
        | Inr (keypair, key_size) \<Rightarrow> Inr (key_size * 2))"

text \<open>The bytes written to a buffer at an offset.\<close>

definition put :: "u8 list \<Rightarrow> nat \<Rightarrow> u8 list \<Rightarrow> u8 list" where
  "put buffer i bs = take i buffer @ bs @ drop (i + length bs) buffer"

text \<open>The hash for the deterministic nonce is the same for all three algorithms.\<close>

definition sign_md_type :: "('key, 'md) cose_libs \<Rightarrow> int \<Rightarrow> md_type option" where
  "sign_md_type libs alg =
     (if alg = ES256 libs then Some MBEDTLS_MD_SHA256
      else if alg = ES384 libs then Some MBEDTLS_MD_SHA256
      else if alg = ES512 libs then Some MBEDTLS_MD_SHA256
      else None)"

text \<open>
  The result, the buffer, and how much of it is the signature when there is one. Both halves are
  written from the same number.
\<close>

definition t_cose_crypto_sign ::
    "('key, 'md) cose_libs \<Rightarrow> int \<Rightarrow> 'key t_cose_key \<Rightarrow> u8 list \<Rightarrow> u8 list \<Rightarrow>
     t_cose_err_t \<times> u8 list \<times> nat option" where
  "t_cose_crypto_sign libs alg key hash_to_sign buffer =
     (if \<not> t_cose_algorithm_is_ecdsa libs alg then (T_COSE_ERR_UNSUPPORTED_SIGNING_ALG, buffer, None)
      else
        case sign_md_type libs alg of
          None \<Rightarrow> (T_COSE_ERR_UNSUPPORTED_SIGNING_ALG, buffer, None)
        | Some md_type \<Rightarrow>
            case key_convert_and_size libs key of
              Inl e \<Rightarrow> (e, buffer, None)
            | Inr (keypair, key_size) \<Rightarrow>
                case ecdsa_sign_det libs keypair hash_to_sign md_type of
                  None \<Rightarrow> (T_COSE_ERR_SIG_FAIL, buffer, None)
                | Some (r, s) \<Rightarrow>
                    if length buffer < key_size * 2 then (T_COSE_ERR_SIG_FAIL, buffer, None)
                    else
                      case mpi_write_binary libs r key_size of
                        None \<Rightarrow> (T_COSE_ERR_SIG_FAIL, buffer, None)
                      | Some bs \<Rightarrow>
                          let buffer = put buffer 0 bs in
                          case mpi_write_binary libs r key_size of
                            None \<Rightarrow> (T_COSE_ERR_SIG_FAIL, buffer, None)
                          | Some bs \<Rightarrow> (T_COSE_SUCCESS, put buffer key_size bs, Some (key_size * 2)))"

definition t_cose_crypto_verify ::
    "('key, 'md) cose_libs \<Rightarrow> int \<Rightarrow> 'key t_cose_key \<Rightarrow> u8 list \<Rightarrow> u8 list \<Rightarrow> t_cose_err_t" where
  "t_cose_crypto_verify libs alg key hash_to_verify signature =
     (if \<not> t_cose_algorithm_is_ecdsa libs alg then T_COSE_ERR_UNSUPPORTED_SIGNING_ALG
      else
        case key_convert_and_size libs key of
          Inl e \<Rightarrow> e
        | Inr (keypair, key_size) \<Rightarrow>
            if length signature \<noteq> key_size * 2 then T_COSE_ERR_SIG_VERIFY
            else
              case mpi_read_binary libs (take key_size signature) of
                None \<Rightarrow> T_COSE_ERR_INSUFFICIENT_MEMORY
              | Some r \<Rightarrow>
                  case mpi_read_binary libs (take key_size (drop key_size signature)) of
                    None \<Rightarrow> T_COSE_ERR_INSUFFICIENT_MEMORY
                  | Some s \<Rightarrow>
                      if \<not> ecdsa_verify libs keypair hash_to_verify (r, s) then T_COSE_ERR_SIG_VERIFY
                      else T_COSE_SUCCESS)"

section \<open>Hashes\<close>

record 'md hash_context =
  md_ctx :: 'md
  update_error :: int

definition hash_md_type :: "('key, 'md) cose_libs \<Rightarrow> int \<Rightarrow> md_type option" where
  "hash_md_type libs alg =
     (if alg = SHA_256 libs then Some MBEDTLS_MD_SHA256
      else if alg = SHA_384 libs then Some MBEDTLS_MD_SHA384
      else if alg = SHA_512 libs then Some MBEDTLS_MD_SHA512
      else None)"

text \<open>\<open>alloc\<close> is whether there is memory for the context.\<close>

definition t_cose_crypto_hash_start ::
    "('key, 'md) cose_libs \<Rightarrow> bool \<Rightarrow> int \<Rightarrow> t_cose_err_t + 'md hash_context" where
  "t_cose_crypto_hash_start libs alloc alg =
     (case hash_md_type libs alg of
        None \<Rightarrow> Inl T_COSE_ERR_UNSUPPORTED_HASH
      | Some md_type \<Rightarrow>
          if \<not> md_known libs md_type then Inl T_COSE_ERR_UNSUPPORTED_HASH
          else if \<not> alloc then Inl T_COSE_ERR_INSUFFICIENT_MEMORY
          else
            case md_setup libs md_type of
              None \<Rightarrow> Inl T_COSE_ERR_HASH_GENERAL_FAIL
            | Some md \<Rightarrow>
                case md_starts libs md of
                  None \<Rightarrow> Inl T_COSE_ERR_HASH_GENERAL_FAIL
                | Some md \<Rightarrow> Inr \<lparr>md_ctx = md, update_error = 0\<rparr>)"

text \<open>The data is a null pointer, or bytes; nothing more is fed behind an error.\<close>

definition t_cose_crypto_hash_update ::
    "('key, 'md) cose_libs \<Rightarrow> 'md hash_context \<Rightarrow> u8 list option \<Rightarrow> 'md hash_context" where
  "t_cose_crypto_hash_update libs ctx data_to_hash =
     (if update_error ctx = 0 then
        case data_to_hash of
          None \<Rightarrow> ctx
        | Some bs \<Rightarrow>
            case md_update libs (md_ctx ctx) bs of (r, md) \<Rightarrow> ctx\<lparr>md_ctx := md, update_error := r\<rparr>
      else ctx)"

definition t_cose_crypto_hash_finish ::
    "('key, 'md) cose_libs \<Rightarrow> 'md hash_context \<Rightarrow> u8 list \<Rightarrow> t_cose_err_t \<times> u8 list \<times> nat option" where
  "t_cose_crypto_hash_finish libs ctx buffer =
     (if update_error ctx \<noteq> 0 then (T_COSE_ERR_HASH_GENERAL_FAIL, buffer, None)
      else
        let hash_len = md_get_size libs (md_ctx ctx) in
        if length buffer < hash_len then (T_COSE_ERR_HASH_GENERAL_FAIL, buffer, None)
        else
          case md_finish libs (md_ctx ctx) of
            None \<Rightarrow> (T_COSE_ERR_HASH_GENERAL_FAIL, buffer, None)
          | Some bs \<Rightarrow> (T_COSE_SUCCESS, put buffer 0 bs, Some hash_len))"

section \<open>Properties\<close>

text \<open>The signature in the buffer, and what the two calls of a number have to do with each other.\<close>

lemma put_facts:
  assumes "length a = k" and "length b = k" and "k * 2 \<le> length buffer"
  shows "take (k * 2) (put (put buffer 0 a) k b) = a @ b"
  using assms by (simp add: put_def)

lemma sign_cases:
  assumes "t_cose_crypto_sign libs alg key hash buffer = (T_COSE_SUCCESS, buffer', n)"
  obtains keypair r s bs md where "key_convert_and_size libs key = Inr (keypair, mpi_size_P libs keypair)"
    "t_cose_algorithm_is_ecdsa libs alg" "sign_md_type libs alg = Some md"
    "ecdsa_sign_det libs keypair hash md = Some (r, s)"
    "mpi_size_P libs keypair * 2 \<le> length buffer" "mpi_write_binary libs r (mpi_size_P libs keypair) = Some bs"
    "n = Some (mpi_size_P libs keypair * 2)" "buffer' = put (put buffer 0 bs) (mpi_size_P libs keypair) bs"
  using assms
  by (auto simp: t_cose_crypto_sign_def key_convert_and_size_def Let_def
      split: if_split_asm option.split_asm prod.split_asm sum.split_asm)

text \<open>
  What is signed carries the first number of the signature twice, and is checked as such.
\<close>

lemma signature_repeats_r:
  assumes sign: "t_cose_crypto_sign libs alg key hash buffer = (T_COSE_SUCCESS, buffer', Some n)"
    and wr: "\<And>x k bs. mpi_write_binary libs x k = Some bs \<Longrightarrow> length bs = k \<and> mpi_read_binary libs bs = Some x"
  shows "\<exists>keypair r s md. key_ptr key = Some keypair \<and> ecdsa_sign_det libs keypair hash md = Some (r, s) \<and>
    take (n div 2) (take n buffer') = drop (n div 2) (take n buffer') \<and>
    (t_cose_crypto_verify libs alg key hash (take n buffer') = T_COSE_SUCCESS \<longleftrightarrow>
       ecdsa_verify libs keypair hash (r, r))"
  using sign
proof (cases rule: sign_cases)
  case (1 keypair r s bs md)
  let ?k = "mpi_size_P libs keypair"
  have bs: "length bs = ?k" "mpi_read_binary libs bs = Some r" using wr [OF 1(6)] by simp_all
  have n: "n = ?k * 2" using 1(7) by simp
  have sig: "take n buffer' = bs @ bs" unfolding n 1(8) using put_facts [OF bs(1,1) 1(5)] .
  have "key_ptr key = Some keypair"
    using 1(1) by (auto simp: key_convert_and_size_def split: if_split_asm option.split_asm)
  moreover have "t_cose_crypto_verify libs alg key hash (bs @ bs) = T_COSE_SUCCESS \<longleftrightarrow> ecdsa_verify libs keypair hash (r, r)"
    using 1(1,2) bs by (simp add: t_cose_crypto_verify_def)
  ultimately show ?thesis
    unfolding sig using 1(4) bs n by (intro exI [of _ keypair] exI [of _ r] exI [of _ s] exI [of _ md]) simp
qed

text \<open>
  The hash of pieces: as long as no piece is refused, the context is the one of the library fed
  with the pieces that are there, one after the other.
\<close>

definition feed :: "('key, 'md) cose_libs \<Rightarrow> 'md \<Rightarrow> u8 list list \<Rightarrow> 'md" where
  "feed libs md pieces = fold (\<lambda>bs md. snd (md_update libs md bs)) pieces md"

lemma hash_update_feeds:
  assumes "\<And>md bs. fst (md_update libs md bs) = 0"
  shows "fold (\<lambda>d ctx. t_cose_crypto_hash_update libs ctx d) ds \<lparr>md_ctx = md, update_error = 0\<rparr> =
    \<lparr>md_ctx = feed libs md (map the (filter (\<lambda>d. d \<noteq> None) ds)), update_error = 0\<rparr>"
proof (induction ds arbitrary: md)
  case (Cons d ds)
  show ?case
  proof (cases d)
    case None
    then show ?thesis using Cons by (simp add: t_cose_crypto_hash_update_def)
  next
    case (Some bs)
    obtain md' where "md_update libs md bs = (0, md')" using assms [of md bs] by (metis prod.collapse)
    then show ?thesis using Cons [of md'] Some by (simp add: t_cose_crypto_hash_update_def feed_def)
  qed
qed (simp add: feed_def)

text \<open>An error sticks: whatever is fed behind it, the hash fails.\<close>

lemma hash_error_sticks:
  assumes "update_error ctx \<noteq> 0"
  shows "t_cose_crypto_hash_finish libs (fold (\<lambda>d ctx. t_cose_crypto_hash_update libs ctx d) ds ctx) buffer =
    (T_COSE_ERR_HASH_GENERAL_FAIL, buffer, None)"
proof -
  have "fold (\<lambda>d ctx. t_cose_crypto_hash_update libs ctx d) ds ctx = ctx"
    using assms by (induction ds) (simp_all add: t_cose_crypto_hash_update_def)
  then show ?thesis using assms by (simp add: t_cose_crypto_hash_finish_def)
qed

end
