(* ===== verification/Device_Properties.thy ===== *)
theory Device_Properties
  imports Broker_Proofs Agent_Properties Cose_Crypto
begin

text \<open>
  The properties of the device on a PC, where the broker and the agent are one process: what the
  agent runs whatever the broker and the network do, how a run ends, what the HTTP client delivers;
  and the signatures of the COSE adapter.
\<close>

section \<open>A device for the witnesses\<close>

text \<open>The memory of the broker is behind everything the allocator of the sample session gives.\<close>

definition sample_layout :: broker_layout where
  "sample_layout =
     \<lparr>http_res_buf = 0x200010000, task_uri = 0x200000000, task_post_data = 0x200001000,
      tam_uri_string = 0x7100, talist_string = 0x7100\<rparr>"

definition sample_device :: "'n network \<Rightarrow> (list_state, unit, 'n) broker_env" where
  "sample_device nw =
     \<lparr>dev_env = session_env, dev_net = nw, dev_layout = sample_layout, stack_params = replicate 4 no_param\<rparr>"

lemma sample_device_simps [simp]:
  "dev_env (sample_device nw) = session_env" "dev_net (sample_device nw) = nw"
  "dev_layout (sample_device nw) = sample_layout" "stack_params (sample_device nw) = replicate 4 no_param"
  by (simp_all add: sample_device_def)



definition sample_ctx :: "world \<Rightarrow> teep_agent_session \<Rightarrow> 'n \<Rightarrow> 'n broker_ctx" where
  "sample_ctx w s st = \<lparr>dev_world = w, dev_session = s, net_state = st\<rparr>"


section \<open>The broker and the agent\<close>



text \<open>
  C35. A message the agent cannot read ends the run: the agent goes to the state in which it would
  post an error, but its result makes the broker give up, so that the error is never posted; and
  the block of the message is left on the heap.
\<close>

theorem bad_message_ends_run:
  assumes "length (stack_params env) = 4" and "on_going_task (dev_session ctx)"
    and "command (task_buffer (dev_session ctx)) = BROKER_HTTP_POST"
    and "state (dev_session ctx) \<noteq> AGENT_POSTING_ERROR"
    and "string_at (w_memory (dev_world ctx)) (task_uri (dev_layout env)) = Some url"
    and "net_post (dev_net env) (net_state ctx) url
      (peek (w_memory (dev_world ctx)) (task_post_data (dev_layout env)) (unat (task_post_data_len task)))
      http_res_buf_size = (Some (Some (r, bytes)), st)"
    and "0 \<le> r" and "bytes \<noteq> []" and "length bytes < 2 ^ 32"
    and "env_malloc (dev_env env) (w_blocks (dev_world ctx)) (of_nat (length bytes)) \<noteq> 0"
    and bad: "\<And>m p. peek m p (length bytes) = bytes \<Longrightarrow>
      parse_teep_message (env_qcbor (dev_env env) m) \<lparr>ub_ptr = p, ub_len = of_nat (length bytes)\<rparr> = None"
  shows "\<exists>n ctx'. broker_http_post env task ctx = Some (Some (n, ctx')) \<and> n < 0 \<and>
    state (dev_session ctx') = AGENT_POSTING_ERROR \<and> \<not> on_going_task (dev_session ctx') \<and>
    length (w_blocks (dev_world ctx')) = length (w_blocks (dev_world ctx)) + 1 \<and>
    (\<forall>ctx0. agent_query_next_broker_task env ctx0 = Some (Some (0, task, ctx)) \<longrightarrow>
       task_command task = command_value BROKER_HTTP_POST \<longrightarrow> loop_tasks env ctx0 = Some (Some (-1, ctx')))"
proof -
  let ?q = "http_res_buf (dev_layout env)" and ?n = "of_nat (length bytes) :: u64"
  let ?w = "(dev_world ctx)\<lparr>w_memory := copy_bytes (w_memory (dev_world ctx)) ?q bytes\<rparr>"
  let ?ctx = "ctx\<lparr>dev_world := ?w, net_state := st\<rparr>"
  have n: "unat ?n = length bytes" "?n \<noteq> 0" using assms(8,9) by (simp_all add: word_unat_eq_iff)
  have at: "peek (w_memory (dev_world ?ctx)) ?q (unat ?n) = bytes"
    using peek_copy_bytes [of bytes "w_memory (dev_world ctx)" ?q] assms(9) n by simp
  obtain ctx' where d: "agent_broker_task_done env ?q ?n ?ctx = Some (Some (sint TEE_ERROR_BAD_FORMAT, ctx'))"
    "w_blocks (dev_world ctx') = (env_malloc (dev_env env) (w_blocks (dev_world ctx)) ?n, ?n) # w_blocks (dev_world ctx)"
    "dev_session ctx' = (dev_session ctx)\<lparr>state := AGENT_POSTING_ERROR, on_going_task := False\<rparr>"
    using bad_message_done [OF assms(1), of ?n ?ctx "env_malloc (dev_env env) (w_blocks (dev_world ctx)) ?n" ?q]
      assms(2-4,9,10) n bad at by auto
  have p: "broker_http_post env task ctx = Some (Some (sint TEE_ERROR_BAD_FORMAT, ctx'))"
    using d(1) assms(5-7) by (simp add: broker_http_post_def take_answer_def Let_def)
  moreover have "sint TEE_ERROR_BAD_FORMAT < 0" by simp
  moreover have "loop_tasks env ctx0 = Some (Some (-1, ctx'))"
    if "agent_query_next_broker_task env ctx0 = Some (Some (0, task, ctx))" "task_command task = command_value BROKER_HTTP_POST"
    for ctx0
    using that p by (subst loop_tasks.simps) (simp add: loop_round_def)
  ultimately show ?thesis using d(2,3) by (intro exI [of _ "sint TEE_ERROR_BAD_FORMAT"] exI [of _ ctx']) simp
qed

text \<open>A network that answers every request with the bytes that are its state.\<close>

definition echo_network :: "u8 list network" where
  "echo_network = \<lparr>net_post = (\<lambda>st url data n. (Some (Some (0, st)), st)), net_get = (\<lambda>st url n. (Some (Some (0, st)), st))\<rparr>"

definition deaf_device :: "(list_state, unit, u8 list) broker_env" where
  "deaf_device = (sample_device echo_network)\<lparr>dev_env := session_env\<lparr>env_qcbor := \<lambda>_. list_decoder (\<lambda>_. [])\<rparr>\<rparr>"

definition posting_ctx :: "u8 list \<Rightarrow> u8 list broker_ctx" where
  "posting_ctx st = sample_ctx (run_world (\<lambda>_. 0) [(0x100000, 0x2000)]) first_session st"

lemma posting_simps [simp]:
  "dev_world (posting_ctx st) = run_world (\<lambda>_. 0) [(0x100000, 0x2000)]" "dev_session (posting_ctx st) = first_session"
  "net_state (posting_ctx st) = st" "on_going_task first_session"
  "command (task_buffer first_session) = BROKER_HTTP_POST" "state first_session = AGENT_POSTING_INITIAL_REQUEST"
  "uri (task_buffer first_session) \<noteq> []"
  by (simp_all add: posting_ctx_def sample_ctx_def first_session_def opened_session_def raw_session_def)

lemma deaf_device_simps [simp]:
  "dev_env deaf_device = session_env\<lparr>env_qcbor := \<lambda>_. list_decoder (\<lambda>_. [])\<rparr>" "dev_net deaf_device = echo_network"
  "dev_layout deaf_device = sample_layout" "stack_params deaf_device = replicate 4 no_param"
  by (simp_all add: deaf_device_def)

lemma string_at_zero [simp]: "string_at (\<lambda>_. 0) p = Some []"
  by (simp add: string_at_def strlen.simps [of "\<lambda>_. 0"])

lemma echo_simps [simp]:
  "net_post echo_network st url data n = (Some (Some (0, st)), st)"
  "net_get echo_network st url n = (Some (Some (0, st)), st)"
  by (simp_all add: echo_network_def)

theorem bad_message_ends_run_witness:
  "\<exists>n ctx'. broker_http_post deaf_device \<lparr>task_command = 0, task_post_data_len = 0\<rparr> (posting_ctx [1, 2]) =
     Some (Some (n, ctx')) \<and> n < 0 \<and> state (dev_session ctx') = AGENT_POSTING_ERROR"
proof -
  have "parse_teep_message (list_decoder (\<lambda>_. [])) b = None" for b
    by (simp add: parse_teep_message_def no_item_def)
  then show ?thesis
    using bad_message_ends_run [of deaf_device "posting_ctx [1, 2]" "[]" "\<lparr>task_command = 0, task_post_data_len = 0\<rparr>" 0
        "[1, 2]" "[1, 2]"]
    by (auto simp: bump_malloc_def)
qed

text \<open>
  C30. An empty answer to a post ends the run well, in whatever state the agent is: the agent goes to
  its last state, and the next round of the broker returns with success - unless there is no memory
  for the two blocks of its query, which the client API does not check.
\<close>

theorem empty_answer_ends_run:
  assumes "length (stack_params env) = 4" and "malloc_ok (dev_env env)" and "on_going_task (dev_session ctx)"
    and "command (task_buffer (dev_session ctx)) = BROKER_HTTP_POST" and "uri (task_buffer (dev_session ctx)) \<noteq> []"
    and "string_at (w_memory (dev_world ctx)) (task_uri (dev_layout env)) = Some url"
    and "net_post (dev_net env) (net_state ctx) url
      (peek (w_memory (dev_world ctx)) (task_post_data (dev_layout env)) (unat (task_post_data_len task)))
      http_res_buf_size = (Some (Some (r, [])), st)"
    and "0 \<le> r"
  shows "\<exists>ctx' x. broker_http_post env task ctx = Some (Some (0, ctx')) \<and> state (dev_session ctx') = AGENT_FINISH \<and>
    loop_tasks env ctx' = Some x \<and> (x = None \<longrightarrow> no_room (dev_env env) (dev_world ctx')) \<and>
    (\<forall>r ctx''. x = Some (r, ctx'') \<longrightarrow> r = 0)"
proof -
  let ?ctx = "ctx\<lparr>net_state := st\<rparr>"
  have same: "ctx\<lparr>dev_world := dev_world ctx, net_state := st\<rparr> = ?ctx" by simp
  obtain ctx' where d: "agent_broker_task_done env (http_res_buf (dev_layout env)) 0 ?ctx = Some (Some (0, ctx'))"
    "dev_session ctx' = (dev_session ctx)\<lparr>state := AGENT_FINISH, on_going_task := False\<rparr>"
    using empty_message_done [OF assms(1), of ?ctx] assms(3,4) by auto
  have "broker_http_post env task ctx = Some (Some (0, ctx'))"
    using d(1) assms(6-8) by (simp add: broker_http_post_def take_answer_def Let_def)
  moreover obtain x where "loop_tasks env ctx' = Some x" "x = None \<longrightarrow> no_room (dev_env env) (dev_world ctx')"
    "\<forall>r ctx''. x = Some (r, ctx'') \<longrightarrow> r = 0"
    using finish_loop [OF assms(1), of ctx'] d(2) assms(2,5) by auto
  ultimately show ?thesis using d(2) by (intro exI [of _ ctx'] exI [of _ x]) simp
qed

theorem empty_answer_ends_run_witness:
  "\<exists>ctx'. broker_http_post (sample_device echo_network) \<lparr>task_command = 0, task_post_data_len = 0\<rparr> (posting_ctx []) =
     Some (Some (0, ctx')) \<and> state (dev_session ctx') = AGENT_FINISH"
  using empty_answer_ends_run [of "sample_device echo_network" "posting_ctx []" "[]"
      "\<lparr>task_command = 0, task_post_data_len = 0\<rparr>" 0 "[]"] session_malloc
  by auto

section \<open>The HTTP client\<close>


text \<open>A server that sends two pieces; the service fails in between when it is told to.\<close>

definition two_pieces :: "int \<Rightarrow> lws" where
  "two_pieces e =
     \<lparr>lws_create_context = True,
      lws_parse_uri = (\<lambda>_. Some (ascii ''http'', ascii ''tam'', 80, ascii ''api'')), alloc_async = True,
      lws_client_connect = (\<lambda>_ _ _ _ _. (True, [])),
      lws_rounds =
        [([(ESTABLISHED_CLIENT_HTTP 200, 0), (RECEIVE_CLIENT_HTTP_READ [1, 2], 0)], e),
         ([(RECEIVE_CLIENT_HTTP_READ [3], 0), (COMPLETED_CLIENT_HTTP, 0)], 0)]\<rparr>"

lemma two_pieces_connect: "connects ''POST'' (two_pieces e) (ascii ''http://tam/api'') []"
proof -
  have "0 \<notin> set (ascii ''http://tam/api'')" "0 \<notin> set (ascii ''api'')" by (simp_all add: ascii_def)
  then show ?thesis by (simp add: connects_def two_pieces_def)
qed


text \<open>
  An error of the service while an answer is coming in counts as success: the loop stops with
  the request still going on, which is not negative, and what has arrived so far is taken for the
  whole answer.
\<close>

theorem service_error_is_success:
  assumes "connects ''POST'' lws url []" and "lws_rounds lws = before @ (events, e) # rest"
    and "\<forall>k < length before. snd (before ! k) = 0 \<and>
      result (deliver callback_teep (concat (map fst (take (Suc k) before)))
        ((new_async data n)\<lparr>result := TR_ONGOING\<rparr>)) = TR_ONGOING"
    and "e \<noteq> 0"
    and "result (deliver callback_teep (concat (map fst before) @ events) ((new_async data n)\<lparr>result := TR_ONGOING\<rparr>)) =
      TR_ONGOING"
    and "length (delivered (concat (map fst before) @ events)) \<le> n"
  shows "http_post lws url data n = Some (Some (0, delivered (concat (map fst before) @ events)))"
proof -
  let ?laoa = "(new_async data n)\<lparr>result := TR_ONGOING\<rparr>"
  let ?after = "deliver callback_teep (concat (map fst before) @ events) ?laoa"
  have "service_loop callback_teep (lws_rounds lws) ?laoa = Some ?after"
    unfolding assms(2) service_loop_prefix [OF assms(3)] using assms(4) by (simp add: Let_def deliver_def)
  moreover have "io_out (io ?after) = delivered (concat (map fst before) @ events)"
    using deliver_whole [OF callback_appends(1), of ?laoa] assms(6) by simp
  ultimately show ?thesis
    unfolding http_post_def http_request_connected [OF assms(1)] using assms(5) by (simp add: deliver_def)
qed

theorem service_error_is_success_witness:
  "http_post (two_pieces (-1)) (ascii ''http://tam/api'') [] 16 = Some (Some (0, [1, 2]))"
  using service_error_is_success [OF two_pieces_connect [of "-1"], of "[]"
      "[(ESTABLISHED_CLIENT_HTTP 200, 0), (RECEIVE_CLIENT_HTTP_READ [1, 2], 0)]" "-1" _ "[]" 16]
  by (simp add: two_pieces_def deliver_def delivered_def body_of_def receive_body_def new_async_def)

section \<open>Signatures\<close>

text \<open>
  C40. A signature that is made carries its first number twice, the second is lost: what is made is
  accepted only when the first number does for both.
\<close>

theorem signing_repeats_first_number:
  assumes "t_cose_crypto_sign libs alg key hash buffer = (T_COSE_SUCCESS, buffer', Some n)"
    and "\<And>x k bs. mpi_write_binary libs x k = Some bs \<Longrightarrow> length bs = k \<and> mpi_read_binary libs bs = Some x"
  shows "\<exists>keypair r s md. key_ptr key = Some keypair \<and> ecdsa_sign_det libs keypair hash md = Some (r, s) \<and>
    take (n div 2) (take n buffer') = drop (n div 2) (take n buffer') \<and>
    (t_cose_crypto_verify libs alg key hash (take n buffer') = T_COSE_SUCCESS \<longleftrightarrow>
       ecdsa_verify libs keypair hash (r, r))"
  by (rule signature_repeats_r [OF assms])

text \<open>Numbers of one byte, and a scheme whose signatures are a number and the one behind it.\<close>

definition small_libs :: "(nat, unit) cose_libs" where
  "small_libs =
     \<lparr>ES256 = -7, ES384 = -35, ES512 = -36, SHA_256 = -16, SHA_384 = -43, SHA_512 = -44,
      t_cose_algorithm_is_ecdsa = (\<lambda>a. a = -7), mpi_size_P = (\<lambda>_. 1),
      ecdsa_sign_det = (\<lambda>k h _. Some (length h, length h + 1)),
      mpi_write_binary = (\<lambda>x k. if k = 1 \<and> x < 256 then Some [of_nat x] else None),
      mpi_read_binary = (\<lambda>bs. case bs of [b] \<Rightarrow> Some (unat b) | _ \<Rightarrow> None),
      ecdsa_verify = (\<lambda>k h (r, s). r = length h \<and> s = length h + 1),
      md_known = (\<lambda>_. True), md_setup = (\<lambda>_. Some ()), md_starts = Some, md_update = (\<lambda>_ _. (0, ())),
      md_get_size = (\<lambda>_. 0), md_finish = (\<lambda>_. Some [])\<rparr>"

theorem signing_repeats_first_number_witness:
  "t_cose_crypto_verify small_libs (-7) \<lparr>lib_unidentified = True, key_ptr = Some 5\<rparr> [9, 9, 9] [3, 3] \<noteq> T_COSE_SUCCESS"
proof -
  let ?key = "\<lparr>lib_unidentified = True, key_ptr = Some (5 :: nat)\<rparr>"
  have "t_cose_crypto_sign small_libs (-7) ?key [9, 9, 9] [0, 0] = (T_COSE_SUCCESS, [3, 3], Some 2)"
    by (simp add: t_cose_crypto_sign_def key_convert_and_size_def small_libs_def sign_md_type_def put_def)
  moreover have "length bs = k \<and> mpi_read_binary small_libs bs = Some x"
    if "mpi_write_binary small_libs x k = Some bs" for x k bs
    using that by (auto simp: small_libs_def unat_of_nat take_bit_nat_eq_self split: if_split_asm)
  ultimately obtain keypair r s md where
    "key_ptr ?key = Some keypair" "ecdsa_sign_det small_libs keypair [9, 9, 9] md = Some (r, s)"
    "t_cose_crypto_verify small_libs (-7) ?key [9, 9, 9] [3, 3] = T_COSE_SUCCESS \<longleftrightarrow>
       ecdsa_verify small_libs keypair [9, 9, 9] (r, r)"
    using signing_repeats_first_number [of small_libs "-7" ?key "[9, 9, 9]" "[0, 0]" "[3, 3]" 2]
    by (auto simp: numeral_2_eq_2)
  then show ?thesis by (simp add: small_libs_def)
qed

end
