(* ===== verification/Teec_Keystone.thy ===== *)
theory Teec_Keystone
  imports Teec_Pc
begin

text \<open>
  The client API on Keystone, \<^verbatim>\<open>teep-broker-app/teec-keystone.cpp\<close>, and the other end of it, the
  loop \<^verbatim>\<open>eapp_entry\<close> of \<^verbatim>\<open>teep-agent-ta/teep-agent-ta.c\<close>. Broker and agent have memories of their own
  and run as two threads: a command goes through a queue of one place, its buffers in pieces through
  calls out of the enclave. \<open>None\<close> stands for undefined behaviour.

  The types of a command and of a piece are generated from an interface file outside of the
  repository. What the code relies on is an argument: the bytes a piece can hold, and what
  storing a size in a command leaves of it.
\<close>

unbundle bit_operations_syntax

section \<open>The types of the interface\<close>

record edge_types =
  edge_buf :: u64
  edge_size :: "u64 \<Rightarrow> u64"

record command_slot =
  slot_a :: u32
  slot_b :: u32
  slot_size :: u64

record invoke_command =
  cmd_number :: u32
  cmd_types :: u32
  cmd_slots :: "command_slot list"

abbreviation (input) TEEP_AGENT_TA_EXIT :: u32 where "TEEP_AGENT_TA_EXIT \<equiv> 1000"

section \<open>The command queue\<close>

text \<open>
  \<open>queue_operation\<close>: whether the pointer to the operation is set; what it points to is the operation
  of the caller, \<open>host_operation\<close>.
\<close>

record command_queue =
  queue_command :: invoke_command
  queue_operation :: bool
  queue_result :: u32
  queue_invoking :: bool

record keystone_host =
  host_memory :: memory
  host_operation :: TEEC_Operation
  host_queue :: command_queue

definition command_slot_of :: "edge_types \<Rightarrow> u32 \<Rightarrow> TEEC_Parameter \<Rightarrow> command_slot" where
  "command_slot_of edge t q =
     (let s = \<lparr>slot_a = 0, slot_b = 0, slot_size = 0\<rparr> in
      if t = TEEC_VALUE_INPUT \<or> t = TEEC_VALUE_INOUT then s\<lparr>slot_a := op_a q, slot_b := op_b q\<rparr>
      else if t = TEEC_MEMREF_TEMP_INPUT \<or> t = TEEC_MEMREF_TEMP_OUTPUT \<or> t = TEEC_MEMREF_TEMP_INOUT
      then s\<lparr>slot_size := edge_size edge (tmpref_size q)\<rparr>
      else s)"

text \<open>The operation is the one given, or there is none.\<close>

definition put_invoke_command ::
    "edge_types \<Rightarrow> u32 \<Rightarrow> TEEC_Operation option \<Rightarrow> keystone_host \<Rightarrow> keystone_host" where
  "put_invoke_command edge number operation h =
     (let types = (case operation of None \<Rightarrow> 0 | Some op \<Rightarrow> paramTypes op);
          slots = map (\<lambda>i. command_slot_of edge (TEEC_PARAM_TYPE_GET types i)
                             (case operation of None \<Rightarrow> op_params zero_operation ! i | Some op \<Rightarrow> op_params op ! i))
                    [0 ..< 4];
          c = \<lparr>cmd_number = number, cmd_types = types, cmd_slots = slots\<rparr> in
      h\<lparr>host_operation := (case operation of None \<Rightarrow> host_operation h | Some op \<Rightarrow> op),
        host_queue := (host_queue h)\<lparr>queue_command := c, queue_operation := operation \<noteq> None, queue_invoking := True\<rparr>\<rparr>)"

text \<open>One piece of a buffer, from \<open>offset\<close> on, and one piece back.\<close>

definition read_invoke_param :: "edge_types \<Rightarrow> keystone_host \<Rightarrow> nat \<Rightarrow> u32 \<Rightarrow> u8 list option" where
  "read_invoke_param edge h i offset =
     (if \<not> queue_operation (host_queue h) then None
      else
        let ref = op_params (host_operation h) ! i in
        if tmpref_size ref < ucast offset then Some []
        else
          let size = (ucast (min (tmpref_size ref - ucast offset) (edge_buf edge)) :: u32) in
          Some (peek (host_memory h) (tmpref_buffer ref + ucast offset) (unat size)))"

definition write_invoke_param :: "nat \<Rightarrow> u32 \<Rightarrow> u8 list \<Rightarrow> keystone_host \<Rightarrow> keystone_host option" where
  "write_invoke_param i offset buf h =
     (if \<not> queue_operation (host_queue h) then None
      else
        let ref = op_params (host_operation h) ! i in
        if tmpref_size ref < ucast offset then Some h
        else
          let n = (ucast (min (tmpref_size ref - ucast offset) (of_nat (length buf))) :: u32) in
          Some (h\<lparr>host_memory := copy_bytes (host_memory h) (tmpref_buffer ref + ucast offset) (take (unat n) buf)\<rparr>))"

definition result_param :: "u32 \<Rightarrow> command_slot \<Rightarrow> TEEC_Parameter \<Rightarrow> TEEC_Parameter" where
  "result_param t s q =
     (if t = TEEC_VALUE_OUTPUT \<or> t = TEEC_VALUE_INOUT then q\<lparr>op_a := slot_a s, op_b := slot_b s\<rparr>
      else if t = TEEC_MEMREF_TEMP_OUTPUT \<or> t = TEEC_MEMREF_TEMP_INOUT then q\<lparr>tmpref_size := slot_size s\<rparr>
      else q)"

text \<open>The types under which the operation is written.\<close>

definition result_type :: "u32 \<Rightarrow> bool" where
  "result_type t \<longleftrightarrow> t \<in> {TEEC_VALUE_OUTPUT, TEEC_VALUE_INOUT, TEEC_MEMREF_TEMP_OUTPUT, TEEC_MEMREF_TEMP_INOUT}"

definition put_invoke_command_result :: "invoke_command \<Rightarrow> u32 \<Rightarrow> keystone_host \<Rightarrow> keystone_host option" where
  "put_invoke_command_result cmd r h =
     (let type = TEEC_PARAM_TYPE_GET (cmd_types cmd) in
      if \<not> queue_operation (host_queue h) \<and> (\<exists>i \<in> set [0 ..< 4]. result_type (type i)) then None
      else
        let op = host_operation h;
            op = (if queue_operation (host_queue h)
                  then op\<lparr>op_params := map (\<lambda>i. result_param (type i) (cmd_slots cmd ! i) (op_params op ! i)) [0 ..< 4]\<rparr>
                  else op) in
        Some (h\<lparr>host_operation := op,
                host_queue := (host_queue h)\<lparr>queue_result := r, queue_operation := False, queue_invoking := False\<rparr>\<rparr>))"

section \<open>The parameters inside of the enclave\<close>

text \<open>
  The loop that brings a buffer in: what a piece holds is up to the host. A piece that does not fit
  behind the ones before, or goes to a null pointer, is undefined behaviour. The outer \<open>None\<close> is a
  loop that does not end.
\<close>

partial_function (option) fetch_loop ::
    "(u32 \<Rightarrow> u8 list option) \<Rightarrow> ptr \<Rightarrow> u32 \<Rightarrow> u32 \<Rightarrow> memory \<Rightarrow> memory option option" where
  "fetch_loop read buffer sz offset m =
     (if offset < sz then
        (case read offset of
           None \<Rightarrow> Some None
         | Some buf \<Rightarrow>
             if unat sz < unat offset + length buf \<or> buffer = 0 \<and> buf \<noteq> [] then Some None
             else
               fetch_loop read buffer sz (offset + of_nat (length buf))
                 (copy_bytes m (buffer + ucast offset) buf))
      else Some (Some m))"

declare fetch_loop.simps [code]

definition fetch_param ::
    "('d, 'pk) agent_env \<Rightarrow> (u32 \<Rightarrow> u8 list option) \<Rightarrow> u32 \<Rightarrow> command_slot \<Rightarrow> TEE_Param \<Rightarrow> world \<Rightarrow>
     (TEE_Param \<times> world) option option" where
  "fetch_param env read t s p w =
     (let p = p\<lparr>value_a := 0, value_b := 0, memref_buffer := 0\<rparr> in
      if t = TEE_PARAM_TYPE_VALUE_INPUT \<or> t = TEE_PARAM_TYPE_VALUE_INOUT then
        Some (Some (p\<lparr>value_a := slot_a s, value_b := slot_b s\<rparr>, w))
      else if t = TEE_PARAM_TYPE_MEMREF_INPUT \<or> t = TEE_PARAM_TYPE_MEMREF_INOUT then
        (let sz = (ucast (slot_size s) :: u32);
             (buffer, w) = malloc_block env w (ucast sz) in
         map_option
           (map_option (\<lambda>m. (p\<lparr>memref_size := sz, memref_buffer := buffer\<rparr>, w\<lparr>w_memory := m\<rparr>)))
           (fetch_loop read buffer sz 0 (w_memory w)))
      else if t = TEE_PARAM_TYPE_MEMREF_OUTPUT then
        (let sz = (ucast (slot_size s) :: u32);
             (buffer, w) = malloc_block env w (ucast sz) in
         Some (if ucast sz < slot_size s \<or> buffer = 0 \<and> slot_size s \<noteq> 0 then None
               else
                 Some (p\<lparr>memref_size := sz, memref_buffer := buffer\<rparr>,
                   w\<lparr>w_memory := copy_bytes (w_memory w) buffer (replicate (unat (slot_size s)) 0)\<rparr>)))
      else Some (Some (p, w)))"

text \<open>The loop over the parameters; \<open>read i\<close> is the call out of the enclave for parameter \<open>i\<close>.\<close>

fun fetch_params ::
    "('d, 'pk) agent_env \<Rightarrow> (nat \<Rightarrow> u32 \<Rightarrow> u8 list option) \<Rightarrow> u32 \<Rightarrow> nat \<Rightarrow> command_slot list \<Rightarrow> TEE_Param list \<Rightarrow>
     world \<Rightarrow> (TEE_Param list \<times> world) option option" where
  "fetch_params env read types i (s # ss) (p # ps) w =
     (case fetch_param env (read i) (TEE_PARAM_TYPE_GET types i) s p w of
        None \<Rightarrow> None
      | Some None \<Rightarrow> Some None
      | Some (Some (p, w)) \<Rightarrow>
          map_option (map_option (apfst ((#) p))) (fetch_params env read types (i + 1) ss ps w))"
| "fetch_params env read types i _ _ w = Some (Some ([], w))"

text \<open>A step of a loop over a range, at the width of the range.\<close>

lemma offset_step:
  fixes offset sz n :: u32
  assumes "offset < sz" and "n \<le> sz - offset"
  shows "unat (offset + n) = unat offset + unat n" and "unat offset + unat n \<le> unat sz"
proof -
  have "unat (sz - offset) = unat sz - unat offset" using assms(1) by (intro unat_sub) simp
  then show le: "unat offset + unat n \<le> unat sz" using assms by (simp add: word_le_nat_alt word_less_nat_alt)
  then have "unat offset + unat n < 2 ^ LENGTH(32)" by (rule le_less_trans) (rule unsigned_less)
  then show "unat (offset + n) = unat offset + unat n" by (simp add: unat_word_ariths)
qed

definition piece :: "u32 \<Rightarrow> u32" where
  "piece left = (if 256 \<le> left then 256 else left)"

lemma piece_le: "piece left \<le> left" and piece_pos: "0 < left \<Longrightarrow> 0 < piece left"
  by (auto simp: piece_def)

lemma return_loop_decreases:
  assumes "offset < sz"
  shows "unat sz - unat (offset + piece (sz - offset)) < unat sz - unat offset"
proof -
  have "0 < sz - offset" using assms by (simp add: word_gt_0)
  then have "0 < unat (piece (sz - offset))" using piece_pos by (simp add: word_less_nat_alt)
  then show ?thesis
    using offset_step [OF assms piece_le] assms by (simp add: word_less_nat_alt)
qed

text \<open>The loop that brings a buffer out, in pieces of at most 256 bytes.\<close>

function return_loop ::
    "(u32 \<Rightarrow> u8 list \<Rightarrow> 'h \<Rightarrow> 'h option) \<Rightarrow> memory \<Rightarrow> ptr \<Rightarrow> u32 \<Rightarrow> u32 \<Rightarrow> 'h \<Rightarrow> 'h option" where
  "return_loop wr m buffer sz offset h =
     (if offset < sz then
        let n = piece (sz - offset) in
        case wr offset (peek m (buffer + ucast offset) (unat n)) h of
          None \<Rightarrow> None
        | Some h \<Rightarrow> return_loop wr m buffer sz (offset + n) h
      else Some h)"
  by pat_completeness auto

termination
  by (relation "measure (\<lambda>(wr, m, buffer, sz, offset, h). unat sz - unat offset)")
    (auto simp: return_loop_decreases)

definition return_param ::
    "edge_types \<Rightarrow> (u32 \<Rightarrow> u8 list \<Rightarrow> 'h \<Rightarrow> 'h option) \<Rightarrow> u32 \<Rightarrow> TEE_Param \<Rightarrow> command_slot \<Rightarrow> world \<Rightarrow> 'h \<Rightarrow>
     (command_slot \<times> world \<times> 'h) option" where
  "return_param edge wr t p s w h =
     (let s = s\<lparr>slot_a := 0, slot_b := 0\<rparr> in
      if t = TEE_PARAM_TYPE_VALUE_OUTPUT \<or> t = TEE_PARAM_TYPE_VALUE_INOUT then
        Some (s\<lparr>slot_a := value_a p, slot_b := value_b p\<rparr>, w, h)
      else if t = TEE_PARAM_TYPE_MEMREF_OUTPUT \<or> t = TEE_PARAM_TYPE_MEMREF_INOUT then
        (let s = s\<lparr>slot_size := edge_size edge (ucast (memref_size p))\<rparr>;
             sz = (ucast (slot_size s) :: u32) in
         case return_loop wr (w_memory w) (memref_buffer p) sz 0 h of
           None \<Rightarrow> None
         | Some h \<Rightarrow> map_option (\<lambda>w. (s, w, h)) (free_block w (memref_buffer p)))
      else if t = TEE_PARAM_TYPE_MEMREF_INPUT then
        map_option (\<lambda>w. (s, w, h)) (free_block w (memref_buffer p))
      else Some (s, w, h))"

fun return_params ::
    "edge_types \<Rightarrow> (nat \<Rightarrow> u32 \<Rightarrow> u8 list \<Rightarrow> 'h \<Rightarrow> 'h option) \<Rightarrow> u32 \<Rightarrow> nat \<Rightarrow> TEE_Param list \<Rightarrow> command_slot list \<Rightarrow>
     world \<Rightarrow> 'h \<Rightarrow> (command_slot list \<times> world \<times> 'h) option" where
  "return_params edge wr types i (p # ps) (s # ss) w h =
     (case return_param edge (wr i) (TEE_PARAM_TYPE_GET types i) p s w h of
        None \<Rightarrow> None
      | Some (s, w, h) \<Rightarrow> map_option (apfst ((#) s)) (return_params edge wr types (i + 1) ps ss w h))"
| "return_params edge wr types i _ _ w h = Some ([], w, h)"

section \<open>One round of the loop of the enclave\<close>

text \<open>
  A command from the parameters coming in to what goes back to the host: its slots and the result.
  \<open>raw\<close> is what is on the stack where the parameters are going to be; a command without a session is
  undefined behaviour, as the result of opening it has not been looked at.
\<close>

definition eapp_command ::
    "('d, 'pk) agent_env \<Rightarrow> edge_types \<Rightarrow> (nat \<Rightarrow> u32 \<Rightarrow> u8 list option) \<Rightarrow> (nat \<Rightarrow> u32 \<Rightarrow> u8 list \<Rightarrow> 'h \<Rightarrow> 'h option) \<Rightarrow>
     TEE_Param list \<Rightarrow> invoke_command \<Rightarrow> 'h \<Rightarrow> world \<Rightarrow> teep_agent_session option \<Rightarrow>
     (invoke_command \<times> TEE_Result \<times> 'h \<times> world \<times> teep_agent_session) option option" where
  "eapp_command env edge read wr raw c h w session_ctx =
     (case fetch_params env read (cmd_types c) 0 (cmd_slots c) raw w of
        None \<Rightarrow> None
      | Some None \<Rightarrow> Some None
      | Some (Some (params, w)) \<Rightarrow>
          case session_ctx of
            None \<Rightarrow> Some None
          | Some s \<Rightarrow>
              case TA_InvokeCommandEntryPoint env w s (cmd_number c) (cmd_types c) params of
                None \<Rightarrow> None
              | Some None \<Rightarrow> Some None
              | Some (Some (r, w, s, params)) \<Rightarrow>
                  Some (map_option (\<lambda>(slots, w, h). (c\<lparr>cmd_slots := slots\<rparr>, r, h, w, s))
                    (return_params edge wr (cmd_types c) 0 params (cmd_slots c) w h)))"

text \<open>The round as it is with the queue of the host at the other end.\<close>

definition serve_command ::
    "('d, 'pk) agent_env \<Rightarrow> edge_types \<Rightarrow> TEE_Param list \<Rightarrow> invoke_command \<Rightarrow> keystone_host \<Rightarrow> world \<Rightarrow>
     teep_agent_session option \<Rightarrow> (keystone_host \<times> world \<times> teep_agent_session) option option" where
  "serve_command env edge raw c h w session_ctx =
     map_option
       (\<lambda>x. case x of
          None \<Rightarrow> None
        | Some (c, r, h, w, s) \<Rightarrow> map_option (\<lambda>h. (h, w, s)) (put_invoke_command_result c r h))
       (eapp_command env edge (read_invoke_param edge h) write_invoke_param raw c h w session_ctx)"

section \<open>Host and enclave as threads\<close>

text \<open>
  Where the two threads are. The host is outside of the API, or waits in \<^verbatim>\<open>TEEC_InvokeCommand\<close> for a
  result, or closes the session and waits for the enclave to end. The enclave has not started, waits
  for a command, works on one, or has left the loop.
\<close>

datatype host_pc = Host_ready | Host_waiting | Host_closing | Host_closed

datatype enclave_pc = Enclave_start | Enclave_pulling | Enclave_busy invoke_command | Enclave_closing | Enclave_gone

record keystone_state =
  ks_host_pc :: host_pc
  ks_host :: keystone_host
  ks_enclave_pc :: enclave_pc
  ks_world :: world
  ks_session :: "teep_agent_session option"

text \<open>A call takes the number of the command, the operation, and the memory of the host at the time.\<close>

datatype keystone_event =
    Call u32 TEEC_Operation memory
  | Return u32 TEEC_Operation memory
  | Start | Pull | Serve | Close | Exit | Leave | Join

text \<open>The state when \<^verbatim>\<open>TEEC_OpenSession\<close> has made the thread of the enclave.\<close>

definition keystone_init :: "keystone_host \<Rightarrow> world \<Rightarrow> keystone_state" where
  "keystone_init h w =
     \<lparr>ks_host_pc = Host_ready, ks_host = h\<lparr>host_queue := (host_queue h)\<lparr>queue_invoking := False\<rparr>\<rparr>,
      ks_enclave_pc = Enclave_start, ks_world = w, ks_session = None\<rparr>"

text \<open>\<open>starts\<close>: whether the enclave could be made. What the agent makes of its session is not waited for.\<close>

definition keystone_OpenSession :: "bool \<Rightarrow> keystone_host \<Rightarrow> world \<Rightarrow> TEEC_Result \<times> keystone_state option" where
  "keystone_OpenSession starts h w =
     (if \<not> starts then (0xFFFF0000, None) else (TEEC_SUCCESS, Some (keystone_init h w)))"

text \<open>
  One step of one of the threads: a section under the lock of the queue, or what the enclave does
  between two of them.
\<close>

inductive keystone_step ::
    "('d, 'pk) agent_env \<Rightarrow> edge_types \<Rightarrow> teep_agent_session \<Rightarrow> TEE_Param list \<Rightarrow>
     keystone_state \<Rightarrow> keystone_event \<Rightarrow> keystone_state \<Rightarrow> bool"
  for env edge raw_session raw where
  step_start:
    "ks_enclave_pc st = Enclave_start \<Longrightarrow>
     TA_OpenSessionEntryPoint env (ks_world st) raw_session 0 = (r, session_ctx, w) \<Longrightarrow>
     keystone_step env edge raw_session raw st Start
       (st\<lparr>ks_enclave_pc := Enclave_pulling, ks_world := w, ks_session := session_ctx\<rparr>)"
| step_call:
    "ks_host_pc st = Host_ready \<Longrightarrow> number \<noteq> TEEP_AGENT_TA_EXIT \<Longrightarrow>
     keystone_step env edge raw_session raw st (Call number operation m)
       (st\<lparr>ks_host_pc := Host_waiting,
           ks_host := put_invoke_command edge number (Some operation) ((ks_host st)\<lparr>host_memory := m\<rparr>)\<rparr>)"
| step_pull:
    "ks_enclave_pc st = Enclave_pulling \<Longrightarrow> queue_invoking (host_queue (ks_host st)) \<Longrightarrow>
     keystone_step env edge raw_session raw st Pull
       (st\<lparr>ks_enclave_pc := Enclave_busy (queue_command (host_queue (ks_host st)))\<rparr>)"
| step_serve:
    "ks_enclave_pc st = Enclave_busy c \<Longrightarrow> cmd_number c \<noteq> TEEP_AGENT_TA_EXIT \<Longrightarrow>
     serve_command env edge raw c (ks_host st) (ks_world st) (ks_session st) = Some (Some (h, w, s)) \<Longrightarrow>
     keystone_step env edge raw_session raw st Serve
       (st\<lparr>ks_enclave_pc := Enclave_pulling, ks_host := h, ks_world := w, ks_session := Some s\<rparr>)"
| step_return:
    "ks_host_pc st = Host_waiting \<Longrightarrow> \<not> queue_invoking (host_queue (ks_host st)) \<Longrightarrow>
     keystone_step env edge raw_session raw st
       (Return (queue_result (host_queue (ks_host st))) (host_operation (ks_host st)) (host_memory (ks_host st)))
       (st\<lparr>ks_host_pc := Host_ready\<rparr>)"
| step_close:
    "ks_host_pc st = Host_ready \<Longrightarrow>
     keystone_step env edge raw_session raw st Close
       (st\<lparr>ks_host_pc := Host_closing, ks_host := put_invoke_command edge TEEP_AGENT_TA_EXIT None (ks_host st)\<rparr>)"
| step_exit:
    "ks_enclave_pc st = Enclave_busy c \<Longrightarrow> cmd_number c = TEEP_AGENT_TA_EXIT \<Longrightarrow>
     put_invoke_command_result c 0 (ks_host st) = Some h \<Longrightarrow>
     keystone_step env edge raw_session raw st Exit (st\<lparr>ks_enclave_pc := Enclave_closing, ks_host := h\<rparr>)"
| step_leave:
    "ks_enclave_pc st = Enclave_closing \<Longrightarrow>
     TA_CloseSessionEntryPoint (ks_world st) (ks_session st) = Some w \<Longrightarrow>
     keystone_step env edge raw_session raw st Leave (st\<lparr>ks_enclave_pc := Enclave_gone, ks_world := w\<rparr>)"
| step_join:
    "ks_host_pc st = Host_closing \<Longrightarrow> \<not> queue_invoking (host_queue (ks_host st)) \<Longrightarrow>
     ks_enclave_pc st = Enclave_gone \<Longrightarrow>
     keystone_step env edge raw_session raw st Join (st\<lparr>ks_host_pc := Host_closed\<rparr>)"

text \<open>A run, with its events.\<close>

inductive keystone_run ::
    "('d, 'pk) agent_env \<Rightarrow> edge_types \<Rightarrow> teep_agent_session \<Rightarrow> TEE_Param list \<Rightarrow>
     keystone_state \<Rightarrow> keystone_event list \<Rightarrow> keystone_state \<Rightarrow> bool"
  for env edge raw_session raw where
  run_none: "keystone_run env edge raw_session raw st [] st"
| run_step: "keystone_run env edge raw_session raw st es st1 \<Longrightarrow> keystone_step env edge raw_session raw st1 e st2 \<Longrightarrow>
    keystone_run env edge raw_session raw st (es @ [e]) st2"

end
