(* ===== verification/Keystone_Params.thy ===== *)
theory Keystone_Params
  imports Teec_Keystone Agent_Heap
begin

text \<open>
  The buffers of a command on Keystone: what the loops of the enclave need of the calls they make,
  what they then bring in and out, and that the queue of the host provides it.
\<close>

section \<open>The interface of the loops\<close>

text \<open>
  A buffer that can be read and written in pieces. A read gives a piece that is not empty where
  there is something left; a write replaces what is there.
\<close>

locale param_channel =
  fixes read_piece :: "'h \<Rightarrow> u32 \<Rightarrow> u8 list option"
    and write_piece :: "u32 \<Rightarrow> u8 list \<Rightarrow> 'h \<Rightarrow> 'h option"
    and content :: "'h \<Rightarrow> u8 list"
    and usable :: "'h \<Rightarrow> bool"
  assumes content_bound: "usable h \<Longrightarrow> length (content h) < 2 ^ 32"
    and read_law: "usable h \<Longrightarrow> unat offset < length (content h) \<Longrightarrow>
      \<exists>n. 0 < n \<and> unat offset + n \<le> length (content h) \<and>
        read_piece h offset = Some (take n (drop (unat offset) (content h)))"
    and write_law: "usable h \<Longrightarrow> unat offset + length bs \<le> length (content h) \<Longrightarrow>
      \<exists>h'. write_piece offset bs h = Some h' \<and> usable h' \<and>
        content h' = take (unat offset) (content h) @ bs @ drop (unat offset + length bs) (content h)"

lemma copy_bytes_pieces:
  assumes "length xs + length ys < 2 ^ 64"
  shows "copy_bytes (copy_bytes m p xs) (p + of_nat (length xs)) ys = copy_bytes m p (xs @ ys)"
proof
  fix a
  let ?x = "length xs" and ?y = "length ys"
  have ux: "unat (of_nat ?x :: ptr) = ?x" using assms by simp
  have d: "a - (p + of_nat ?x) = (a - p) - of_nat ?x" by (simp add: algebra_simps)
  show "copy_bytes (copy_bytes m p xs) (p + of_nat ?x) ys a = copy_bytes m p (xs @ ys) a"
  proof (cases "unat (a - p) < ?x")
    case True
    then have "\<not> unat (a - (p + of_nat ?x)) < ?y"
    proof -
      have "unat ((a - p) - of_nat ?x) = 2 ^ 64 + unat (a - p) - ?x"
        using True ux unat_sub_if' [of "a - p" "of_nat ?x"] by (simp add: word_le_nat_alt)
      then show ?thesis using assms True unfolding d by simp
    qed
    then show ?thesis using True assms by (simp add: copy_bytes_at nth_append)
  next
    case False
    then have "unat ((a - p) - of_nat ?x) = unat (a - p) - ?x"
      using ux by (subst unat_sub) (simp_all add: word_le_nat_alt)
    then show ?thesis using False assms unfolding d by (auto simp: copy_bytes_at nth_append d)
  qed
qed

lemma copy_bytes_Nil [simp]: "copy_bytes m p [] = m"
  by (simp add: copy_bytes_def)

lemma unat_ptr_offset: "unat (ucast (offset :: u32) :: ptr) = unat offset"
  by (rule unat_ucast_u32)

lemma of_nat_u32: "n < 2 ^ 32 \<Longrightarrow> unat (of_nat n :: u32) = n"
  by (simp add: unat_of_nat)

lemma ucast_step:
  fixes a b :: u32
  assumes "unat (a + b) = unat a + unat b"
  shows "(ucast (a + b) :: ptr) = ucast a + of_nat (unat b)"
proof -
  have "unat (a + b) < 2 ^ LENGTH(32)" by (rule unsigned_less)
  then have lt: "unat a + unat b < 2 ^ 32" by (simp only: assms) simp
  then have b: "unat (of_nat (unat b) :: ptr) = unat b" by (simp add: unat_ptr_offset)
  have "unat (ucast a + of_nat (unat b) :: ptr) = unat a + unat b"
    using unat_add_exact [of "ucast a" "of_nat (unat b)"] lt by (simp add: b unat_ptr_offset)
  moreover have "unat (ucast (a + b) :: ptr) = unat a + unat b" by (simp only: unat_ptr_offset assms)
  ultimately show ?thesis by (simp only: word_unat_eq_iff)
qed

context param_channel
begin

text \<open>What is left of the buffer from \<open>offset\<close> on is brought in.\<close>

lemma fetched:
  assumes "usable h" and b: "buffer \<noteq> 0" and "unat offset \<le> length (content h)"
  shows "fetch_loop (read_piece h) buffer (of_nat (length (content h))) offset m =
    Some (Some (copy_bytes m (buffer + ucast offset) (drop (unat offset) (content h))))"
  using assms(3)
proof (induction "length (content h) - unat offset" arbitrary: offset m rule: less_induct)
  case less
  let ?c = "content h" and ?sz = "of_nat (length (content h)) :: u32"
  have sz: "unat ?sz = length ?c" using content_bound [OF assms(1)] by (rule of_nat_u32)
  show ?case
  proof (cases "unat offset < length ?c")
    case False
    then have "\<not> offset < ?sz" "drop (unat offset) ?c = []" using sz by (simp_all add: word_less_nat_alt)
    then show ?thesis by (subst fetch_loop.simps) simp
  next
    case True
    then obtain n where n: "0 < n" "unat offset + n \<le> length ?c"
      and r: "read_piece h offset = Some (take n (drop (unat offset) ?c))"
      using read_law [OF assms(1)] by blast
    let ?bs = "take n (drop (unat offset) ?c)" and ?next = "offset + of_nat n"
    have len: "length ?bs = n" using n(2) by simp
    have small: "n < 2 ^ 32" "unat offset + n < 2 ^ 32" using n content_bound [OF assms(1)] by linarith+
    then have next_offset: "unat ?next = unat offset + n" by (simp add: unat_word_ariths unat_of_nat)
    have "(ucast ?next :: ptr) = ucast offset + of_nat n"
      using ucast_step [of offset "of_nat n"] small next_offset by (simp add: unat_of_nat)
    then have p: "buffer + ucast ?next = buffer + ucast offset + of_nat (length ?bs)" by (simp only: len add.assoc)
    have rest: "drop (unat offset) ?c = ?bs @ drop (unat ?next) ?c"
      by (simp add: next_offset add.commute flip: drop_drop)
    have "fetch_loop (read_piece h) buffer ?sz offset m =
        fetch_loop (read_piece h) buffer ?sz ?next (copy_bytes m (buffer + ucast offset) ?bs)"
      using True n b by (subst fetch_loop.simps) (simp add: sz word_less_nat_alt r len)
    also have "\<dots> = Some (Some (copy_bytes (copy_bytes m (buffer + ucast offset) ?bs) (buffer + ucast ?next)
        (drop (unat ?next) ?c)))"
      using less(2) n next_offset by (intro less(1)) auto
    also have "copy_bytes (copy_bytes m (buffer + ucast offset) ?bs) (buffer + ucast ?next) (drop (unat ?next) ?c) =
        copy_bytes m (buffer + ucast offset) (drop (unat offset) ?c)"
      unfolding p using content_bound [OF assms(1)] by (subst copy_bytes_pieces) (auto simp: rest [symmetric])
    finally show ?thesis .
  qed
qed

text \<open>And the bytes of the enclave go out, up to the size.\<close>

lemma returned:
  "usable h \<Longrightarrow> offset \<le> sz \<Longrightarrow> unat sz \<le> length (content h) \<Longrightarrow>
   \<exists>h'. return_loop write_piece m buffer sz offset h = Some h' \<and> usable h' \<and>
     content h' = take (unat offset) (content h) @
       peek m (buffer + ucast offset) (unat sz - unat offset) @ drop (unat sz) (content h)"
proof (induction "unat sz - unat offset" arbitrary: offset h rule: less_induct)
  case less
  show ?case
  proof (cases "offset < sz")
    case False
    then have "offset = sz" using less(3) by simp
    then show ?thesis using less(2) by (subst return_loop.simps) simp
  next
    case True
    let ?n = "piece (sz - offset)"
    have step: "unat (offset + ?n) = unat offset + unat ?n" "unat offset + unat ?n \<le> unat sz"
      using offset_step [OF True piece_le] by blast+
    let ?bs = "peek m (buffer + ucast offset) (unat ?n)"
    obtain h1 where h1: "write_piece offset ?bs h = Some h1" "usable h1"
      and c1: "content h1 = take (unat offset) (content h) @ ?bs @ drop (unat offset + unat ?n) (content h)"
      using write_law [OF less(2), of offset ?bs] step(2) less(4) by auto
    have len1: "length (content h1) = length (content h)" using c1 step(2) less(4) by simp
    have "unat sz - unat (offset + ?n) < unat sz - unat offset" by (rule return_loop_decreases [OF True])
    from less(1) [OF this h1(2)] step less(4) len1
    obtain h2 where h2: "return_loop write_piece m buffer sz (offset + ?n) h1 = Some h2" "usable h2"
      and c2: "content h2 = take (unat (offset + ?n)) (content h1) @
        peek m (buffer + ucast (offset + ?n)) (unat sz - unat (offset + ?n)) @ drop (unat sz) (content h1)"
      by (auto simp: word_le_nat_alt)
    have "return_loop write_piece m buffer sz offset h = Some h2"
      using True h1(1) h2(1) by (subst return_loop.simps) (simp add: Let_def)
    moreover have "content h2 = take (unat offset) (content h) @
        peek m (buffer + ucast offset) (unat sz - unat offset) @ drop (unat sz) (content h)"
    proof -
      have take1: "take (unat (offset + ?n)) (content h1) = take (unat offset) (content h) @ ?bs"
        using step less(4) by (simp add: c1)
      have drop1: "drop (unat sz) (content h1) = drop (unat sz) (content h)"
        using step less(4) by (simp add: c1)
      have at: "buffer + ucast (offset + ?n) = buffer + ucast offset + of_nat (unat ?n)"
        using ucast_step [OF step(1)] by (simp only: add.assoc)
      have "unat sz - unat offset = unat ?n + (unat sz - unat (offset + ?n))" using step by simp
      then have "peek m (buffer + ucast offset) (unat sz - unat offset) =
          ?bs @ peek m (buffer + ucast (offset + ?n)) (unat sz - unat (offset + ?n))"
        by (simp only: at peek_add)
      then show ?thesis by (simp add: c2 take1 drop1)
    qed
    ultimately show ?thesis using h2(2) by blast
  qed
qed

end

section \<open>The queue of the host\<close>

text \<open>The buffer a parameter of the operation of the caller refers to.\<close>

definition host_ref :: "keystone_host \<Rightarrow> nat \<Rightarrow> TEEC_Parameter" where
  "host_ref h i = op_params (host_operation h) ! i"

definition host_buffer :: "nat \<Rightarrow> keystone_host \<Rightarrow> u8 list" where
  "host_buffer i h = peek (host_memory h) (tmpref_buffer (host_ref h i)) (unat (tmpref_size (host_ref h i)))"

definition host_usable :: "edge_types \<Rightarrow> nat \<Rightarrow> keystone_host \<Rightarrow> bool" where
  "host_usable edge i h \<longleftrightarrow>
     queue_operation (host_queue h) \<and> 0 < edge_buf edge \<and> unat (tmpref_size (host_ref h i)) < 2 ^ 32"

lemma unat_ucast_small: "unat x < 2 ^ 32 \<Longrightarrow> unat (ucast x :: u32) = unat x" for x :: u64
  by (simp add: unsigned_ucast_eq take_bit_nat_eq_self)

lemma left_over_small:
  fixes n :: u64 and offset :: u32
  assumes "unat offset \<le> unat n"
  shows "unat (n - ucast offset) = unat n - unat offset"
  using assms by (subst unat_sub) (simp_all add: word_le_nat_alt unat_ptr_offset)

text \<open>A piece that is written stays inside of the buffer, wherever the enclave wants it and however long it is.\<close>

lemma write_stays_inside:
  assumes w: "write_invoke_param i offset buf h = Some h'" and a: "a \<notin> block_bytes (tmpref_buffer (host_ref h i), tmpref_size (host_ref h i))"
  shows "host_memory h' a = host_memory h a \<and> host_operation h' = host_operation h \<and> host_queue h' = host_queue h"
proof (cases "tmpref_size (host_ref h i) < ucast offset")
  case True
  then show ?thesis using w by (auto simp: write_invoke_param_def host_ref_def Let_def split: if_split_asm)
next
  case False
  let ?q = "host_ref h i" and ?p = "tmpref_buffer (host_ref h i)" and ?sz = "tmpref_size (host_ref h i)"
  let ?left = "?sz - ucast offset"
  let ?n = "ucast (min ?left (of_nat (length buf))) :: u32"
  have le: "unat offset \<le> unat ?sz" using False by (simp add: word_less_nat_alt unat_ptr_offset)
  have "unat ?n \<le> unat (min ?left (of_nat (length buf)))"
    by (simp add: unsigned_ucast_eq take_bit_nat_less_eq_self)
  also have "\<dots> \<le> unat ?left" by (simp add: min_def word_le_nat_alt)
  finally have n: "unat offset + unat ?n \<le> unat ?sz" using left_over_small [OF le] le by linarith
  have "copy_bytes (host_memory h) (?p + ucast offset) (take (unat ?n) buf) a = host_memory h a"
  proof -
    have out: "\<not> unat (a - ?p) < unat ?sz" using a by (simp add: block_bytes_def)
    have "\<not> unat (a - (?p + ucast offset)) < unat ?n"
    proof -
      have d: "a - (?p + ucast offset) = (a - ?p) - ucast offset" by (simp add: algebra_simps)
      have "unat ((a - ?p) - ucast offset) = unat (a - ?p) - unat offset"
        using out le by (intro left_over_small) simp
      then show ?thesis using out n unfolding d by linarith
    qed
    moreover have "length (take (unat ?n) buf) < 2 ^ 64"
      using n unat_ptr_less [of ?sz] by (simp add: min_def)
    ultimately show ?thesis by (simp add: copy_bytes_at)
  qed
  then show ?thesis using w False by (auto simp: write_invoke_param_def host_ref_def Let_def split: if_split_asm)
qed

lemma write_keeps_rest:
  assumes "write_invoke_param i offset buf h = Some h'"
  shows "host_operation h' = host_operation h \<and> host_queue h' = host_queue h"
  using assms by (auto simp: write_invoke_param_def Let_def split: if_split_asm)

lemma return_loop_inside:
  "return_loop (write_invoke_param i) m buffer sz offset h = Some h' \<Longrightarrow>
     host_operation h' = host_operation h \<and>
     (\<forall>a. a \<notin> block_bytes (tmpref_buffer (host_ref h i), tmpref_size (host_ref h i)) \<longrightarrow> host_memory h' a = host_memory h a)"
proof (induction "unat sz - unat offset" arbitrary: offset h rule: less_induct)
  case less
  show ?case
  proof (cases "offset < sz")
    case True
    let ?n = "piece (sz - offset)"
    obtain h1 where w: "write_invoke_param i offset (peek m (buffer + ucast offset) (unat ?n)) h = Some h1"
      and r: "return_loop (write_invoke_param i) m buffer sz (offset + ?n) h1 = Some h'"
      using less(2) True by (subst (asm) return_loop.simps) (auto simp: Let_def split: option.split_asm)
    have "host_ref h1 i = host_ref h i" using write_keeps_rest [OF w] by (simp add: host_ref_def)
    then show ?thesis
      using less(1) [OF return_loop_decreases [OF True] r] write_keeps_rest [OF w] write_stays_inside [OF w] by simp
  qed (use less(2) in \<open>subst (asm) return_loop.simps, simp\<close>)
qed

lemma peek_copy_inside:
  assumes "k + length bs \<le> n" and "n < 2 ^ 64"
  shows "peek (copy_bytes m (p + of_nat k) bs) p n = take k (peek m p n) @ bs @ drop (k + length bs) (peek m p n)"
proof (rule nth_equalityI)
  fix i assume i: "i < length (peek (copy_bytes m (p + of_nat k) bs) p n)"
  have small: "i < 2 ^ 64" "k < 2 ^ 64" "length bs < 2 ^ 64" using i assms by simp_all
  have d: "p + of_nat i - (p + of_nat k) = (of_nat i - of_nat k :: ptr)" by simp
  have "unat (of_nat i - of_nat k :: ptr) = (if k \<le> i then i - k else 2 ^ 64 + i - k)"
    using small unat_sub_if' [of "of_nat i :: ptr" "of_nat k"] by (auto simp: word_le_nat_alt)
  then have "copy_bytes m (p + of_nat k) bs (p + of_nat i) =
      (if k \<le> i \<and> i - k < length bs then bs ! (i - k) else m (p + of_nat i))"
    unfolding copy_bytes_at [OF small(3)] d using small assms by auto
  then show "peek (copy_bytes m (p + of_nat k) bs) p n ! i =
      (take k (peek m p n) @ bs @ drop (k + length bs) (peek m p n)) ! i"
    using i assms by (auto simp: nth_peek nth_append min_def add.commute)
qed (use assms in simp)

interpretation host: param_channel "\<lambda>h. read_invoke_param edge h i" "write_invoke_param i" "host_buffer i" "host_usable edge i"
  for edge i
proof unfold_locales
  fix h :: keystone_host and offset :: u32
  let ?q = "host_ref h i"
  let ?sz = "tmpref_size ?q" and ?left = "tmpref_size (host_ref h i) - ucast offset"
  assume u: "host_usable edge i h"
  then have sz: "unat ?sz < 2 ^ 32" by (simp add: host_usable_def)
  then show "length (host_buffer i h) < 2 ^ 32" by (simp add: host_buffer_def)
  show "\<exists>n. 0 < n \<and> unat offset + n \<le> length (host_buffer i h) \<and>
      read_invoke_param edge h i offset = Some (take n (drop (unat offset) (host_buffer i h)))"
    if o: "unat offset < length (host_buffer i h)"
  proof (intro exI conjI)
    let ?n = "unat (min ?left (edge_buf edge))"
    have lt: "unat offset < unat ?sz" using o by (simp add: host_buffer_def)
    then have left_size: "unat ?left = unat ?sz - unat offset" by (intro left_over_small) simp
    have le: "?n \<le> unat ?left" by (simp add: min_def word_le_nat_alt)
    show "0 < ?n" using lt left_size u by (auto simp: min_def host_usable_def word_less_nat_alt)
    show "unat offset + ?n \<le> length (host_buffer i h)" using le left_size lt by (simp add: host_buffer_def)
    have "unat (ucast (min ?left (edge_buf edge)) :: u32) = ?n"
      using le left_size sz by (intro unat_ucast_small) simp
    moreover have "\<not> ?sz < ucast offset" using lt by (simp add: word_less_nat_alt unat_ptr_offset)
    ultimately show "read_invoke_param edge h i offset = Some (take ?n (drop (unat offset) (host_buffer i h)))"
      using u le left_size lt
      by (simp add: read_invoke_param_def host_usable_def host_ref_def [symmetric] Let_def host_buffer_def
          drop_peek take_peek)
  qed
  show "\<exists>h'. write_invoke_param i offset bs h = Some h' \<and> host_usable edge i h' \<and>
      host_buffer i h' = take (unat offset) (host_buffer i h) @ bs @ drop (unat offset + length bs) (host_buffer i h)"
    if fits: "unat offset + length bs \<le> length (host_buffer i h)" for bs
  proof -
    have le: "unat offset + length bs \<le> unat ?sz" using fits by (simp add: host_buffer_def)
    then have left_size: "unat ?left = unat ?sz - unat offset" by (intro left_over_small) simp
    have len: "unat (of_nat (length bs) :: u64) = length bs" using le sz by simp
    have "min ?left (of_nat (length bs)) = of_nat (length bs)"
      using le left_size len by (intro min_absorb2) (simp add: word_le_nat_alt)
    then have "unat (ucast (min ?left (of_nat (length bs))) :: u32) = length bs"
      using le sz len by (simp add: unat_ucast_small)
    moreover have "\<not> ?sz < ucast offset" using le by (simp add: word_less_nat_alt unat_ptr_offset)
    ultimately have w: "write_invoke_param i offset bs h =
        Some (h\<lparr>host_memory := copy_bytes (host_memory h) (tmpref_buffer ?q + of_nat (unat offset)) bs\<rparr>)"
      (is "_ = Some ?h")
      using u by (simp add: write_invoke_param_def host_usable_def host_ref_def [symmetric] Let_def)
    have ref: "host_ref ?h i = ?q" by (simp add: host_ref_def)
    show ?thesis
    proof (intro exI conjI)
      show "host_usable edge i ?h" using u unfolding host_usable_def ref by simp
      show "host_buffer i ?h = take (unat offset) (host_buffer i h) @ bs @ drop (unat offset + length bs) (host_buffer i h)"
        unfolding host_buffer_def ref using peek_copy_inside [OF le unat_ptr_less] by simp
    qed (rule w)
  qed
qed

text \<open>So an input arrives, and an output is brought back, byte by byte.\<close>

lemma input_arrives:
  assumes "host_usable edge i h" and "env_malloc env (w_blocks w) (ucast (ucast (slot_size s) :: u32)) = b" and "b \<noteq> 0"
    and "(ucast (slot_size s) :: u32) = of_nat (length (host_buffer i h))"
    and "t = TEE_PARAM_TYPE_MEMREF_INPUT \<or> t = TEE_PARAM_TYPE_MEMREF_INOUT"
  shows "fetch_param env (read_invoke_param edge h i) t s p w =
    Some (Some (p\<lparr>value_a := 0, value_b := 0, memref_buffer := b, memref_size := of_nat (length (host_buffer i h))\<rparr>,
      w\<lparr>w_blocks := (b, of_nat (length (host_buffer i h))) # w_blocks w,
        w_memory := copy_bytes (w_memory w) b (host_buffer i h)\<rparr>))"
proof -
  let ?n = "length (host_buffer i h)"
  have "(ucast (of_nat ?n :: u32) :: u64) = of_nat ?n"
    using host.content_bound [OF assms(1)] by (simp add: word_unat_eq_iff unat_ptr_offset of_nat_u32)
  then show ?thesis
    using host.fetched [OF assms(1,3), of 0] assms
    by (auto simp: fetch_param_def malloc_block_def Let_def)
qed

end
