(* ===== verification/Keystone_Proofs.thy ===== *)
theory Keystone_Proofs
  imports Keystone_Params Teec_Proofs
begin

text \<open>
  The client API on Keystone: host and enclave as two threads are a sequence of calls, the loops
  that carry a buffer through pieces carry all of it, and whatever the host does a session in the
  enclave is one of those that can be reached.
\<close>

section \<open>The calls one after the other\<close>

type_synonym keystone_call = "u32 \<times> TEEC_Operation \<times> memory"
type_synonym keystone_parts = "keystone_host \<times> world \<times> teep_agent_session option"

text \<open>What a call gives back: the result, the operation as it has been written, and the memory.\<close>

definition call_outcome :: "keystone_host \<Rightarrow> u32 \<times> TEEC_Operation \<times> memory" where
  "call_outcome h = (queue_result (host_queue h), host_operation h, host_memory h)"

definition called :: "edge_types \<Rightarrow> keystone_call \<Rightarrow> keystone_host \<Rightarrow> keystone_host" where
  "called edge c h = (case c of (number, operation, m) \<Rightarrow>
     put_invoke_command edge number (Some operation) (h\<lparr>host_memory := m\<rparr>))"

definition sequential_call ::
    "('d, 'pk) agent_env \<Rightarrow> edge_types \<Rightarrow> TEE_Param list \<Rightarrow> keystone_call \<Rightarrow> keystone_parts \<Rightarrow>
     ((u32 \<times> TEEC_Operation \<times> memory) \<times> keystone_parts) option" where
  "sequential_call env edge raw c x =
     (case x of (h, w, so) \<Rightarrow>
        let h = called edge c h in
        case serve_command env edge raw (queue_command (host_queue h)) h w so of
          Some (Some (h, w, s)) \<Rightarrow> Some (call_outcome h, (h, w, Some s))
        | _ \<Rightarrow> None)"

primrec sequential_calls ::
    "('d, 'pk) agent_env \<Rightarrow> edge_types \<Rightarrow> TEE_Param list \<Rightarrow> keystone_call list \<Rightarrow> keystone_parts \<Rightarrow>
     ((u32 \<times> TEEC_Operation \<times> memory) list \<times> keystone_parts) option" where
  "sequential_calls env edge raw [] x = Some ([], x)"
| "sequential_calls env edge raw (c # cs) x =
     (case sequential_call env edge raw c x of
        None \<Rightarrow> None
      | Some (r, x) \<Rightarrow> map_option (apfst ((#) r)) (sequential_calls env edge raw cs x))"

lemma sequential_calls_snoc:
  "sequential_calls env edge raw (cs @ [c]) x =
     (case sequential_calls env edge raw cs x of
        None \<Rightarrow> None
      | Some (rs, y) \<Rightarrow> map_option (apfst (\<lambda>r. rs @ [r])) (sequential_call env edge raw c y))"
proof (induction cs arbitrary: x)
  case Nil
  show ?case by (cases "sequential_call env edge raw c x") (auto simp: map_option_case)
next
  case (Cons d cs)
  show ?case
  proof (cases "sequential_call env edge raw d x")
    case (Some y)
    then show ?thesis using Cons.IH [of "snd y"]
      by (auto simp: option.map_comp apfst_compose map_option_case comp_def split: option.split prod.split)
  qed simp
qed

fun calls_of :: "keystone_event list \<Rightarrow> keystone_call list" where
  "calls_of [] = []"
| "calls_of (Call number operation m # es) = (number, operation, m) # calls_of es"
| "calls_of (_ # es) = calls_of es"

fun returns_of :: "keystone_event list \<Rightarrow> (u32 \<times> TEEC_Operation \<times> memory) list" where
  "returns_of [] = []"
| "returns_of (Return r operation m # es) = (r, operation, m) # returns_of es"
| "returns_of (_ # es) = returns_of es"

lemma calls_of_append [simp]: "calls_of (es @ es') = calls_of es @ calls_of es'"
  by (induction es rule: calls_of.induct) auto

lemma returns_of_append [simp]: "returns_of (es @ es') = returns_of es @ returns_of es'"
  by (induction es rule: returns_of.induct) auto

lemma put_command_simps [simp]:
  "queue_invoking (host_queue (put_invoke_command edge number operation h))"
  "cmd_number (queue_command (host_queue (put_invoke_command edge number operation h))) = number"
  by (simp_all add: put_invoke_command_def Let_def)

lemma put_result_simps:
  "put_invoke_command_result c r h = Some h' \<Longrightarrow> \<not> queue_invoking (host_queue h') \<and> queue_result (host_queue h') = r"
  by (auto simp: put_invoke_command_result_def Let_def split: if_split_asm)

lemma serve_command_done:
  "serve_command env edge raw c h w so = Some (Some (h', w', s')) \<Longrightarrow> \<not> queue_invoking (host_queue h')"
  by (auto simp: serve_command_def dest: put_result_simps split: option.split_asm)

section \<open>The phases of a run\<close>

text \<open>World and session once the enclave has started.\<close>

definition started ::
    "('d, 'pk) agent_env \<Rightarrow> teep_agent_session \<Rightarrow> keystone_state \<Rightarrow> world \<times> teep_agent_session option" where
  "started env raw_session st =
     (if ks_enclave_pc st = Enclave_start
      then case TA_OpenSessionEntryPoint env (ks_world st) raw_session 0 of (_, so, w) \<Rightarrow> (w, so)
      else (ks_world st, ks_session st))"

definition idle :: "keystone_state \<Rightarrow> bool" where
  "idle st \<longleftrightarrow> ks_enclave_pc st = Enclave_start \<or> ks_enclave_pc st = Enclave_pulling"

definition on_call :: "keystone_state \<Rightarrow> bool" where
  "on_call st \<longleftrightarrow> idle st \<or> ks_enclave_pc st = Enclave_busy (queue_command (host_queue (ks_host st)))"

text \<open>
  Where a run can be, with the calls that have been completed: between two calls, in a call, behind
  the answer of a call, in the call that ends the enclave, or behind that.
\<close>

inductive phase ::
    "('d, 'pk) agent_env \<Rightarrow> edge_types \<Rightarrow> teep_agent_session \<Rightarrow> TEE_Param list \<Rightarrow> keystone_parts \<Rightarrow>
     keystone_state \<Rightarrow> keystone_event list \<Rightarrow> bool"
  for env edge raw_session raw x0 where
  phase_ready:
    "ks_host_pc st = Host_ready \<Longrightarrow> idle st \<Longrightarrow> \<not> queue_invoking (host_queue (ks_host st)) \<Longrightarrow>
     sequential_calls env edge raw (calls_of es) x0 = Some (returns_of es, (ks_host st, started env raw_session st)) \<Longrightarrow>
     phase env edge raw_session raw x0 st es"
| phase_called:
    "ks_host_pc st = Host_waiting \<Longrightarrow> on_call st \<Longrightarrow> calls_of es = cs @ [c] \<Longrightarrow> fst c \<noteq> TEEP_AGENT_TA_EXIT \<Longrightarrow>
     sequential_calls env edge raw cs x0 = Some (returns_of es, (h, started env raw_session st)) \<Longrightarrow>
     ks_host st = called edge c h \<Longrightarrow>
     phase env edge raw_session raw x0 st es"
| phase_answered:
    "ks_host_pc st = Host_waiting \<Longrightarrow> ks_enclave_pc st = Enclave_pulling \<Longrightarrow>
     \<not> queue_invoking (host_queue (ks_host st)) \<Longrightarrow>
     sequential_calls env edge raw (calls_of es) x0 =
       Some (returns_of es @ [call_outcome (ks_host st)], (ks_host st, started env raw_session st)) \<Longrightarrow>
     phase env edge raw_session raw x0 st es"
| phase_ending:
    "ks_host_pc st = Host_closing \<Longrightarrow> on_call st \<Longrightarrow>
     sequential_calls env edge raw (calls_of es) x0 = Some (returns_of es, x) \<Longrightarrow>
     ks_host st = put_invoke_command edge TEEP_AGENT_TA_EXIT None h \<Longrightarrow>
     phase env edge raw_session raw x0 st es"
| phase_left:
    "ks_host_pc st = Host_closing \<or> ks_host_pc st = Host_closed \<Longrightarrow>
     ks_enclave_pc st = Enclave_closing \<or> ks_enclave_pc st = Enclave_gone \<Longrightarrow>
     \<not> queue_invoking (host_queue (ks_host st)) \<Longrightarrow>
     sequential_calls env edge raw (calls_of es) x0 = Some (returns_of es, x) \<Longrightarrow>
     phase env edge raw_session raw x0 st es"

lemma phase_step:
  assumes "phase env edge raw_session raw x0 st es" and "keystone_step env edge raw_session raw st e st'"
  shows "phase env edge raw_session raw x0 st' (es @ [e])"
  using assms(1)
proof cases
  case phase_ready
  from assms(2) show ?thesis
  proof (cases rule: keystone_step.cases)
    case (step_call number operation m)
    then show ?thesis using phase_ready
      by (intro phase.phase_called [where c = "(number, operation, m)" and h = "ks_host st" and cs = "calls_of es"])
        (simp_all add: called_def started_def on_call_def idle_def)
  next
    case step_close
    then show ?thesis using phase_ready
      by (intro phase.phase_ending) (auto simp: started_def on_call_def idle_def)
  qed (use phase_ready in \<open>auto intro!: phase.phase_ready simp: started_def idle_def\<close>)
next
  case (phase_called cs c h)
  have inv: "queue_invoking (host_queue (ks_host st))" by (simp add: phase_called called_def split: prod.split)
  from assms(2) show ?thesis
  proof (cases rule: keystone_step.cases)
    case (step_serve d h' w s)
    then have d: "d = queue_command (host_queue (ks_host st))" using phase_called by (auto simp: on_call_def idle_def)
    have "sequential_call env edge raw c (h, started env raw_session st) = Some (call_outcome h', h', w, Some s)"
      using step_serve phase_called d by (auto simp: sequential_call_def started_def Let_def)
    then have "sequential_calls env edge raw (cs @ [c]) x0 =
        Some (returns_of es @ [call_outcome h'], h', w, Some s)"
      by (simp only: sequential_calls_snoc phase_called(5)) simp
    then show ?thesis
      using step_serve phase_called
      by (intro phase.phase_answered) (auto simp: started_def dest: serve_command_done)
  next
    case (step_exit d h')
    then have "d = queue_command (host_queue (called edge c h))" using phase_called by (auto simp: on_call_def idle_def)
    then show ?thesis using step_exit phase_called by (auto simp: called_def split: prod.split_asm)
  qed (use phase_called inv in \<open>auto intro!: phase.phase_called [where c = c and h = h and cs = cs]
      simp: started_def on_call_def idle_def\<close>)
next
  case phase_answered
  from assms(2) show ?thesis
    by (cases rule: keystone_step.cases)
      (use phase_answered in \<open>auto intro!: phase.phase_ready simp: started_def idle_def call_outcome_def\<close>)
next
  case (phase_ending x h)
  have inv: "queue_invoking (host_queue (ks_host st))" by (simp add: phase_ending)
  from assms(2) show ?thesis
  proof (cases rule: keystone_step.cases)
    case (step_serve d h' w s)
    then show ?thesis using phase_ending by (auto simp: on_call_def idle_def)
  next
    case (step_exit d h')
    then show ?thesis using phase_ending put_result_simps by (auto intro!: phase.phase_left)
  qed (use phase_ending inv in \<open>auto intro!: phase.phase_ending [where h = h] simp: on_call_def idle_def\<close>)
next
  case (phase_left x)
  from assms(2) show ?thesis
    by (cases rule: keystone_step.cases) (use phase_left in \<open>auto intro!: phase.phase_left\<close>)
qed

lemma phase_run:
  assumes "keystone_run env edge raw_session raw (keystone_init h w) es st"
    and "TA_OpenSessionEntryPoint env w raw_session 0 = (r, so, w1)"
  shows "phase env edge raw_session raw (ks_host (keystone_init h w), w1, so) st es"
  using assms(1)
proof (induction "keystone_init h w" es st rule: keystone_run.induct)
  case run_none
  then show ?case using assms(2)
    by (intro phase.phase_ready) (simp_all add: keystone_init_def idle_def started_def)
next
  case (run_step es st1 e st2)
  then show ?case by (blast intro: phase_step)
qed

section \<open>Who can move\<close>

text \<open>
  While the enclave works on a command the host waits, and while the host waits there is at most
  one step: there is no order of the threads to choose.
\<close>

lemma phase_exclusive:
  assumes "phase env edge raw_session raw x0 st es" and "ks_enclave_pc st = Enclave_busy c"
  shows "queue_invoking (host_queue (ks_host st)) \<and> c = queue_command (host_queue (ks_host st)) \<and>
    ks_host_pc st \<in> {Host_waiting, Host_closing}"
  using assms
  by (cases rule: phase.cases) (auto simp: on_call_def idle_def called_def split: prod.split)

lemma phase_deterministic:
  assumes "phase env edge raw_session raw x0 st es" and "ks_host_pc st = Host_waiting"
    and "keystone_step env edge raw_session raw st e1 st1" and "keystone_step env edge raw_session raw st e2 st2"
  shows "e1 = e2 \<and> st1 = st2"
proof -
  have "ks_enclave_pc st = Enclave_pulling \<or> queue_invoking (host_queue (ks_host st))"
    using assms(1,2) by (cases rule: phase.cases) (auto simp: called_def split: prod.split)
  with assms(3,4,2) show ?thesis
    by (elim keystone_step.cases) auto
qed

section \<open>Every call is answered\<close>

lemma keystone_run_trans:
  "keystone_run env edge raw_session raw st1 es' st2 \<Longrightarrow> keystone_run env edge raw_session raw st es st1 \<Longrightarrow>
     keystone_run env edge raw_session raw st (es @ es') st2"
proof (induction rule: keystone_run.induct)
  case (run_step st1 es1 st2 e st3)
  then show ?case using keystone_run.run_step by (metis append_assoc)
qed simp

lemmas keystone_run_one = keystone_run.run_step [OF keystone_run.run_none, simplified]

text \<open>From an answer to the end of the call, from the pull of a command to that, and from the start.\<close>

lemma answered_returns:
  assumes "ks_host_pc st = Host_waiting" and "\<not> queue_invoking (host_queue (ks_host st))"
  shows "keystone_run env edge raw_session raw st
    [Return (queue_result (host_queue (ks_host st))) (host_operation (ks_host st)) (host_memory (ks_host st))]
    (st\<lparr>ks_host_pc := Host_ready\<rparr>)"
  by (rule keystone_run_one, rule step_return) (use assms in simp_all)

lemma pulled_returns:
  assumes "ks_host_pc st = Host_waiting" and "ks_enclave_pc st = Enclave_pulling"
    and h: "ks_host st = called edge c h" and "fst c \<noteq> TEEP_AGENT_TA_EXIT"
    and s: "sequential_call env edge raw c (h, ks_world st, ks_session st) = Some (r, h', w, so)"
  shows "\<exists>es st'. keystone_run env edge raw_session raw st es st' \<and> ks_host_pc st' = Host_ready \<and>
    calls_of es = [] \<and> returns_of es = [r]"
proof -
  let ?q = "queue_command (host_queue (ks_host st))"
  have inv: "queue_invoking (host_queue (ks_host st))" "cmd_number ?q \<noteq> TEEP_AGENT_TA_EXIT"
    using assms(4) by (auto simp: h called_def split: prod.split)
  obtain s' where sv: "serve_command env edge raw ?q (ks_host st) (ks_world st) (ks_session st) = Some (Some (h', w, s'))"
    and r: "r = call_outcome h'"
    using s by (auto simp: sequential_call_def Let_def h split: option.split_asm)
  let ?st1 = "st\<lparr>ks_enclave_pc := Enclave_busy ?q\<rparr>"
  let ?st2 = "?st1\<lparr>ks_enclave_pc := Enclave_pulling, ks_host := h', ks_world := w, ks_session := Some s'\<rparr>"
  have "keystone_run env edge raw_session raw st [Pull] ?st1"
    by (rule keystone_run_one, rule step_pull) (use assms(2) inv in simp_all)
  moreover have "keystone_step env edge raw_session raw ?st1 Serve ?st2"
    by (rule step_serve) (use inv sv in simp_all)
  ultimately have "keystone_run env edge raw_session raw st [Pull, Serve] ?st2"
    using keystone_run.run_step by fastforce
  from keystone_run_trans [OF answered_returns this] serve_command_done [OF sv] assms(1)
  show ?thesis using r by (intro exI conjI) (auto simp: call_outcome_def)
qed

lemma phase_answers:
  assumes "phase env edge raw_session raw x0 st es" and w: "ks_host_pc st = Host_waiting"
    and ok: "sequential_calls env edge raw (calls_of es) x0 = Some (rs, x)"
  shows "\<exists>es' st'. keystone_run env edge raw_session raw st es' st' \<and> ks_host_pc st' = Host_ready \<and>
    calls_of es' = [] \<and> returns_of es @ returns_of es' = rs"
  using assms(1)
proof cases
  case phase_answered
  with ok answered_returns [OF w phase_answered(3), of env edge raw_session raw] show ?thesis
    by (intro exI conjI) (auto simp: call_outcome_def)
next
  case (phase_called cs c h)
  let ?y = "started env raw_session st"
  obtain r h' w' so where sc: "sequential_call env edge raw c (h, ?y) = Some (r, h', w', so)" and rs: "rs = returns_of es @ [r]"
    using ok phase_called by (auto simp: sequential_calls_snoc split: option.split_asm)
  consider (start) "ks_enclave_pc st = Enclave_start" | (pull) "ks_enclave_pc st = Enclave_pulling"
    | (busy) "ks_enclave_pc st = Enclave_busy (queue_command (host_queue (ks_host st)))"
    using phase_called(2) by (auto simp: on_call_def idle_def)
  then show ?thesis
  proof cases
    case start
    obtain r0 so0 w0 where t: "TA_OpenSessionEntryPoint env (ks_world st) raw_session 0 = (r0, so0, w0)" by (rule prod_cases3)
    let ?st = "st\<lparr>ks_enclave_pc := Enclave_pulling, ks_world := w0, ks_session := so0\<rparr>"
    have one: "keystone_run env edge raw_session raw st [Start] ?st"
      by (rule keystone_run_one, rule step_start) (use start t in simp_all)
    have "?y = (w0, so0)" using start t by (simp add: started_def)
    with sc pulled_returns [of ?st edge c h env raw r h' w' so raw_session] phase_called w
    obtain es' st' where "keystone_run env edge raw_session raw ?st es' st'" "ks_host_pc st' = Host_ready"
      "calls_of es' = []" "returns_of es' = [r]" by auto
    with keystone_run_trans [OF this(1) one] rs show ?thesis by (intro exI [of _ "[Start] @ es'"]) auto
  next
    case pull
    then have "?y = (ks_world st, ks_session st)" by (simp add: started_def)
    with sc pulled_returns [of st edge c h env raw r h' w' so raw_session] phase_called w pull rs show ?thesis by auto
  next
    case busy
    let ?st = "st\<lparr>ks_enclave_pc := Enclave_pulling\<rparr>"
    have "?y = (ks_world st, ks_session st)" using busy by (simp add: started_def)
    with sc obtain s' where sv: "serve_command env edge raw (queue_command (host_queue (ks_host st))) (ks_host st)
        (ks_world st) (ks_session st) = Some (Some (h', w', s'))" and r: "r = call_outcome h'"
      by (auto simp: sequential_call_def Let_def phase_called split: option.split_asm)
    let ?st2 = "st\<lparr>ks_enclave_pc := Enclave_pulling, ks_host := h', ks_world := w', ks_session := Some s'\<rparr>"
    have "keystone_run env edge raw_session raw st [Serve] ?st2"
      by (rule keystone_run_one, rule step_serve) (use busy sv phase_called in \<open>auto simp: called_def split: prod.split_asm\<close>)
    from keystone_run_trans [OF answered_returns this] serve_command_done [OF sv] w r rs
    show ?thesis by (intro exI conjI) (auto simp: call_outcome_def)
  qed
qed (use w in simp_all)

section \<open>Whatever the host does\<close>

text \<open>The loop that brings a buffer in leaves everything else alone.\<close>

lemma fetch_loop_inside:
  assumes "fetch_loop read buffer sz offset m = Some y"
  shows "\<forall>m'. y = Some m' \<longrightarrow> offset \<le> sz \<longrightarrow>
    (buffer \<noteq> 0 \<or> offset = sz) \<and> (\<forall>a. a \<notin> block_bytes (buffer, ucast sz) \<longrightarrow> m' a = m a)"
  using assms
proof (induction read buffer sz offset m y rule: fetch_loop.raw_induct [rotated, consumes 1])
  case (1 fetch read buffer sz offset m y)
  show ?case
  proof (intro allI impI)
    fix m' assume y: "y = Some m'" and le: "offset \<le> sz"
    show "(buffer \<noteq> 0 \<or> offset = sz) \<and> (\<forall>a. a \<notin> block_bytes (buffer, ucast sz) \<longrightarrow> m' a = m a)"
    proof (cases "offset < sz")
      case False
      then show ?thesis using 1(2) le y by auto
    next
      case True
      obtain buf where r: "read offset = Some buf" using 1(2) y True by (cases "read offset") auto
      have buf: "unat offset + length buf \<le> unat sz" "buffer = 0 \<longrightarrow> buf = []"
        and f: "fetch read buffer sz (offset + of_nat (length buf)) (copy_bytes m (buffer + ucast offset) buf) = Some y"
        using 1(2) y True r by (simp_all split: if_split_asm)
      have "unat sz < 2 ^ LENGTH(32)" by (rule unsigned_less)
      then have next_offset: "unat (offset + of_nat (length buf)) = unat offset + length buf"
        using buf(1) by (simp add: unat_word_ariths unat_of_nat)
      then have "offset + of_nat (length buf) \<le> sz" using buf(1) by (simp add: word_le_nat_alt)
      with 1(1) [OF f] y have ih: "buffer \<noteq> 0 \<or> offset + of_nat (length buf) = sz"
        "\<And>a. a \<notin> block_bytes (buffer, ucast sz) \<Longrightarrow> m' a = copy_bytes m (buffer + ucast offset) buf a" by auto
      have "copy_bytes m (buffer + ucast offset) buf a = m a" if a: "a \<notin> block_bytes (buffer, ucast sz)" for a
      proof -
        have "unat sz \<le> unat (a - buffer)" using a by (simp add: block_bytes_def unat_ptr_offset)
        then have "unat ((a - buffer) - ucast offset) = unat (a - buffer) - unat offset" "unat sz \<le> unat (a - buffer)"
          using True by (simp_all add: left_over_small word_less_nat_alt)
        then have "\<not> unat ((a - buffer) - ucast offset) < length buf" using buf(1) by linarith
        then have "\<not> unat (a - (buffer + ucast offset)) < length buf" unfolding diff_diff_eq .
        moreover have "length buf < 2 ^ 64" using buf(1) \<open>unat sz < 2 ^ LENGTH(32)\<close> by simp
        ultimately show ?thesis by (simp add: copy_bytes_at)
      qed
      moreover have "buffer \<noteq> 0" using ih(1) buf(2) True by auto
      ultimately show ?thesis using ih(2) by simp
    qed
  qed
qed

lemma memory_filled:
  assumes "\<And>a. a \<notin> block_bytes (q, n) \<Longrightarrow> m' a = m a"
  shows "m' = copy_bytes m q (peek m' q (unat n))"
proof
  fix a
  show "m' a = copy_bytes m q (peek m' q (unat n)) a"
    using assms [of a] unat_ptr_less [of n] by (auto simp: copy_bytes_at nth_peek block_bytes_def)
qed

lemma fetch_param_grows:
  assumes f: "fetch_param env read t s p w = Some (Some (p', w'))" and "heap_ok w" and "malloc_ok env"
  shows "grows env w w' \<and> (memref_type t \<longrightarrow> own_block w w' p')"
proof -
  let ?p = "p\<lparr>value_a := 0, value_b := 0, memref_buffer := 0\<rparr>"
  let ?sz = "ucast (slot_size s) :: u32"
  obtain b w1 where m: "malloc_block env w (ucast ?sz) = (b, w1)" by fastforce
  consider (other) "\<not> memref_type t" "w' = w"
    | (into) m' where "fetch_loop read b ?sz 0 (w_memory w1) = Some (Some m')"
        "p' = ?p\<lparr>memref_size := ?sz, memref_buffer := b\<rparr>" "w' = w1\<lparr>w_memory := m'\<rparr>"
    | (out) "slot_size s \<le> ucast ?sz" "b \<noteq> 0 \<or> slot_size s = 0" "p' = ?p\<lparr>memref_size := ?sz, memref_buffer := b\<rparr>"
        "w' = w1\<lparr>w_memory := copy_bytes (w_memory w1) b (replicate (unat (slot_size s)) 0)\<rparr>"
    using f m by (auto simp: fetch_param_def memref_type_def Let_def split: if_split_asm)
  then show ?thesis
  proof cases
    case other
    then show ?thesis using assms(2) by (simp add: grows_def survives_def)
  next
    case into
    note inside = fetch_loop_inside [OF into(1), rule_format, OF refl]
    have "b \<noteq> 0 \<or> (ucast ?sz :: u64) = 0" using inside by auto
    moreover have "m' = copy_bytes (w_memory w1) b (peek m' b (unat (ucast ?sz :: u64)))"
      by (rule memory_filled) (use inside in simp)
    ultimately show ?thesis
      using malloc_grows [OF m _ length_peek assms(2,3), of ?sz m' b ?p] into(2,3)
      by (simp add: unat_ptr_offset)
  next
    case out
    have "unat ?sz \<le> unat (slot_size s)" by (simp add: unsigned_ucast_eq unsigned_take_bit_eq take_bit_nat_less_eq_self)
    then have n: "unat (slot_size s) = unat ?sz" using out(1) by (simp add: word_le_nat_alt unat_ptr_offset)
    have "b \<noteq> 0 \<or> (ucast ?sz :: u64) = 0" using out(2) by auto
    from malloc_grows [OF m this _ assms(2,3), of "replicate (unat (slot_size s)) 0" ?sz ?p]
    show ?thesis using out(3,4) n by (simp add: unat_ptr_offset)
  qed
qed

lemma fetch_params_grows:
  assumes "malloc_ok env"
  shows "fetch_params env read types i ss ps w = Some (Some (ps', w')) \<Longrightarrow> heap_ok w \<Longrightarrow> length ps = length ss \<Longrightarrow>
    grows env w w' \<and> length ps' = length ss \<and>
    (\<forall>k < length ss. memref_type (TEE_PARAM_TYPE_GET types (i + k)) \<longrightarrow> own_block w w' (ps' ! k))"
proof (induction ss arbitrary: i ps ps' w)
  case Nil
  then show ?case by (auto simp: grows_def survives_def)
next
  case (Cons s ss)
  then obtain p ps0 where ps: "ps = p # ps0" by (cases ps) auto
  let ?t = "\<lambda>k. TEE_PARAM_TYPE_GET types k"
  from Cons.prems(1) obtain p1 w1 ps1 where h: "fetch_param env (read i) (?t i) s p w = Some (Some (p1, w1))"
    and t: "fetch_params env read types (i + 1) ss ps0 w1 = Some (Some (ps1, w'))" and ps': "ps' = p1 # ps1"
    by (auto simp: ps split: option.split_asm)
  note one = fetch_param_grows [OF h Cons.prems(2) assms]
  then have "heap_ok w1" by (simp add: grows_def)
  note rest = Cons.IH [OF t this] Cons.prems(3)
  have len: "length ps1 = length ss" and g: "grows env w1 w'"
    and tl: "\<And>k. k < length ss \<Longrightarrow> memref_type (?t (i + 1 + k)) \<Longrightarrow> own_block w1 w' (ps1 ! k)"
    using rest ps by simp_all
  have "own_block w w' (ps' ! k)" if k: "k < length (s # ss)" "memref_type (?t (i + k))" for k
    using tl [of "k - 1"] one k own_block_grows [OF g] by (cases k) (simp_all add: ps')
  then show ?case using one g grows_trans len by (auto simp: ps')
qed

text \<open>On the way out the enclave only frees the blocks of the parameters.\<close>

definition free_clear :: "world \<Rightarrow> u32 \<Rightarrow> TEE_Param \<Rightarrow> bool" where
  "free_clear w t p \<longleftrightarrow>
     (memref_type t \<longrightarrow> (\<forall>i < 2. ub_ptr (suit_manifests w ! i) = memref_buffer p \<longrightarrow> memref_buffer p = 0))"

lemma return_param_keeps:
  assumes r: "return_param edge wr t p s w h = Some (s', w', h')" and h: "heap_ok w" and c: "free_clear w t p"
  shows "keeps_manifests w w' \<and> heap_ok w' \<and> set (w_blocks w') \<subseteq> set (w_blocks w)"
proof -
  consider (other) "w' = w" | (freed) "memref_type t" "free_block w (memref_buffer p) = Some w'"
    using r by (auto simp: return_param_def memref_type_def Let_def split: if_split_asm option.split_asm)
  then show ?thesis
  proof cases
    case other
    then show ?thesis using h by simp
  next
    case freed
    then show ?thesis using free_foreign [OF freed(2) h] c by (simp add: free_clear_def)
  qed
qed

lemma free_clear_keeps: "free_clear w t p \<Longrightarrow> keeps_manifests w w' \<Longrightarrow> free_clear w' t p"
  by (simp add: free_clear_def keeps_manifests_def)

lemma return_params_keeps:
  "return_params edge wr types i ps ss w h = Some (ss', w', h') \<Longrightarrow> heap_ok w \<Longrightarrow> length ps = length ss \<Longrightarrow>
     \<forall>k < length ps. free_clear w (TEE_PARAM_TYPE_GET types (i + k)) (ps ! k) \<Longrightarrow>
     keeps_manifests w w' \<and> heap_ok w' \<and> set (w_blocks w') \<subseteq> set (w_blocks w)"
proof (induction ps arbitrary: i ss ss' w h)
  case (Cons p ps)
  then obtain s ss0 where ss: "ss = s # ss0" by (cases ss) auto
  from Cons.prems(1) obtain s1 w1 h1 ss1 where r: "return_param edge (wr i) (TEE_PARAM_TYPE_GET types i) p s w h = Some (s1, w1, h1)"
    and t: "return_params edge wr types (i + 1) ps ss0 w1 h1 = Some (ss1, w', h')"
    by (auto simp: ss split: option.split_asm)
  have "free_clear w (TEE_PARAM_TYPE_GET types i) p" using Cons.prems(4) by auto
  note one = return_param_keeps [OF r Cons.prems(2) this]
  have "free_clear w1 (TEE_PARAM_TYPE_GET types (i + 1 + k)) (ps ! k)" if "k < length ps" for k
    using Cons.prems(4) that one free_clear_keeps by (auto dest: spec [of _ "Suc k"])
  from Cons.IH [OF t] this one Cons.prems(3) keeps_manifests_trans show ?case by (auto simp: ss)
qed auto

text \<open>A round of the enclave, for any host: any command, any pieces, any way to take what is written.\<close>

lemma eapp_command_reachable:
  assumes r: "reachable env w s" and mal: "malloc_ok env"
    and call: "eapp_command env edge read wr raw c h w (Some s) = Some (Some (c', res, h', w', s'))"
    and len: "length raw = 4" "length (cmd_slots c) = 4" and live: "manifests_live w'"
  shows "reachable env w' s'"
proof -
  have ok: "agent_ok env w s" by (rule reachable_ok [OF r mal])
  then have hp: "heap_ok w" "manifests_live w" by (simp_all add: agent_ok_def)
  let ?t = "TEE_PARAM_TYPE_GET (cmd_types c)"
  obtain ps w1 ps2 w2 ss where fetch: "fetch_params env read (cmd_types c) 0 (cmd_slots c) raw w = Some (Some (ps, w1))"
    and invoke: "TA_InvokeCommandEntryPoint env w1 s (cmd_number c) (cmd_types c) ps = Some (Some (res, w2, s', ps2))"
    and ret: "return_params edge wr (cmd_types c) 0 ps2 (cmd_slots c) w2 h = Some (ss, w', h')"
    using call by (auto simp: eapp_command_def split: option.split_asm prod.split_asm)
  from fetch_params_grows [OF mal fetch hp(1)] len
  have g: "grows env w w1" and pslen: "length ps = 4" and own: "\<And>k. k < 4 \<Longrightarrow> memref_type (?t k) \<Longrightarrow> own_block w w1 (ps ! k)"
    by simp_all
  have r1: "reachable env w1 s" using reach_outside [OF r grows_keeps [OF g]] g by (simp add: grows_def)
  have c1: "clear_of_manifests w1 (cmd_types c) ps"
    unfolding clear_of_manifests_def pslen
  proof (intro allI impI)
    fix k i :: nat
    assume "k < 4" "i < 2" "?t k = TEE_PARAM_TYPE_MEMREF_OUTPUT" "manifest_block w1 i \<in> set (w_blocks w1)"
    then show "block_bytes (memref_buffer (ps ! k), ucast (memref_size (ps ! k))) \<inter> block_bytes (manifest_block w1 i) = {}"
      using own [of k] by (intro own_block_clear [OF _ g hp(2,1)]) (simp_all add: memref_type_def)
  qed
  note kept = invoke_keeps [OF invoke reachable_ok [OF r1 mal] mal pslen c1]
  have "free_clear w2 (?t k) (ps2 ! k)" if k: "k < 4" for k
    unfolding free_clear_def
  proof (intro impI allI)
    fix i :: nat
    assume "i < 2" "memref_type (?t k)" "ub_ptr (suit_manifests w2 ! i) = memref_buffer (ps2 ! k)"
    moreover have "shrinks (ps ! k) (ps2 ! k)" using kept pslen k by (auto dest: list_all2_nthD)
    ultimately show "memref_buffer (ps2 ! k) = 0"
      using own [OF k] own_block_foreign [OF _ g hp(2,1)] kept
      by (fastforce simp: keeps_foreign_def foreign_def shrinks_def)
  qed
  moreover have "length ps2 = 4" using kept pslen by (auto dest: list_all2_lengthD)
  ultimately have w3: "keeps_manifests w2 w' \<and> heap_ok w' \<and> set (w_blocks w') \<subseteq> set (w_blocks w2)"
    using return_params_keeps [OF ret] kept len by simp
  then have "reachable env w2 s'"
    using reach_invoke [OF r1 invoke pslen c1] manifests_live_mono [OF live] by blast
  then show ?thesis using reach_outside w3 by blast
qed

text \<open>The sessions of an enclave whose host is not trusted.\<close>

inductive enclave_reaches ::
    "('d, 'pk) agent_env \<Rightarrow> edge_types \<Rightarrow> world \<Rightarrow> teep_agent_session \<Rightarrow> bool" for env edge where
  enclave_open: "fresh_world w \<Longrightarrow> TA_OpenSessionEntryPoint env w raw 0 = (r, Some s, w') \<Longrightarrow>
    enclave_reaches env edge w' s"
| enclave_command: "enclave_reaches env edge w s \<Longrightarrow>
    eapp_command env edge read wr raw c (h :: unit) w (Some s) = Some (Some (c', r, h', w', s')) \<Longrightarrow>
    length raw = 4 \<Longrightarrow> length (cmd_slots c) = 4 \<Longrightarrow> manifests_live w' \<Longrightarrow> enclave_reaches env edge w' s'"

lemma enclave_reachable: "enclave_reaches env edge w s \<Longrightarrow> malloc_ok env \<Longrightarrow> reachable env w s"
proof (induction rule: enclave_reaches.induct)
  case (enclave_open w raw r s w')
  then show ?case by (blast intro: reach_open)
next
  case (enclave_command w s read wr raw c h c' r h' w' s')
  then show ?case by (blast intro: eapp_command_reachable)
qed

text \<open>
  The queue of the host is one such host: in a run of the two threads the session can be reached, as
  long as no stored manifest is lost on the way.
\<close>

definition stays_live ::
    "('d, 'pk) agent_env \<Rightarrow> edge_types \<Rightarrow> teep_agent_session \<Rightarrow> TEE_Param list \<Rightarrow> keystone_state \<Rightarrow>
     keystone_event list \<Rightarrow> bool" where
  "stays_live env edge raw_session raw st0 es \<longleftrightarrow>
     (\<forall>es1 es2 st. es = es1 @ es2 \<longrightarrow> keystone_run env edge raw_session raw st0 es1 st \<longrightarrow> manifests_live (ks_world st))"

lemma stays_live_append: "stays_live env edge raw_session raw st0 (es @ [e]) \<Longrightarrow> stays_live env edge raw_session raw st0 es"
  unfolding stays_live_def by (metis append_assoc)

lemma stays_live_end:
  "stays_live env edge raw_session raw st0 es \<Longrightarrow> keystone_run env edge raw_session raw st0 es st \<Longrightarrow> manifests_live (ks_world st)"
  unfolding stays_live_def by (metis append_Nil2)

lemma command_has_four_slots:
  "length (cmd_slots (queue_command (host_queue (put_invoke_command edge number operation h)))) = 4"
  by (simp add: put_invoke_command_def Let_def)

lemma busy_has_four_slots:
  assumes "phase env edge raw_session raw x0 st es" and "ks_enclave_pc st = Enclave_busy c"
  shows "length (cmd_slots c) = 4"
  using assms
  by (cases rule: phase.cases)
    (auto simp: on_call_def idle_def called_def command_has_four_slots split: prod.split_asm)

lemma keystone_run_reachable:
  assumes "fresh_world w" and "malloc_ok env" and "length raw = 4"
  shows "keystone_run env edge raw_session raw (keystone_init h w) es st \<Longrightarrow>
    stays_live env edge raw_session raw (keystone_init h w) es \<Longrightarrow> ks_enclave_pc st \<noteq> Enclave_gone \<Longrightarrow>
    (ks_enclave_pc st = Enclave_start \<longrightarrow> ks_world st = w \<and> ks_session st = None) \<and>
    (\<forall>s. ks_session st = Some s \<longrightarrow> reachable env (ks_world st) s)"
proof (induction "keystone_init h w" es st rule: keystone_run.induct)
  case run_none
  then show ?case by (simp add: keystone_init_def)
next
  case (run_step es st1 e st2)
  have live: "manifests_live (ks_world st2)"
    using stays_live_end [OF run_step.prems(1) keystone_run.run_step [OF run_step.hyps(1,3)]] .
  have "ks_enclave_pc st1 \<noteq> Enclave_gone"
    using run_step.hyps(3) run_step.prems(2) by (cases rule: keystone_step.cases) auto
  note ih = run_step.hyps(2) [OF stays_live_append [OF run_step.prems(1)] this]
  from run_step.hyps(3) show ?case
  proof (cases rule: keystone_step.cases)
    case (step_start r so w1)
    then show ?thesis using ih assms(1) by (auto intro: reach_open)
  next
    case (step_serve c h1 w1 s1)
    obtain r0 so w0 where t: "TA_OpenSessionEntryPoint env w raw_session 0 = (r0, so, w0)" by (rule prod_cases3)
    have len: "length (cmd_slots c) = 4"
      by (rule busy_has_four_slots [OF phase_run [OF run_step.hyps(1) t] step_serve(3)])
    obtain c' r h0 where e: "eapp_command env edge (read_invoke_param edge (ks_host st1)) write_invoke_param raw c
        (ks_host st1) (ks_world st1) (ks_session st1) = Some (Some (c', r, h0, w1, s1))"
      using step_serve(5) by (auto simp: serve_command_def split: option.split_asm)
    then obtain s where s: "ks_session st1 = Some s"
      by (cases "ks_session st1") (auto simp: eapp_command_def split: option.split_asm prod.split_asm)
    have "reachable env w1 s1"
      using eapp_command_reachable [OF _ assms(2) e [unfolded s] assms(3) len] ih s live step_serve(2) by simp
    then show ?thesis using step_serve(2) by simp
  qed (use ih run_step.prems(2) in auto)
qed

end
