(* ===== verification/Keystone_Properties.thy ===== *)
theory Keystone_Properties
  imports Keystone_Proofs Agent_Sample
begin

text \<open>
  The properties of the client API on Keystone: the two threads, the buffers of a command, and an
  agent whose host is not trusted.
\<close>

section \<open>A host for the witnesses\<close>

text \<open>Pieces of a single byte; an operation with a string of two bytes and its NUL; a host at rest.\<close>

definition narrow_edge :: edge_types where
  "narrow_edge = \<lparr>edge_buf = 1, edge_size = (\<lambda>n. n)\<rparr>"

definition null_param :: TEEC_Parameter where
  "null_param = \<lparr>op_a = 0, op_b = 0, tmpref_buffer = 0, tmpref_size = 0\<rparr>"

definition string_operation :: "u32 \<Rightarrow> TEEC_Operation" where
  "string_operation types =
     \<lparr>paramTypes = types, op_params = [null_param, null_param\<lparr>tmpref_buffer := 0x300, tmpref_size := 3\<rparr>, null_param, null_param]\<rparr>"

definition resting_host :: keystone_host where
  "resting_host =
     \<lparr>host_memory = mem_of 0x300 [0x61, 0x62, 0],
      host_operation = string_operation 0,
      host_queue = \<lparr>queue_command = \<lparr>cmd_number = 0, cmd_types = 0, cmd_slots = []\<rparr>, queue_operation = False,
        queue_result = 0, queue_invoking = False\<rparr>\<rparr>"

definition four_params :: "TEE_Param list" where
  "four_params = [no_param, no_param, no_param, no_param]"

lemma sample_bytes: "peek (mem_of 0x300 [0x61, 0x62, 0]) 0x300 3 = [0x61, 0x62, 0]"
  by (simp add: peek_numeral mem_of_def)

text \<open>A command the agent does not know, without parameters.\<close>

definition unknown_call :: keystone_call where
  "unknown_call = (7, string_operation 0, mem_of 0x300 [0x61, 0x62, 0])"

definition unknown_done :: keystone_host where
  "unknown_done = (called narrow_edge unknown_call resting_host)
     \<lparr>host_queue := \<lparr>queue_command = queue_command (host_queue (called narrow_edge unknown_call resting_host)),
        queue_operation = False, queue_result = TEE_ERROR_NOT_IMPLEMENTED, queue_invoking = False\<rparr>\<rparr>"

lemma upt_four: "[0 ..< 4] = [0, 1, 2, 3 :: nat]"
  by (simp add: upt_conv_Cons)

lemma unknown_served:
  "serve_command env narrow_edge four_params (queue_command (host_queue (called narrow_edge unknown_call resting_host)))
     (called narrow_edge unknown_call resting_host) w (Some s) = Some (Some (unknown_done, w, s))"
  by (simp add: serve_command_def eapp_command_def called_def unknown_call_def put_invoke_command_def upt_four
      string_operation_def null_param_def command_slot_of_def TEEC_PARAM_TYPE_GET_def TEE_PARAM_TYPE_GET_def
      four_params_def fetch_param_def no_param_def TA_InvokeCommandEntryPoint_def return_param_def
      put_invoke_command_result_def result_type_def result_param_def unknown_done_def resting_host_def Let_def)

text \<open>The enclave has started, and then the call has been made.\<close>

definition opened_world :: world where
  "opened_world = run_world (w_memory start_world) [(0x100000, 0x2000)]"

lemma session_opened:
  "TA_OpenSessionEntryPoint session_env start_world raw_session 0 = (TEE_SUCCESS, Some opened_session, opened_world)"
  by (simp add: TA_OpenSessionEntryPoint_def TEE_PARAM_TYPES_def teep_agent_session_create_def malloc_block_def
      session_env_def bump_malloc_def opened_session_def opened_world_def run_world_def start_world_def raw_session_def Let_def)

lemma resting_init: "ks_host (keystone_init resting_host start_world) = resting_host"
  by (simp add: keystone_init_def resting_host_def)

lemma unknown_sequence:
  "sequential_calls env narrow_edge four_params [unknown_call] (resting_host, w, Some s) =
     Some ([call_outcome unknown_done], unknown_done, w, Some s)"
  by (simp add: sequential_call_def unknown_served Let_def)

lemma unknown_called:
  "\<exists>es st. keystone_run session_env narrow_edge raw_session four_params (keystone_init resting_host start_world) es st \<and>
     ks_host_pc st = Host_waiting \<and> calls_of es = [unknown_call]"
proof -
  let ?st0 = "keystone_init resting_host start_world"
  let ?st1 = "?st0\<lparr>ks_enclave_pc := Enclave_pulling, ks_world := opened_world, ks_session := Some opened_session\<rparr>"
  have "keystone_run session_env narrow_edge raw_session four_params ?st0 [Start] ?st1"
    by (rule keystone_run_one, rule step_start) (simp_all add: keystone_init_def session_opened)
  moreover have "keystone_step session_env narrow_edge raw_session four_params ?st1
      (Call 7 (string_operation 0) (mem_of 0x300 [0x61, 0x62, 0]))
      (?st1\<lparr>ks_host_pc := Host_waiting, ks_host := put_invoke_command narrow_edge 7 (Some (string_operation 0))
         ((ks_host ?st1)\<lparr>host_memory := mem_of 0x300 [0x61, 0x62, 0]\<rparr>)\<rparr>)"
    by (rule step_call) (simp_all add: keystone_init_def)
  ultimately show ?thesis using keystone_run.run_step by (fastforce simp: unknown_call_def)
qed

lemma unknown_answered:
  "\<exists>es st. keystone_run session_env narrow_edge raw_session four_params (keystone_init resting_host start_world) es st \<and>
     ks_host_pc st = Host_ready \<and> calls_of es = [unknown_call]"
proof -
  obtain es st where r: "keystone_run session_env narrow_edge raw_session four_params (keystone_init resting_host start_world) es st"
    "ks_host_pc st = Host_waiting" "calls_of es = [unknown_call]" using unknown_called by blast
  have "sequential_calls session_env narrow_edge four_params (calls_of es)
      (ks_host (keystone_init resting_host start_world), opened_world, Some opened_session) =
      Some ([call_outcome unknown_done], unknown_done, opened_world, Some opened_session)"
    unfolding r(3) resting_init by (rule unknown_sequence)
  from phase_answers [OF phase_run [OF r(1) session_opened] r(2) this]
  obtain es' st' where a: "keystone_run session_env narrow_edge raw_session four_params st es' st'" "ks_host_pc st' = Host_ready"
    "calls_of es' = []" by blast
  from keystone_run_trans [OF a(1) r(1)] a(2,3) r(3) show ?thesis
    by (intro exI [of _ "es @ es'"] exI [of _ st'] conjI) simp_all
qed

section \<open>The threads\<close>

text \<open>
  C6. Host and enclave, each at its own pace, do what the calls do one after the other: whenever the
  host is between two calls, the results it was given, its memory and queue, and the world and the
  session of the enclave are those of the calls in sequence.
\<close>

theorem threads_run_in_sequence:
  assumes "keystone_run env edge raw_session raw (keystone_init h w) es st"
    and "TA_OpenSessionEntryPoint env w raw_session 0 = (r, so, w1)" and "ks_host_pc st = Host_ready"
  shows "sequential_calls env edge raw (calls_of es) (ks_host (keystone_init h w), w1, so) =
    Some (returns_of es, (ks_host st, started env raw_session st))"
  using phase_run [OF assms(1,2)] assms(3) by (cases rule: phase.cases) auto

theorem threads_run_in_sequence_witness:
  "\<exists>es (st :: keystone_state). calls_of es = [unknown_call] \<and> returns_of es = [call_outcome unknown_done] \<and>
     ks_host st = unknown_done \<and> ks_host_pc st = Host_ready"
proof -
  obtain es st where r: "keystone_run session_env narrow_edge raw_session four_params (keystone_init resting_host start_world) es st"
    "ks_host_pc st = Host_ready" "calls_of es = [unknown_call]" using unknown_answered by blast
  have "sequential_calls session_env narrow_edge four_params [unknown_call] (resting_host, opened_world, Some opened_session) =
      Some (returns_of es, (ks_host st, started session_env raw_session st))"
    using threads_run_in_sequence [OF r(1) session_opened r(2)] r(3) resting_init by simp
  then show ?thesis
    unfolding unknown_sequence using r(2,3) by (intro exI [of _ es] exI [of _ st] conjI) simp_all
qed

text \<open>
  C20. There is nothing to race for: while the enclave works on a command, the command is the one in
  the queue and the host waits, and a host that waits leaves at most one step to be taken.
\<close>

theorem one_thread_at_a_time:
  assumes "keystone_run env edge raw_session raw (keystone_init h w) es st"
  shows "(\<forall>c. ks_enclave_pc st = Enclave_busy c \<longrightarrow>
      queue_invoking (host_queue (ks_host st)) \<and> c = queue_command (host_queue (ks_host st)) \<and>
      ks_host_pc st \<in> {Host_waiting, Host_closing}) \<and>
    (\<forall>e1 st1 e2 st2. ks_host_pc st = Host_waiting \<longrightarrow> keystone_step env edge raw_session raw st e1 st1 \<longrightarrow>
       keystone_step env edge raw_session raw st e2 st2 \<longrightarrow> e1 = e2 \<and> st1 = st2)"
proof -
  obtain r so w1 where "TA_OpenSessionEntryPoint env w raw_session 0 = (r, so, w1)" by (rule prod_cases3)
  from phase_run [OF assms this] show ?thesis using phase_exclusive phase_deterministic by blast
qed

theorem one_thread_at_a_time_witness:
  "\<exists>st. ks_host_pc st = Host_waiting \<and>
     (\<forall>e1 st1 e2 st2. keystone_step session_env narrow_edge raw_session four_params st e1 st1 \<longrightarrow>
        keystone_step session_env narrow_edge raw_session four_params st e2 st2 \<longrightarrow> e1 = e2 \<and> st1 = st2)"
proof -
  obtain es st where r: "keystone_run session_env narrow_edge raw_session four_params (keystone_init resting_host start_world) es st"
    "ks_host_pc st = Host_waiting" using unknown_called by blast
  show ?thesis using one_thread_at_a_time [OF r(1)] r(2) by (intro exI [of _ st]) simp
qed

text \<open>
  C21. A call that has been made is answered: if the calls so far have results in sequence, the threads
  get to the end of the last one, with that result, without another call.
\<close>

theorem calls_are_answered:
  assumes "keystone_run env edge raw_session raw (keystone_init h w) es st"
    and "TA_OpenSessionEntryPoint env w raw_session 0 = (r, so, w1)" and "ks_host_pc st = Host_waiting"
    and "sequential_calls env edge raw (calls_of es) (ks_host (keystone_init h w), w1, so) = Some (rs, x)"
  shows "\<exists>es' st'. keystone_run env edge raw_session raw (keystone_init h w) (es @ es') st' \<and>
    ks_host_pc st' = Host_ready \<and> calls_of es' = [] \<and> returns_of (es @ es') = rs"
proof -
  obtain es' st' where "keystone_run env edge raw_session raw st es' st'" "ks_host_pc st' = Host_ready"
    "calls_of es' = []" "returns_of es @ returns_of es' = rs"
    using phase_answers [OF phase_run [OF assms(1,2)] assms(3,4)] by blast
  with keystone_run_trans [OF this(1) assms(1)] show ?thesis by auto
qed

theorem calls_are_answered_witness:
  "\<exists>es st. keystone_run session_env narrow_edge raw_session four_params (keystone_init resting_host start_world) es st \<and>
     ks_host_pc st = Host_ready \<and> returns_of es = [call_outcome unknown_done]"
proof -
  obtain es st where r: "keystone_run session_env narrow_edge raw_session four_params (keystone_init resting_host start_world) es st"
    "ks_host_pc st = Host_waiting" "calls_of es = [unknown_call]" using unknown_called by blast
  have "sequential_calls session_env narrow_edge four_params (calls_of es)
      (ks_host (keystone_init resting_host start_world), opened_world, Some opened_session) =
      Some ([call_outcome unknown_done], unknown_done, opened_world, Some opened_session)"
    unfolding r(3) resting_init by (rule unknown_sequence)
  from calls_are_answered [OF r(1) session_opened r(2) this] show ?thesis by blast
qed

section \<open>The buffers\<close>

text \<open>
  C22. A buffer that goes in arrives: behind the call of the host, the loop over the pieces ends with a
  block that holds the bytes of the buffer, whatever a piece can hold.
\<close>

theorem input_buffer_arrives:
  fixes op :: TEEC_Operation and i :: nat
  defines "q \<equiv> op_params op ! i"
  assumes "i < 4" and "0 < edge_buf edge" and "\<And>n. (ucast (edge_size edge n) :: u32) = ucast n"
    and "TEEC_PARAM_TYPE_GET (paramTypes op) i \<in> {TEEC_MEMREF_TEMP_INPUT, TEEC_MEMREF_TEMP_INOUT}"
    and "unat (tmpref_size q) < 2 ^ 32"
    and "env_malloc env (w_blocks w) (tmpref_size q) = b" and "b \<noteq> 0"
    and "put_invoke_command edge number (Some op) h = h1" and "queue_command (host_queue h1) = c"
  shows "fetch_param env (read_invoke_param edge h1 i) (TEE_PARAM_TYPE_GET (cmd_types c) i) (cmd_slots c ! i) p w =
    Some (Some (p\<lparr>value_a := 0, value_b := 0, memref_buffer := b, memref_size := ucast (tmpref_size q)\<rparr>,
      w\<lparr>w_blocks := (b, tmpref_size q) # w_blocks w,
        w_memory := copy_bytes (w_memory w) b (peek (host_memory h) (tmpref_buffer q) (unat (tmpref_size q)))\<rparr>))"
proof -
  have h1: "host_operation h1 = op" "host_memory h1 = host_memory h" "queue_operation (host_queue h1)"
    "cmd_types c = paramTypes op" "cmd_slots c ! i = command_slot_of edge (TEEC_PARAM_TYPE_GET (paramTypes op) i) q"
    using assms(2,9,10) unfolding q_def by (auto simp: put_invoke_command_def Let_def)
  have q: "host_ref h1 i = q" by (simp add: host_ref_def h1 q_def)
  have buf: "host_buffer i h1 = peek (host_memory h) (tmpref_buffer q) (unat (tmpref_size q))"
    by (simp add: host_buffer_def q h1)
  have slot: "(ucast (slot_size (cmd_slots c ! i)) :: u32) = ucast (tmpref_size q)"
    using assms(4,5) by (auto simp: h1 command_slot_of_def Let_def)
  have t: "TEE_PARAM_TYPE_GET (cmd_types c) i = TEE_PARAM_TYPE_MEMREF_INPUT \<or>
      TEE_PARAM_TYPE_GET (cmd_types c) i = TEE_PARAM_TYPE_MEMREF_INOUT"
    using assms(5) by (auto simp: h1 TEE_PARAM_TYPE_GET_def TEEC_PARAM_TYPE_GET_def)
  have wide: "(ucast (ucast (tmpref_size q) :: u32) :: u64) = tmpref_size q"
    using unat_ucast_small [OF assms(6)] by (simp only: word_unat_eq_iff unat_ptr_offset)
  have len: "(of_nat (length (host_buffer i h1)) :: u32) = ucast (tmpref_size q)"
    "(of_nat (length (host_buffer i h1)) :: u64) = tmpref_size q"
    using assms(6) by (simp_all add: buf)
  have "host_usable edge i h1" using assms(3,6) by (simp add: host_usable_def h1 q)
  from input_arrives [OF this _ assms(8) _ t, of env w "cmd_slots c ! i" p] show ?thesis
    using assms(7) unfolding slot wide len unfolding buf by simp
qed

theorem input_buffer_arrives_witness:
  "fetch_param session_env
     (read_invoke_param narrow_edge (put_invoke_command narrow_edge 3 (Some (string_operation 0x51)) resting_host) 1)
     TEE_PARAM_TYPE_MEMREF_INPUT \<lparr>slot_a = 0, slot_b = 0, slot_size = 3\<rparr> no_param start_world =
   Some (Some (no_param\<lparr>value_a := 0, value_b := 0, memref_buffer := 0x100000, memref_size := 3\<rparr>,
     start_world\<lparr>w_blocks := [(0x100000, 3)], w_memory := copy_bytes (w_memory start_world) 0x100000 [0x61, 0x62, 0]\<rparr>))"
proof -
  let ?op = "string_operation 0x51"
  let ?h = "put_invoke_command narrow_edge 3 (Some ?op) resting_host"
  let ?c = "queue_command (host_queue ?h)"
  have q: "op_params ?op ! 1 = null_param\<lparr>tmpref_buffer := 0x300, tmpref_size := 3\<rparr>" "paramTypes ?op = 0x51"
    by (simp_all add: string_operation_def)
  have c: "cmd_slots ?c ! 1 = \<lparr>slot_a = 0, slot_b = 0, slot_size = 3\<rparr>"
    "TEE_PARAM_TYPE_GET (cmd_types ?c) 1 = TEE_PARAM_TYPE_MEMREF_INPUT"
    by (simp_all add: put_invoke_command_def Let_def string_operation_def command_slot_of_def narrow_edge_def TEEC_PARAM_TYPE_GET_def
        TEE_PARAM_TYPE_GET_def)
  have b: "bump_malloc [] 3 = 0x100000" by (simp add: bump_malloc_def)
  have m: "peek (host_memory resting_host) 0x300 3 = [0x61, 0x62, 0]"
    by (simp add: resting_host_def sample_bytes)
  have w: "w_blocks start_world = []" by (simp add: start_world_def)
  show ?thesis
    using input_buffer_arrives [of 1 narrow_edge ?op session_env start_world "0x100000" 3 resting_host ?h ?c no_param]
    unfolding c q
    by (simp add: narrow_edge_def b m w string_operation_def TEEC_PARAM_TYPE_GET_def)
qed

text \<open>
  C23. A buffer that comes out is in the place the host has given, up to the size the agent has left,
  and nothing else of the memory of the host has changed.
\<close>

theorem output_buffer_returns:
  assumes "host_usable edge i h" and "unat sz \<le> unat (tmpref_size (host_ref h i))"
  shows "\<exists>h'. return_loop (write_invoke_param i) m buffer sz 0 h = Some h' \<and>
    peek (host_memory h') (tmpref_buffer (host_ref h i)) (unat (tmpref_size (host_ref h i))) =
      peek m buffer (unat sz) @ drop (unat sz) (host_buffer i h) \<and>
    (\<forall>a. a \<notin> block_bytes (tmpref_buffer (host_ref h i), tmpref_size (host_ref h i)) \<longrightarrow> host_memory h' a = host_memory h a)"
proof -
  obtain h' where h': "return_loop (write_invoke_param i) m buffer sz 0 h = Some h'"
    "host_buffer i h' = peek m buffer (unat sz) @ drop (unat sz) (host_buffer i h)"
    using host.returned [OF assms(1), of 0 sz m buffer] assms(2) by (auto simp: host_buffer_def)
  from return_loop_inside [OF h'(1)] have "host_ref h' i = host_ref h i"
    "\<forall>a. a \<notin> block_bytes (tmpref_buffer (host_ref h i), tmpref_size (host_ref h i)) \<longrightarrow> host_memory h' a = host_memory h a"
    by (simp_all add: host_ref_def)
  then show ?thesis using h' by (auto simp: host_buffer_def)
qed

theorem output_buffer_returns_witness:
  "\<exists>h'. return_loop (write_invoke_param 1) (mem_of 0x40 [0x7A, 0x7B]) 0x40 2 0
      (put_invoke_command narrow_edge 3 (Some (string_operation 0x60)) resting_host) = Some h' \<and>
     peek (host_memory h') 0x300 3 = [0x7A, 0x7B, 0] \<and> host_memory h' 0x303 = 0"
proof -
  let ?h = "put_invoke_command narrow_edge 3 (Some (string_operation 0x60)) resting_host"
  have q: "host_ref ?h 1 = null_param\<lparr>tmpref_buffer := 0x300, tmpref_size := 3\<rparr>"
    by (simp add: host_ref_def put_invoke_command_def string_operation_def Let_def)
  have u: "host_usable narrow_edge 1 ?h"
    unfolding host_usable_def q by (simp add: put_invoke_command_def narrow_edge_def Let_def)
  have m: "host_memory ?h = mem_of 0x300 [0x61, 0x62, 0]"
    by (simp add: put_invoke_command_def resting_host_def Let_def)
  have buf: "host_buffer 1 ?h = [0x61, 0x62, 0]"
    unfolding host_buffer_def q m by (simp add: sample_bytes)
  have out: "peek (mem_of 0x40 [0x7A, 0x7B]) 0x40 2 = [0x7A, 0x7B]"
    by (simp add: eval_nat_numeral mem_of_def)
  have "(0x303 :: ptr) \<notin> block_bytes (0x300, 3)" by (simp add: block_bytes_def)
  moreover have "host_memory ?h 0x303 = 0" unfolding m by (simp add: mem_of_def Let_def)
  ultimately show ?thesis
    using output_buffer_returns [OF u, of 2 "mem_of 0x40 [0x7A, 0x7B]" "0x40"] unfolding q buf
    by (auto simp: out)
qed

section \<open>An agent whose host is not trusted\<close>



text \<open>
  And the other way round: wherever the enclave wants to write and whatever it sends, only the
  buffer of the parameter changes.
\<close>

theorem host_memory_is_safe:
  assumes "write_invoke_param i offset buf h = Some h'"
    and "a \<notin> block_bytes (tmpref_buffer (host_ref h i), tmpref_size (host_ref h i))"
  shows "host_memory h' a = host_memory h a \<and> host_operation h' = host_operation h \<and> host_queue h' = host_queue h"
  by (rule write_stays_inside [OF assms])

theorem host_memory_is_safe_witness:
  "\<exists>h'. write_invoke_param 1 2 [1, 2, 3, 4, 5]
      (put_invoke_command narrow_edge 3 (Some (string_operation 0x60)) resting_host) = Some h' \<and> host_memory h' 0x303 = 0"
proof -
  let ?h = "put_invoke_command narrow_edge 3 (Some (string_operation 0x60)) resting_host"
  have q: "host_ref ?h 1 = null_param\<lparr>tmpref_buffer := 0x300, tmpref_size := 3\<rparr>"
    by (simp add: host_ref_def put_invoke_command_def string_operation_def Let_def)
  obtain h' where w: "write_invoke_param 1 2 [1, 2, 3, 4, 5] ?h = Some h'"
    by (simp add: write_invoke_param_def put_invoke_command_def string_operation_def Let_def)
  have "host_memory ?h 0x303 = 0" by (simp add: put_invoke_command_def resting_host_def mem_of_def Let_def)
  then have "host_memory h' 0x303 = 0"
    using host_memory_is_safe [OF w, of "0x303"] unfolding q by (simp add: block_bytes_def)
  with w show ?thesis by blast
qed

end
