(* ===== verification/Teec_Sgx.thy ===== *)
theory Teec_Sgx
  imports Teec_Pc
begin

text \<open>
  The client API on SGX, \<^verbatim>\<open>teep-broker-app/teec-sgx.cpp\<close>, and the calls into the enclave behind it, the
  last part of \<^verbatim>\<open>teep-agent-ta/teep-agent-ta.c\<close>. Host and enclave share one address space: a parameter
  is four pointers into the operation of the host, which the enclave checks to be outside of it,
  reads, and writes back through. \<open>None\<close> stands for undefined behaviour.

  What the generated code and the SGX library decide is an argument: whether a call gets into the
  enclave, what is outside of it, how a size is read and written through its pointer, and what the
  other threads of the host make of the memory between the checks and the copies.
\<close>

unbundle bit_operations_syntax

section \<open>The environment\<close>

record sgx_env =
  sgx_creates :: bool
  sgx_enters :: bool
  sgx_is_outside_enclave :: "ptr \<Rightarrow> u64 \<Rightarrow> bool"
  size_get :: "memory \<Rightarrow> ptr \<Rightarrow> u64"
  size_put :: "memory \<Rightarrow> ptr \<Rightarrow> u32 \<Rightarrow> memory"
  host_race :: "memory \<Rightarrow> memory"

record command_param =
  cp_a :: ptr
  cp_b :: ptr
  cp_size :: ptr
  cp_p :: ptr

text \<open>Where the fields of a parameter of the operation are.\<close>

record param_at =
  at_a :: ptr
  at_b :: ptr
  at_size :: ptr

text \<open>A number of 32 bits in memory, little-endian.\<close>

definition get_u32 :: "memory \<Rightarrow> ptr \<Rightarrow> u32" where
  "get_u32 m p = of_nat (horner_sum unat 256 (peek m p 4))"

definition bytes_of_u32 :: "u32 \<Rightarrow> u8 list" where
  "bytes_of_u32 v = map (\<lambda>i. ucast (drop_bit (8 * i) v)) [0 ..< 4]"

text \<open>A copy to a null pointer is refused, one that does not fit clears the destination instead.\<close>

definition memcpy_s :: "memory \<Rightarrow> ptr \<Rightarrow> u64 \<Rightarrow> u8 list \<Rightarrow> memory" where
  "memcpy_s m dst n bs =
     (if dst = 0 then m
      else copy_bytes m dst (if unat n < length bs then replicate (unat n) 0 else bs))"

section \<open>The client\<close>

definition initialize_enclave :: "sgx_env \<Rightarrow> int" where
  "initialize_enclave sgx = (if sgx_creates sgx then 0 else -1)"

definition sgx_InitializeContext :: "sgx_env \<Rightarrow> TEEC_Result" where
  "sgx_InitializeContext sgx = (if initialize_enclave sgx < 0 then 0xFFFF0000 else TEEC_SUCCESS)"

definition is_value_type :: "u32 \<Rightarrow> bool" where
  "is_value_type t \<longleftrightarrow> t \<in> {TEE_PARAM_TYPE_VALUE_INPUT, TEE_PARAM_TYPE_VALUE_OUTPUT, TEE_PARAM_TYPE_VALUE_INOUT}"

definition is_memref_type :: "u32 \<Rightarrow> bool" where
  "is_memref_type t \<longleftrightarrow> t \<in> {TEE_PARAM_TYPE_MEMREF_INPUT, TEE_PARAM_TYPE_MEMREF_OUTPUT, TEE_PARAM_TYPE_MEMREF_INOUT}"

definition sgx_param :: "u32 \<Rightarrow> param_at \<Rightarrow> TEEC_Parameter \<Rightarrow> command_param" where
  "sgx_param t loc q =
     (let p = \<lparr>cp_a = 0, cp_b = 0, cp_size = 0, cp_p = 0\<rparr> in
      if is_value_type t then p\<lparr>cp_a := at_a loc, cp_b := at_b loc\<rparr>
      else if is_memref_type t then p\<lparr>cp_size := at_size loc, cp_p := tmpref_buffer q\<rparr>
      else p)"

definition sgx_prepare_params :: "param_at list \<Rightarrow> TEEC_Operation \<Rightarrow> u32 \<times> command_param list" where
  "sgx_prepare_params ats operation =
     (let type = (\<lambda>i. prepare_type (TEEC_PARAM_TYPE_GET (paramTypes operation) i));
          types = TEE_PARAM_TYPES (type 0) (type 1) (type 2) (type 3) in
      (types, map (\<lambda>i. sgx_param (TEE_PARAM_TYPE_GET types i) (ats ! i) (op_params operation ! i)) [0 ..< 4]))"

section \<open>The checks in the enclave\<close>

definition unique_pointer :: "sgx_env \<Rightarrow> ptr \<Rightarrow> u64 \<Rightarrow> bool" where
  "unique_pointer sgx p n \<longleftrightarrow> p = 0 \<or> sgx_is_outside_enclave sgx p n"

text \<open>
  A null pointer passes the check, so that the size is read through it: that is undefined. The second
  check uses the size as it is found in the memory of the host.
\<close>

definition check_param :: "sgx_env \<Rightarrow> memory \<Rightarrow> u32 \<Rightarrow> command_param \<Rightarrow> bool option" where
  "check_param sgx m t p =
     (if t = TEE_PARAM_TYPE_NONE then Some True
      else if is_value_type t then Some (unique_pointer sgx (cp_a p) 4 \<and> unique_pointer sgx (cp_b p) 4)
      else if is_memref_type t then
        if \<not> unique_pointer sgx (cp_size p) 4 then Some False
        else if cp_size p = 0 then None
        else Some (unique_pointer sgx (cp_p p) (size_get sgx m (cp_size p)))
      else Some False)"

fun check_params :: "sgx_env \<Rightarrow> memory \<Rightarrow> u32 \<Rightarrow> nat \<Rightarrow> command_param list \<Rightarrow> bool option" where
  "check_params sgx m types i [] = Some True"
| "check_params sgx m types i (p # ps) =
     (case check_param sgx m (TEE_PARAM_TYPE_GET types i) p of
        Some True \<Rightarrow> check_params sgx m types (i + 1) ps
      | x \<Rightarrow> x)"

section \<open>The copies\<close>

definition copyin_param ::
    "sgx_env \<Rightarrow> ('d, 'pk) agent_env \<Rightarrow> u32 \<Rightarrow> command_param \<Rightarrow> TEE_Param \<Rightarrow> world \<Rightarrow> (TEE_Param \<times> world) option" where
  "copyin_param sgx env t cp p w =
     (let p = p\<lparr>value_a := 0, value_b := 0, memref_buffer := 0\<rparr> in
      if t = TEE_PARAM_TYPE_VALUE_INPUT \<or> t = TEE_PARAM_TYPE_VALUE_INOUT then
        (if cp_a cp = 0 \<or> cp_b cp = 0 then None
         else Some (p\<lparr>value_a := get_u32 (w_memory w) (cp_a cp), value_b := get_u32 (w_memory w) (cp_b cp)\<rparr>, w))
      else if is_memref_type t then
        (let sz = (ucast (size_get sgx (w_memory w) (cp_size cp)) :: u32);
             (buffer, w) = malloc_block env w (ucast sz);
             bytes = (if t = TEE_PARAM_TYPE_MEMREF_OUTPUT then replicate (unat sz) 0
                      else peek (w_memory w) (cp_p cp) (unat sz)) in
         if sz \<noteq> 0 \<and> (buffer = 0 \<or> t \<noteq> TEE_PARAM_TYPE_MEMREF_OUTPUT \<and> cp_p cp = 0) then None
         else
           Some (p\<lparr>memref_size := sz, memref_buffer := buffer\<rparr>,
             w\<lparr>w_memory := copy_bytes (w_memory w) buffer bytes\<rparr>))
      else Some (p, w))"

fun copyin_params ::
    "sgx_env \<Rightarrow> ('d, 'pk) agent_env \<Rightarrow> u32 \<Rightarrow> nat \<Rightarrow> command_param list \<Rightarrow> TEE_Param list \<Rightarrow> world \<Rightarrow>
     (TEE_Param list \<times> world) option" where
  "copyin_params sgx env types i (cp # cps) (p # ps) w =
     (case copyin_param sgx env (TEE_PARAM_TYPE_GET types i) cp p w of
        None \<Rightarrow> None
      | Some (p, w) \<Rightarrow> map_option (apfst ((#) p)) (copyin_params sgx env types (i + 1) cps ps w))"
| "copyin_params sgx env types i _ _ w = Some ([], w)"

text \<open>The size is read once more, for the room there is, and then written.\<close>

definition copyout_back :: "sgx_env \<Rightarrow> u32 \<Rightarrow> command_param \<Rightarrow> TEE_Param \<Rightarrow> world \<Rightarrow> world option" where
  "copyout_back sgx t cp p w =
     (if t = TEE_PARAM_TYPE_VALUE_OUTPUT \<or> t = TEE_PARAM_TYPE_VALUE_INOUT then
        (let m = memcpy_s (w_memory w) (cp_a cp) 4 (bytes_of_u32 (value_a p)) in
         Some (w\<lparr>w_memory := memcpy_s m (cp_b cp) 4 (bytes_of_u32 (value_b p))\<rparr>))
      else if t = TEE_PARAM_TYPE_MEMREF_OUTPUT \<or> t = TEE_PARAM_TYPE_MEMREF_INOUT then
        (let bytes = peek (w_memory w) (memref_buffer p) (unat (memref_size p));
             m = memcpy_s (w_memory w) (cp_p cp) (size_get sgx (w_memory w) (cp_size cp)) bytes in
         free_block (w\<lparr>w_memory := size_put sgx m (cp_size cp) (memref_size p)\<rparr>) (memref_buffer p))
      else if t = TEE_PARAM_TYPE_MEMREF_INPUT then free_block w (memref_buffer p)
      else Some w)"

fun copyout_params :: "sgx_env \<Rightarrow> u32 \<Rightarrow> nat \<Rightarrow> command_param list \<Rightarrow> TEE_Param list \<Rightarrow> world \<Rightarrow> world option" where
  "copyout_params sgx types i (cp # cps) (p # ps) w =
     (case copyout_back sgx (TEE_PARAM_TYPE_GET types i) cp p w of
        None \<Rightarrow> None
      | Some w \<Rightarrow> copyout_params sgx types (i + 1) cps ps w)"
| "copyout_params sgx types i _ _ w = Some w"

section \<open>The calls\<close>

text \<open>
  The session is a static pointer, null until it is opened. What the entry point does then, up to the
  use of the null pointer.
\<close>

definition null_session_result :: "world \<Rightarrow> u32 \<Rightarrow> u32 \<Rightarrow> TEE_Param list \<Rightarrow> TEE_Result option" where
  "null_session_result w cmd_id types params =
     (if cmd_id = TEEP_AGENT_SET_DEV_OPTION then
        (let string = peek (w_memory w) (memref_buffer (params ! 1)) (unat (memref_size (params ! 1))) in
         if types \<noteq> TEE_PARAM_TYPES TEE_PARAM_TYPE_VALUE_INPUT TEE_PARAM_TYPE_MEMREF_INPUT
                      TEE_PARAM_TYPE_NONE TEE_PARAM_TYPE_NONE
           \<or> string \<noteq> [] \<and> last string \<noteq> 0
         then Some TEE_ERROR_BAD_PARAMETERS else None)
      else if cmd_id = TEEP_AGENT_BROKER_TASK_DONE then
        (if types \<noteq> TEE_PARAM_TYPES TEE_PARAM_TYPE_MEMREF_INPUT TEE_PARAM_TYPE_NONE
                      TEE_PARAM_TYPE_NONE TEE_PARAM_TYPE_NONE
         then Some TEE_ERROR_BAD_PARAMETERS else None)
      else if cmd_id = TEEP_AGENT_QUERY_NEXT_BROKER_TASK then
        (if types \<noteq> TEE_PARAM_TYPES TEE_PARAM_TYPE_VALUE_OUTPUT TEE_PARAM_TYPE_MEMREF_OUTPUT
                      TEE_PARAM_TYPE_MEMREF_OUTPUT TEE_PARAM_TYPE_NONE
         then Some TEE_ERROR_BAD_PARAMETERS else None)
      else Some TEE_ERROR_NOT_IMPLEMENTED)"

definition ecall_TA_InvokeCommandEntryPoint ::
    "sgx_env \<Rightarrow> ('d, 'pk) agent_env \<Rightarrow> TEE_Param list \<Rightarrow> u32 \<Rightarrow> u32 \<Rightarrow> command_param list \<Rightarrow> world \<Rightarrow>
     teep_agent_session option \<Rightarrow> (u32 \<times> world \<times> teep_agent_session option) option option" where
  "ecall_TA_InvokeCommandEntryPoint sgx env raw cmd_id types cps w session =
     (case check_params sgx (w_memory w) types 0 cps of
        None \<Rightarrow> Some None
      | Some False \<Rightarrow> Some (Some (TEE_ERROR_BAD_PARAMETERS, w, session))
      | Some True \<Rightarrow>
          case copyin_params sgx env types 0 cps raw (w\<lparr>w_memory := host_race sgx (w_memory w)\<rparr>) of
            None \<Rightarrow> Some None
          | Some (params, w) \<Rightarrow>
              case session of
                None \<Rightarrow>
                  Some (case null_session_result w cmd_id types params of
                          None \<Rightarrow> None
                        | Some r \<Rightarrow> map_option (\<lambda>w. (r, w, None)) (copyout_params sgx types 0 cps params w))
              | Some s \<Rightarrow>
                  case TA_InvokeCommandEntryPoint env w s cmd_id types params of
                    None \<Rightarrow> None
                  | Some None \<Rightarrow> Some None
                  | Some (Some (r, w, s, params)) \<Rightarrow>
                      Some (map_option (\<lambda>w. (r, w, Some s)) (copyout_params sgx types 0 cps params w)))"

text \<open>
  The result of opening a session is not handed on, and neither is the status of a call: a command
  that never gets into the enclave leaves the \<^verbatim>\<open>TEEC_SUCCESS\<close> its result starts with.
\<close>

definition sgx_OpenSession ::
    "sgx_env \<Rightarrow> ('d, 'pk) agent_env \<Rightarrow> world \<Rightarrow> teep_agent_session \<Rightarrow>
     TEEC_Result \<times> world \<times> teep_agent_session option" where
  "sgx_OpenSession sgx env w raw_session =
     (if \<not> sgx_enters sgx then (TEEC_SUCCESS, w, None)
      else case TA_OpenSessionEntryPoint env w raw_session 0 of (r, session, w) \<Rightarrow> (TEEC_SUCCESS, w, session))"

definition sgx_CloseSession :: "sgx_env \<Rightarrow> world \<Rightarrow> teep_agent_session option \<Rightarrow> world option" where
  "sgx_CloseSession sgx w session =
     (if sgx_enters sgx then TA_CloseSessionEntryPoint w session else Some w)"

definition sgx_InvokeCommand ::
    "sgx_env \<Rightarrow> ('d, 'pk) agent_env \<Rightarrow> TEE_Param list \<Rightarrow> param_at list \<Rightarrow> u32 \<Rightarrow> TEEC_Operation \<Rightarrow> world \<Rightarrow>
     teep_agent_session option \<Rightarrow> (u32 \<times> world \<times> teep_agent_session option) option option" where
  "sgx_InvokeCommand sgx env raw ats commandID operation w session =
     (case sgx_prepare_params ats operation of (types, cps) \<Rightarrow>
        if \<not> sgx_enters sgx then Some (Some (TEEC_SUCCESS, w, session))
        else ecall_TA_InvokeCommandEntryPoint sgx env raw commandID types cps w session)"

end
