(* ===== verification/Sgx_Properties.thy ===== *)
theory Sgx_Properties
  imports Teec_Sgx Agent_Sample
begin

text \<open>
  What the checks of the SGX calls are worth: a host that leaves its memory alone between the checks
  and the copies, and one that does not.
\<close>

section \<open>A host that waits\<close>

lemma check_param_memref:
  assumes "check_param sgx m t cp = Some True" and "is_memref_type t"
  shows "cp_size cp \<noteq> 0 \<and> unique_pointer sgx (cp_size cp) 4 \<and>
    unique_pointer sgx (cp_p cp) (size_get sgx m (cp_size cp))"
  using assms
  by (auto simp: check_param_def is_value_type_def is_memref_type_def split: if_split_asm)

lemma check_params_each:
  "check_params sgx m types i ps = Some True \<Longrightarrow> k < length ps \<Longrightarrow>
     check_param sgx m (TEE_PARAM_TYPE_GET types (i + k)) (ps ! k) = Some True"
proof (induction ps arbitrary: i k)
  case (Cons p ps)
  then have "check_param sgx m (TEE_PARAM_TYPE_GET types i) p = Some True"
    "check_params sgx m types (i + 1) ps = Some True"
    by (auto split: option.split_asm bool.split_asm)
  then show ?case using Cons.IH [of "i + 1" "k - 1"] Cons.prems(2) by (cases k) auto
qed simp

text \<open>
  C24. When the memory is the one that was checked, an input is copied from outside of the enclave: the
  bytes that arrive in the block are those of a range the check has accepted.
\<close>

theorem checked_input_is_outside:
  assumes "check_params sgx (w_memory w) types 0 cps = Some True" and "k < length cps"
    and "TEE_PARAM_TYPE_GET types k = TEE_PARAM_TYPE_MEMREF_INPUT \<or> TEE_PARAM_TYPE_GET types k = TEE_PARAM_TYPE_MEMREF_INOUT"
    and "copyin_param sgx env (TEE_PARAM_TYPE_GET types k) (cps ! k) p w = Some (p', w')" and "memref_size p' \<noteq> 0"
  shows "sgx_is_outside_enclave sgx (cp_p (cps ! k)) (size_get sgx (w_memory w) (cp_size (cps ! k))) \<and>
    unat (memref_size p') \<le> unat (size_get sgx (w_memory w) (cp_size (cps ! k))) \<and>
    peek (w_memory w') (memref_buffer p') (unat (memref_size p')) =
      peek (w_memory w) (cp_p (cps ! k)) (unat (memref_size p'))"
proof -
  let ?t = "TEE_PARAM_TYPE_GET types k" and ?cp = "cps ! k"
  let ?n = "size_get sgx (w_memory w) (cp_size ?cp)"
  have ref: "is_memref_type ?t" "?t \<noteq> TEE_PARAM_TYPE_MEMREF_OUTPUT" "\<not> is_value_type ?t"
    using assms(3) by (auto simp: is_memref_type_def is_value_type_def)
  have c: "unique_pointer sgx (cp_p ?cp) ?n"
    using check_param_memref [OF _ ref(1)] check_params_each [OF assms(1,2)] by simp
  obtain b w1 where m: "malloc_block env w (ucast (ucast ?n :: u32)) = (b, w1)" by fastforce
  then have w1: "w_memory w1 = w_memory w" by (auto simp: malloc_block_def Let_def split: if_split_asm)
  have p': "memref_size p' = ucast ?n" "memref_buffer p' = b" "cp_p ?cp \<noteq> 0"
    "w_memory w' = copy_bytes (w_memory w) b (peek (w_memory w) (cp_p ?cp) (unat (ucast ?n :: u32)))"
    using assms(4,5) ref m w1
    by (auto simp: copyin_param_def is_value_type_def Let_def split: if_split_asm)
  have le: "unat (ucast ?n :: u32) \<le> unat ?n"
    by (simp add: unsigned_ucast_eq unsigned_take_bit_eq take_bit_nat_less_eq_self)
  then have "unat (ucast ?n :: u32) < 2 ^ 64" using unat_ptr_less [of ?n] by simp
  then have "peek (w_memory w') b (unat (ucast ?n :: u32)) = peek (w_memory w) (cp_p ?cp) (unat (ucast ?n :: u32))"
    using peek_copy_bytes [of "peek (w_memory w) (cp_p ?cp) (unat (ucast ?n :: u32))"] by (simp add: p'(4))
  then show ?thesis using c p'(1-3) le by (auto simp: unique_pointer_def)
qed

section \<open>A host that does not\<close>

text \<open>
  The enclave starts at \<open>0x9000\<close>; the size is one byte at \<open>0x100\<close>, and the other thread of the host
  makes a 2 of the 1 in it.
\<close>

definition sample_sgx :: sgx_env where
  "sample_sgx =
     \<lparr>sgx_creates = True, sgx_enters = True,
      sgx_is_outside_enclave = (\<lambda>p n. unat p + unat n \<le> 0x9000),
      size_get = (\<lambda>m p. ucast (m p)), size_put = (\<lambda>m p n. m(p := ucast n)),
      host_race = (\<lambda>m. m(0x100 := 2))\<rparr>"

definition edge_param :: command_param where
  "edge_param = \<lparr>cp_a = 0, cp_b = 0, cp_size = 0x100, cp_p = 0x8FFF\<rparr>"

definition sgx_world :: world where
  "sgx_world = start_world\<lparr>w_memory := (\<lambda>_. 0)(0x100 := 1, 0x8FFF := 7, 0x9000 := 42)\<rparr>"


theorem checked_input_is_outside_witness:
  "peek (copy_bytes (w_memory sgx_world) 0x100000 [7]) 0x100000 1 = [7] \<and>
   sgx_is_outside_enclave sample_sgx 0x8FFF (size_get sample_sgx (w_memory sgx_world) 0x100)"
proof -
  let ?p = "no_param\<lparr>value_a := 0, value_b := 0, memref_buffer := 0x100000, memref_size := 1\<rparr>"
  let ?w = "sgx_world\<lparr>w_blocks := [(0x100000, 1)], w_memory := copy_bytes (w_memory sgx_world) 0x100000 [7]\<rparr>"
  have c: "check_params sample_sgx (w_memory sgx_world) 5 0 [edge_param] = Some True"
    by (simp add: check_param_def TEE_PARAM_TYPE_GET_def is_value_type_def is_memref_type_def unique_pointer_def
        sample_sgx_def edge_param_def sgx_world_def)
  have i: "copyin_param sample_sgx session_env (TEE_PARAM_TYPE_GET 5 0) ([edge_param] ! 0) no_param sgx_world = Some (?p, ?w)"
    by (simp add: copyin_param_def TEE_PARAM_TYPE_GET_def is_memref_type_def sample_sgx_def edge_param_def
        sgx_world_def start_world_def malloc_block_def session_env_def bump_malloc_def Let_def)
  from checked_input_is_outside [OF c _ _ i] show ?thesis
    by (simp add: TEE_PARAM_TYPE_GET_def sample_sgx_def sgx_world_def edge_param_def)
qed


end
