(* ===== verification/Ta_Install.thy ===== *)
theory Ta_Install
  imports Ta_Store
begin

text \<open>
  \<^verbatim>\<open>teep-agent-ta/ta-store.c\<close> on the other platforms: the image goes to the host through calls out of
  the enclave (Keystone, SGX) or to a service of the trusted operating system (OP-TEE). These calls
  are not part of the repository; they are arguments, on a state of their own.
\<close>

unbundle bit_operations_syntax

section \<open>Files through calls out of the enclave\<close>

abbreviation (input) O_WRONLY :: u32 where "O_WRONLY \<equiv> 0x1"
abbreviation (input) O_RDWR :: u32 where "O_RDWR \<equiv> 0x2"
abbreviation (input) O_CREAT :: u32 where "O_CREAT \<equiv> 0x40"
abbreviation (input) O_TRUNC :: u32 where "O_TRUNC \<equiv> 0x200"

text \<open>On Keystone a call gives its result.\<close>

record 's keystone_files =
  ocall_open_file :: "'s \<Rightarrow> u8 list \<Rightarrow> u32 \<Rightarrow> u32 \<Rightarrow> i32 \<times> 's"
  ocall_write_file_full :: "'s \<Rightarrow> i32 \<Rightarrow> u8 list \<Rightarrow> i32 \<times> 's"
  ocall_close_file :: "'s \<Rightarrow> i32 \<Rightarrow> 's"

definition install_ta_keystone :: "'s keystone_files \<Rightarrow> 's \<Rightarrow> u8 list \<Rightarrow> u8 list \<Rightarrow> bool \<times> 's" where
  "install_ta_keystone os st filename content =
     (case ocall_open_file os st filename (O_CREAT OR O_WRONLY) 0x180 of (fd, st) \<Rightarrow>
        if sint fd < 0 then (False, st)
        else
          case ocall_write_file_full os st fd content of (n, st) \<Rightarrow>
            ((scast n :: u64) = of_nat (length content), ocall_close_file os st fd))"

text \<open>
  On SGX it gives a status, and the result behind a pointer, which stays what it was when the call
  fails. \<open>raw\<close> is what is on the stack where the descriptor is going to be.
\<close>

record 's sgx_files =
  sgx_open_file :: "'s \<Rightarrow> i32 \<Rightarrow> u8 list \<Rightarrow> u32 \<Rightarrow> u32 \<Rightarrow> i32 \<times> i32 \<times> 's"
  sgx_write_file :: "'s \<Rightarrow> i32 \<Rightarrow> i32 \<Rightarrow> u8 list \<Rightarrow> i32 \<times> i32 \<times> 's"
  sgx_close_file :: "'s \<Rightarrow> i32 \<Rightarrow> 's"

definition install_ta_sgx :: "'s sgx_files \<Rightarrow> i32 \<Rightarrow> 's \<Rightarrow> u8 list \<Rightarrow> u8 list \<Rightarrow> bool \<times> 's" where
  "install_ta_sgx os raw st filename content =
     (case sgx_open_file os st raw filename (O_RDWR OR O_CREAT) 0x180 of (retval, fd, st) \<Rightarrow>
        if sint retval < 0 then (False, st)
        else
          case sgx_write_file os st retval fd content of (n, retval, st) \<Rightarrow>
            ((scast retval :: u64) = of_nat (length content), sgx_close_file os st fd))"

section \<open>A service of the trusted operating system\<close>

text \<open>Results are those of the TEE internal API; 0 is success. The one parameter is the image.\<close>

record 's tee_service =
  open_ta_session :: "'s \<Rightarrow> u32 \<times> u32 \<times> 's"
  bootstrap_ta :: "'s \<Rightarrow> u32 \<Rightarrow> u8 list \<Rightarrow> u32 \<times> 's"
  close_ta_session :: "'s \<Rightarrow> u32 \<Rightarrow> 's"

definition install_ta_optee :: "'s tee_service \<Rightarrow> 's \<Rightarrow> u8 list \<Rightarrow> u8 list \<Rightarrow> bool \<times> 's" where
  "install_ta_optee os st filename content =
     (case open_ta_session os st of (res, sess, st) \<Rightarrow>
        if res \<noteq> 0 then (False, st)
        else
          case bootstrap_ta os st sess content of (res, st) \<Rightarrow>
            let st = close_ta_session os st sess in
            if res \<noteq> 0 then (False, st) else (True, st))"

section \<open>What the host does with the calls\<close>

text \<open>
  The documented behaviour of \<^verbatim>\<open>open\<close>, \<^verbatim>\<open>write\<close> and \<^verbatim>\<open>close\<close>, as far as the code relies on it: a
  descriptor stands for a file and a place in it, opening empties a file only when asked to, and
  writing replaces what is at the place.
\<close>

record posix_state =
  px_files :: "u8 list \<Rightarrow> u8 list option"
  px_opens :: "u8 list \<Rightarrow> bool"
  px_table :: "(u8 list \<times> nat) list"

definition posix_open :: "posix_state \<Rightarrow> u8 list \<Rightarrow> u32 \<Rightarrow> u32 \<Rightarrow> i32 \<times> posix_state" where
  "posix_open st filename flags mode =
     (if \<not> px_opens st filename \<or> px_files st filename = None \<and> flags AND O_CREAT = 0 then (-1, st)
      else
        let old = (case px_files st filename of None \<Rightarrow> [] | Some bs \<Rightarrow> if flags AND O_TRUNC = 0 then bs else []) in
        (of_nat (length (px_table st)),
         st\<lparr>px_files := (px_files st)(filename \<mapsto> old), px_table := px_table st @ [(filename, 0)]\<rparr>))"

definition posix_write :: "posix_state \<Rightarrow> i32 \<Rightarrow> u8 list \<Rightarrow> i32 \<times> posix_state" where
  "posix_write st fd content =
     (if length (px_table st) \<le> unat fd then (-1, st)
      else
        case px_table st ! unat fd of (filename, k) \<Rightarrow>
          case px_files st filename of
            None \<Rightarrow> (-1, st)
          | Some old \<Rightarrow>
              (of_nat (length content),
               st\<lparr>px_files := (px_files st)(filename \<mapsto> take k old @ content @ drop (k + length content) old),
                  px_table := (px_table st)[unat fd := (filename, k + length content)]\<rparr>))"

text \<open>A descriptor that is closed is not used again; the other ones keep their numbers.\<close>

definition posix_close :: "posix_state \<Rightarrow> i32 \<Rightarrow> posix_state" where
  "posix_close st fd = st"

definition posix_calls :: "posix_state keystone_files" where
  "posix_calls = \<lparr>ocall_open_file = posix_open, ocall_write_file_full = posix_write, ocall_close_file = posix_close\<rparr>"

text \<open>The same calls as SGX makes them: they reach the host, with status 0.\<close>

definition posix_sgx :: "posix_state sgx_files" where
  "posix_sgx =
     \<lparr>sgx_open_file = (\<lambda>st raw filename flags mode. case posix_open st filename flags mode of (fd, st) \<Rightarrow> (0, fd, st)),
      sgx_write_file = (\<lambda>st raw fd content. case posix_write st fd content of (n, st) \<Rightarrow> (0, n, st)),
      sgx_close_file = posix_close\<rparr>"

text \<open>
  Opening and writing in one, without \<^verbatim>\<open>O_TRUNC\<close>: the image is in front of what is left of the file
  that was there.
\<close>

lemma posix_installed:
  assumes "posix_open st filename flags mode = (fd, st1)" and "px_opens st filename"
    and "flags AND O_CREAT \<noteq> 0" and "flags AND O_TRUNC = 0" and "length (px_table st) < 2 ^ 31"
  shows "0 \<le> sint fd \<and> (\<exists>st2. posix_write st1 fd content = (of_nat (length content), st2) \<and>
    px_files st2 = (px_files st)(filename \<mapsto>
      content @ drop (length content) (case px_files st filename of None \<Rightarrow> [] | Some old \<Rightarrow> old)))"
proof -
  have fd: "fd = of_nat (length (px_table st))" and st1: "px_table st1 = px_table st @ [(filename, 0)]"
    "px_files st1 = (px_files st)(filename \<mapsto> (case px_files st filename of None \<Rightarrow> [] | Some old \<Rightarrow> old))"
    using assms(1-4) by (auto simp: posix_open_def Let_def split: option.split)
  have "unat fd = length (px_table st)" using assms(5) by (simp add: fd unat_of_nat)
  then show ?thesis using sint_i32 [of fd] assms(5) st1
    by (auto simp: posix_write_def nth_append)
qed

lemma image_length:
  assumes "length content < 2 ^ 31"
  shows "(scast (of_nat (length content) :: i32) :: u64) = of_nat (length content)"
proof -
  have "unat (of_nat (length content) :: i32) = length content" using assms by (simp add: unat_of_nat)
  then have "sint (of_nat (length content) :: i32) = int (length content)" using assms sint_i32 by metis
  then have "sint (scast (of_nat (length content) :: i32) :: u64) = sint (of_nat (length content) :: u64)"
    using sint_scast_i32 [of "of_nat (length content)"] sint_of_nat [of "length content"] assms by simp
  then show ?thesis by (rule signed_word_eqI)
qed

text \<open>
  C39. On Keystone and on SGX an image that is installed over an older file leaves the end of it: the
  file is opened without being cut, so that it is the image followed by what the older one had
  behind that length, and the installation counts as successful. On a PC it is the image alone.
\<close>

theorem enclave_install_keeps_tail:
  assumes "px_opens st filename" and "px_files st filename = Some old"
    and "length content < 2 ^ 31" and "length (px_table st) < 2 ^ 31"
  shows "fst (install_ta_keystone posix_calls st filename content) \<and>
    px_files (snd (install_ta_keystone posix_calls st filename content)) filename =
      Some (content @ drop (length content) old) \<and>
    fst (install_ta_sgx posix_sgx raw st filename content) \<and>
    px_files (snd (install_ta_sgx posix_sgx raw st filename content)) filename =
      Some (content @ drop (length content) old) \<and>
    (\<forall>fs. fst (install_ta fs filename content) \<longrightarrow> fs_files (snd (install_ta fs filename content)) filename = Some content)"
proof (intro conjI allI impI)
  obtain fd st1 where o: "posix_open st filename (O_CREAT OR O_WRONLY) 0x180 = (fd, st1)" by fastforce
  obtain st2 where k: "0 \<le> sint fd" "posix_write st1 fd content = (of_nat (length content), st2)"
    "px_files st2 filename = Some (content @ drop (length content) old)"
    using posix_installed [OF o assms(1) _ _ assms(4), of content] by (auto simp: assms(2))
  then show "fst (install_ta_keystone posix_calls st filename content)"
    "px_files (snd (install_ta_keystone posix_calls st filename content)) filename = Some (content @ drop (length content) old)"
    using o image_length [OF assms(3)] by (simp_all add: install_ta_keystone_def posix_calls_def posix_close_def)
next
  obtain fd st1 where o: "posix_open st filename (O_RDWR OR O_CREAT) 0x180 = (fd, st1)" by fastforce
  obtain st2 where k: "posix_write st1 fd content = (of_nat (length content), st2)"
    "px_files st2 filename = Some (content @ drop (length content) old)"
    using posix_installed [OF o assms(1) _ _ assms(4), of content] by (auto simp: assms(2))
  then show "fst (install_ta_sgx posix_sgx raw st filename content)"
    "px_files (snd (install_ta_sgx posix_sgx raw st filename content)) filename = Some (content @ drop (length content) old)"
    using o image_length [OF assms(3)] by (simp_all add: install_ta_sgx_def posix_sgx_def posix_close_def)
next
  fix fs assume "fst (install_ta fs filename content)"
  then obtain fs' where i: "install_ta fs filename content = (True, fs')" by (metis prod.collapse)
  show "fs_files (snd (install_ta fs filename content)) filename = Some content"
    using install_ta_True [OF i] by (simp add: i)
qed

theorem enclave_install_keeps_tail_witness:
  "px_files (snd (install_ta_keystone posix_calls
      \<lparr>px_files = [[0x61] \<mapsto> [1, 2, 3]], px_opens = (\<lambda>_. True), px_table = []\<rparr> [0x61] [9])) [0x61] = Some [9, 2, 3]"
  using enclave_install_keeps_tail
    [of "\<lparr>px_files = [[0x61] \<mapsto> [1, 2, 3]], px_opens = (\<lambda>_. True), px_table = []\<rparr>" "[0x61]" "[1, 2, 3]" "[9]"]
  by simp

end
