(* ===== verification/Tee_Log.thy ===== *)
theory Tee_Log
  imports Ta_Store
begin

text \<open>
  \<^verbatim>\<open>lib/log/teelog.c\<close>, \<^verbatim>\<open>lib/include/teelog.h\<close> and \<^verbatim>\<open>lib/suit/lib/teerng.c\<close>: the buffers of a log
  message, and the random numbers of the platforms. What \<^verbatim>\<open>printf\<close> makes of a format is an argument.
\<close>

section \<open>Log messages\<close>

text \<open>\<^verbatim>\<open>snprintf\<close> of a text into a buffer of \<open>n\<close> bytes: it is cut, and has its NUL.\<close>

definition snprintf :: "u8 list \<Rightarrow> nat \<Rightarrow> u8 list \<Rightarrow> u8 list" where
  "snprintf buf n t = (let t = take (n - 1) t in t @ 0 # drop (length t + 1) buf)"

fun decimal :: "nat \<Rightarrow> u8 list" where
  "decimal n = (if n < 10 then [of_nat (48 + n)] else decimal (n div 10) @ [of_nat (48 + n mod 10)])"

definition log_place :: "string \<Rightarrow> u8 list \<Rightarrow> nat \<Rightarrow> u8 list \<Rightarrow> u8 list" where
  "log_place mark file line func =
     ascii mark @ file @ ascii '': '' @ decimal line @ ascii '': '' @ func @ ascii ''(): ''"

text \<open>
  The macros \<^verbatim>\<open>tee_error\<close> and \<^verbatim>\<open>tee_info\<close>: the place of the message in \<open>str\<close>, whose last byte is then
  set to the digit \<^verbatim>\<open>'0'\<close>. It is the format of a first message, so that it has to be a string: \<open>None\<close>
  is undefined behaviour.
\<close>

definition log_str :: "u8 list \<Rightarrow> u8 list \<Rightarrow> u8 list" where
  "log_str raw place = (snprintf raw 80 place)[80 - 1 := 48]"

text \<open>\<open>tee_log\<close> gives what goes to the console, for a format that has been expanded to \<open>msg\<close>.\<close>

definition tee_log :: "u8 list \<Rightarrow> u8 list \<Rightarrow> u8 list option" where
  "tee_log raw msg = c_string (snprintf raw 256 msg)"

definition tee_error :: "(u8 list \<Rightarrow> u8 list) \<Rightarrow> u8 list \<Rightarrow> u8 list \<Rightarrow> u8 list \<Rightarrow> u8 list \<Rightarrow> u8 list option" where
  "tee_error expand raw_str raw place msg =
     (case c_string (log_str raw_str place) of
        None \<Rightarrow> None
      | Some format \<Rightarrow>
          case tee_log raw (expand format) of
            None \<Rightarrow> None
          | Some out \<Rightarrow> map_option ((@) out) (tee_log raw msg))"

lemma snprintf_string:
  "length buf = n \<Longrightarrow> 0 < n \<Longrightarrow> 0 \<notin> set t \<Longrightarrow> c_string (snprintf buf n t) = Some (take (n - 1) t)"
  unfolding snprintf_def Let_def by (rule c_string_append) (auto dest: in_set_takeD)

lemma tee_log_cuts: "length raw = 256 \<Longrightarrow> 0 \<notin> set msg \<Longrightarrow> tee_log raw msg = Some (take 255 msg)"
  by (simp add: tee_log_def snprintf_string)

text \<open>
  The byte that is meant to end the string takes its end away: a place of 79 bytes or more leaves \<open>str\<close>
  without a NUL.
\<close>

lemma long_place_has_no_end:
  assumes "length raw = 80" and "0 \<notin> set place"
  shows "c_string (log_str raw place) = (if length place < 79 then Some place else None)"
proof (cases "length place < 79")
  case True
  then obtain k where k: "79 - length place = Suc k" by (metis Suc_diff_Suc)
  have "log_str raw place = place @ 0 # (drop (length place + 1) raw)[k := 48]"
    using True k by (simp add: log_str_def snprintf_def Let_def list_update_append)
  then show ?thesis using True c_string_append [OF assms(2)] by simp
next
  case False
  then have "log_str raw place = take 79 place @ [48]"
    using assms(1) by (simp add: log_str_def snprintf_def Let_def list_update_append)
  moreover have "0 \<notin> set (take 79 place @ [48 :: u8])" using assms(2) by (auto dest: in_set_takeD)
  ultimately show ?thesis using False by (simp add: c_string_None)
qed

section \<open>Random numbers\<close>

text \<open>On a PC and on Keystone all bytes are 42. On the other platforms they are those of a library.\<close>

definition teerng_read :: "nat \<Rightarrow> int \<times> u8 list" where
  "teerng_read len = (0, replicate len 42)"

definition teerng_read_optee :: "(nat \<Rightarrow> u8 list) \<Rightarrow> nat \<Rightarrow> int \<times> u8 list" where
  "teerng_read_optee generate len = (0, generate len)"

definition teerng_read_sgx :: "(nat \<Rightarrow> u32 \<times> u8 list) \<Rightarrow> nat \<Rightarrow> int \<times> u8 list" where
  "teerng_read_sgx read_rand len =
     (case read_rand len of (status, bytes) \<Rightarrow> if status \<noteq> 0 then (- 0x34, bytes) else (0, bytes))"

end
