(* ===== verification/Spec2Isabelle.thy ===== *)
theory Spec2Isabelle
  imports Device_Properties Keystone_Properties Sgx_Properties Ta_Install Tee_Log
begin

text \<open>
  \<^bold>\<open>A model of the TEEP device software\<close> of the repository \<^verbatim>\<open>teep-device\<close>: a broker in the normal
  world and an agent in a trusted environment, which installs trusted components on behalf of a
  server (TAM). File names are those under \<^verbatim>\<open>src/\<close>.

  \<^bold>\<open>How the parts interact.\<close> The broker (\<^verbatim>\<open>teep-broker-app/teep-broker.c\<close>) asks the agent for its next
  task, posts the message of the task to the server or fetches a component (\<^verbatim>\<open>http-lws.c\<close>), and hands
  the answer back, each time through the client API of the platform: \<^verbatim>\<open>teec-pc.c\<close>, where both are one
  process, \<^verbatim>\<open>teec-keystone.cpp\<close>, where they are threads with memories of their own, \<^verbatim>\<open>teec-sgx.cpp\<close>,
  where they share an address space. The agent (\<^verbatim>\<open>teep-agent-ta/teep-agent-ta.c\<close>) is a state machine:
  it parses and builds messages with \<^verbatim>\<open>lib/teep/libteep.c\<close>, checks the signature of each envelope of an
  update and stores it, adds its manifest to a table, and runs the install sequence in the SUIT
  interpreter (\<^verbatim>\<open>lib/suit/lib\<close>), which calls back to store an image or suspends until the broker has
  fetched one. All of SUIT reads CBOR in place with \<^verbatim>\<open>lib/include/teecbor.h\<close>.

  \<^bold>\<open>Theories.\<close>
  \<^item> \<open>Prelude\<close>: machine integers, pointers and the flat memory; facts on distances and conversions.
  \<^item> \<open>Tcbor\<close> (\<^verbatim>\<open>teecbor.h\<close>, \<^verbatim>\<open>teecbor.c\<close>): the cursor, heads, skipping and typed readers; \<open>Cbor_Spec\<close> and
    \<open>Cbor_Readers\<close>: a CBOR data type with its encoder, the reading of a head over lists of bytes, and
    that the readers refine it and invert the encoder.
  \<^item> \<open>Suit_Manifest\<close>, \<open>Suit_Parser\<close> (\<^verbatim>\<open>teesuit.h\<close>, \<^verbatim>\<open>suit-parser.c\<close>): the structures, the parser, what an
    accepted manifest satisfies, and that the parser depends on the bytes of the manifest only.
    \<open>Suit_Envelope\<close>: fields of an envelope, and the lookup against the map they encode. \<open>Suit_Auth\<close>: digest
    and signature; \<open>Suit_Context\<close> (\<^verbatim>\<open>suit-context.c\<close>): the table of manifests and its invariant.
  \<^item> \<open>Suit_Runner\<close>, \<open>Suit_Runner_Proofs\<close> (\<^verbatim>\<open>suit.c\<close>): the interpreter with its stack, binders and suspension;
    its invariant, a measure for its loop, and the binders as a map.
  \<^item> \<open>Ta_Store\<close>, \<open>Ta_Install\<close> (\<^verbatim>\<open>ta-store.c\<close>, \<^verbatim>\<open>tools.c\<close>): paths, file names, the string functions of the
    enclaves, and the installation on the four platforms. \<open>Tee_Log\<close> (\<^verbatim>\<open>teelog.c\<close>, \<^verbatim>\<open>teerng.c\<close>).
  \<^item> \<open>Libteep\<close>, \<open>Libteep_Proofs\<close> (\<^verbatim>\<open>libteep.c\<close>, \<^verbatim>\<open>qcbor-ext.c\<close>): parser and encoder of TEEP messages over the
    QCBOR library; skipping of options, and the items an encoder has called for.
  \<^item> \<open>Tee_Api\<close>, \<open>Agent_Callbacks\<close>, \<open>Agent_Session\<close>: the agent, operation by operation. \<open>Agent_Heap\<close>: blocks
    and stored manifests; \<open>Agent_Proofs\<close>: the invariant of a session and the states that can be
    \<open>reachable\<close>; \<open>Agent_Messages\<close>, \<open>Agent_Shape\<close>: what is posted, the sizes of arrays; \<open>Agent_Sample\<close>: a
    concrete session; \<open>Agent_Properties\<close>: the properties of the agent.
  \<^item> \<open>Teec_Pc\<close>, \<open>Teec_Proofs\<close>: parameters in the heap of the agent. \<open>Http_Lws\<close>, \<open>Http_Proofs\<close>: one request as a
    list of rounds of the service loop. \<open>Broker\<close>, \<open>Broker_Proofs\<close>: the loop of the broker over a network
    (locale \<open>http_client\<close>, interpreted on the HTTP client). \<open>Cose_Crypto\<close> (\<^verbatim>\<open>t_cose_mbedtls_crypto.c\<close>):
    the adapter of t_cose to mbed TLS. \<open>Device_Properties\<close>: the device on a PC as a whole.
  \<^item> \<open>Teec_Keystone\<close>: the command queue, the loop \<^verbatim>\<open>eapp_entry\<close>, and both as a step relation of two threads.
    \<open>Keystone_Params\<close>: buffers in pieces (locale \<open>param_channel\<close>, interpreted on the queue);
    \<open>Keystone_Proofs\<close>: phases of a run, and a session under an arbitrary host; \<open>Keystone_Properties\<close>.
    \<open>Teec_Sgx\<close>, \<open>Sgx_Properties\<close>: the ecalls with their checks, under a quiet and a racing host.
  \<^item> This theory: properties of CBOR, of SUIT, and of its interpreter under the callbacks of the agent.

  \<^bold>\<open>Conventions.\<close> Pointers and sizes are words of 64 bits whose arithmetic wraps around as in the code;
  structures are records, enumerations data types, and memory a map from addresses to bytes. What C
  leaves undefined is \<open>None\<close> (the inner one where there are two); a call that does not return is an
  outer \<open>None\<close>. Skipping in CBOR takes the number of bytes left as fuel: every item takes at least one,
  so that it cannot run out. The loops of the interpreter, of \<^verbatim>\<open>query_next_broker_task\<close>, of the broker
  and of the pieces on Keystone are partial functions over \<open>option\<close>, and that they return is proved
  where it holds. The HTTP service loop runs over a given list of rounds.

  \<^bold>\<open>What is not in the repository\<close> is an argument: cryptography, QCBOR, libwebsockets, the allocator, the
  files of the host, the runtimes and generated types of Keystone and SGX. Hypotheses on them are
  named (\<open>decoder_ok\<close>, \<open>malloc_ok\<close>, \<open>malloc_clear\<close>, the laws of the locales) and say what their
  documentation promises; the witnesses instantiate them.

  \<^bold>\<open>What the properties show.\<close> That the agent runs authentic manifests only, over every sequence of
  commands, under the broker on a PC and under an untrusted host on Keystone; that the parser, the
  lookup and the readers are exact and stay inside of their input; that the interpreter and the
  loops end; that the threads of Keystone implement a sequence of calls and carry buffers whole; and
  the errors the modelling has found, each as a theorem about what the code does.

  \<^bold>\<open>Not modelled.\<close> The sample application \<^verbatim>\<open>hello-tc\<close> and the tests and examples of the SUIT library,
  which use the functions modelled here; the trace macros and stubs of \<^verbatim>\<open>platform/pc/include\<close>, which
  only print or declare; printing and log levels; code that is switched off (\<^verbatim>\<open>#if 0\<close>). The agent is
  the one with the files of a PC on every platform: what the other variants of \<^verbatim>\<open>install_ta\<close> leave is
  shown for themselves. The shared address space of SGX is not followed into the proofs about the heap.
\<close>

unbundle bit_operations_syntax

section \<open>Concrete inputs\<close>

text \<open>Bytes placed in an otherwise empty memory, as the inputs of the witnesses.\<close>

definition range_at :: "ptr \<Rightarrow> u8 list \<Rightarrow> tcbor_range" where
  "range_at b bs = \<lparr>rbegin = b, rend = b + of_nat (length bs)\<rparr>"

lemma bytes_range_at:
  assumes "length bs < 2 ^ 64"
  shows "bytes_of (mem_of b bs) (range_at b bs) = bs"
  using assms peek_mem_of [of bs b] by (simp add: bytes_of_def span_def range_at_def)

lemma addressable_range_at: "b \<noteq> 0 \<Longrightarrow> unat b + length bs < 2 ^ 64 \<Longrightarrow> addressable (range_at b bs)"
  by (simp add: addressable_def range_at_def word_le_nat_alt unat_add_exact)

lemma be_bytes_numeral:
  "be_bytes (numeral k) n = be_bytes (pred_numeral k) (n div 256) @ [of_nat n]"
  by (simp only: numeral_eq_Suc be_bytes.simps)

section \<open>The CBOR reader\<close>

text \<open>
  C12. The reader of one item head computes what the reading of a head is over lists of bytes, for
  every input: the same item and rest, or the same error.
\<close>

theorem head_reader_refines_spec:
  "abs_read m (tcbor_primitive_read_any m r) = spec_read (bytes_of m r)"
  by (rule read_any_refines)

text \<open>
  C13. Skipping as many items as have been encoded consumes their bytes and nothing else, however
  deeply they are nested.
\<close>

theorem skip_consumes_items:
  assumes "bytes_of m s = encode_all cs @ t" and "\<forall>c \<in> set cs. wf_cbor c"
  shows "\<exists>s'. tcbor_primitive_skip m s (of_nat (length cs)) e = (Some s', if cs = [] then e else tcbor_OK) \<and>
    bytes_of m s' = t \<and> rend s' = rend s"
  by (rule skip_encoded [OF assms, where e = e]) (auto simp: advances_def)

definition sample_items :: "cbor list" where
  "sample_items = [CMap [(CUint 1, CArray [CNint 15, CTag 107 (CTstr [0x23])])], CSimple 22]"

definition sample_input :: "u8 list" where
  "sample_input = encode_all sample_items @ [0xFF]"

lemma sample_input_facts: "length sample_input = 10" "\<forall>c \<in> set sample_items. wf_cbor c"
  by (simp_all add: sample_input_def sample_items_def encode_all_def encode_head_def)

theorem skip_consumes_items_witness:
  "\<exists>s'. tcbor_primitive_skip (mem_of 0x1000 sample_input) (range_at 0x1000 sample_input) 2 tcbor_OK =
     (Some s', tcbor_OK) \<and> bytes_of (mem_of 0x1000 sample_input) s' = [0xFF] \<and>
     rend s' = 0x1000 + 10"
  using skip_consumes_items [of "mem_of 0x1000 sample_input" "range_at 0x1000 sample_input"
      sample_items "[0xFF]" tcbor_OK]
  by (simp add: bytes_range_at sample_input_facts flip: sample_input_def)
    (simp add: sample_items_def range_at_def sample_input_facts)

text \<open>
  C14. The typed readers invert the encoder: an unsigned integer, a negative integer of 31 bits and
  a byte string are read back, and the input behind them is what follows.
\<close>

theorem readers_invert_encoder:
  assumes "n < 2 ^ 64" and "k < 2 ^ 31"
  shows "(at m c (encode (CUint n) @ t) \<longrightarrow>
       (\<exists>c'. tcbor_read_uint m c = (Some (of_nat n), c') \<and> bytes_of m (ctx_r c') = t)) \<and>
     (at m c (encode (CNint k) @ t) \<longrightarrow>
       (\<exists>v c'. tcbor_read_int m c = (Some v, c') \<and> sint v = - 1 - int k \<and> bytes_of m (ctx_r c') = t)) \<and>
     (at m c (encode (CBstr bs) @ t) \<longrightarrow>
       (\<exists>r c'. tcbor_read_bstr m c = (Some r, c') \<and> bytes_of m r = bs \<and> bytes_of m (ctx_r c') = t))"
  by (intro conjI impI)
    (metis read_uint_at [OF _ assms(1)], metis read_int_nint_at [OF _ assms(2)], metis read_bstr_at)

definition sample_context :: "u8 list \<Rightarrow> tcbor_context" where
  "sample_context bs = tcbor_toplevel (range_at 0x1000 bs)"

lemma at_sample: "length bs < 2 ^ 64 \<Longrightarrow> at (mem_of 0x1000 bs) (sample_context bs) bs"
  by (simp add: at_def sample_context_def bytes_range_at tcbor_toplevel_def)

theorem readers_invert_encoder_witness:
  "\<exists>c'. tcbor_read_uint (mem_of 0x1000 [0x18, 0x64, 0x00]) (sample_context [0x18, 0x64, 0x00]) =
     (Some 100, c') \<and> bytes_of (mem_of 0x1000 [0x18, 0x64, 0x00]) (ctx_r c') = [0x00]"
  using readers_invert_encoder [of 100 0 "mem_of 0x1000 [0x18, 0x64, 0x00]"
      "sample_context [0x18, 0x64, 0x00]" "[0x00]" "[]"] at_sample [of "[0x18, 0x64, 0x00]"]
  by (simp add: encode_head_def)

text \<open>
  Which unsigned integers the reader of signed integers accepts: those that an \<^verbatim>\<open>int\<close> can hold,
  but also the ones of the last 2^31 values of 64 bits, which it delivers as negative numbers.
\<close>

theorem int_reader_acceptance:
  assumes "at m c (encode (CUint n) @ t)" and "n < 2 ^ 64"
  shows "fst (tcbor_read_int m c) = (if n < 2 ^ 31 \<or> 2 ^ 64 - 2 ^ 31 \<le> n then Some (of_nat n) else None)"
proof -
  obtain c' where rd: "tcbor_read_uint m c = (Some (of_nat n), c')"
    using read_uint_at [OF assms] by metis
  have "sint (of_nat n :: u64) = (if n < 2 ^ 63 then int n else int n - 2 ^ 64)"
    using assms(2) by (rule sint_of_nat_cases)
  then show ?thesis using read_int_uint [OF rd] assms(2) by (auto simp: ucast_of_nat_i32)
qed

lemma sample_alg_bytes:
  "encode (CUint (2 ^ 64 - 16)) = [0x1B, 0xFF, 0xFF, 0xFF, 0xFF, 0xFF, 0xFF, 0xFF, 0xF0]"
  by (simp add: encode_head_def be_bytes_numeral)

lemma sample_alg_value: "(of_nat (2 ^ 64 - 16) :: i32) = SUIT_DIGEST_ALG_SHA256"
  by (simp add: SUIT_DIGEST_ALG_SHA256_def)

theorem int_reader_acceptance_witness:
  "fst (tcbor_read_int (mem_of 0x1000 [0x1B, 0xFF, 0xFF, 0xFF, 0xFF, 0xFF, 0xFF, 0xFF, 0xF0])
     (sample_context [0x1B, 0xFF, 0xFF, 0xFF, 0xFF, 0xFF, 0xFF, 0xFF, 0xF0])) = Some SUIT_DIGEST_ALG_SHA256"
  using int_reader_acceptance [of "mem_of 0x1000 (encode (CUint (2 ^ 64 - 16)))"
      "sample_context (encode (CUint (2 ^ 64 - 16)))" "2 ^ 64 - 16" "[]"]
    at_sample [of "encode (CUint (2 ^ 64 - 16))"]
  unfolding sample_alg_value append_Nil2 unfolding sample_alg_bytes by simp

section \<open>Manifests and envelopes\<close>

text \<open>
  C8. An accepted manifest has version 1 and a common block of at most eight components and eight
  dependencies, and every range it hands on is null or lies inside of the bytes it was parsed from.
\<close>

theorem accepted_manifest_in_bounds:
  assumes "suit_manifest_parse m r ret = (True, man)" and "manifest_shape ret"
  shows "man_version man = 1 \<and> man_binary man = r \<and> man_common_bstr man \<noteq> tcbor_range_null \<and>
    n_components (man_common man) \<le> 8 \<and> n_dependencies (man_common man) \<le> 8 \<and> manifest_in r man"
proof -
  have "length (components (man_common ret)) = SUIT_COMPONENT_MAX"
    using assms(2) by (simp add: manifest_shape_def common_shape_def)
  note acc = manifest_parse_accepts [OF assms(1) this]
  then have "common_in (man_common_bstr man) (man_common man)" by (simp add: manifest_in_defs)
  then show ?thesis using acc by (simp add: common_in_def components_in_def suit_limits)
qed

definition sample_manifest :: "u8 list" where
  "sample_manifest =
     [0xA3, 0x01, 0x01, 0x02, 0x01, 0x03, 0x46, 0xA1, 0x02, 0x81, 0x81, 0x41, 0x00]"

definition sample_parse :: "bool \<times> suit_manifest" where
  "sample_parse =
     suit_manifest_parse (mem_of 0x1000 sample_manifest) (range_at 0x1000 sample_manifest) zero_manifest"

lemma sample_parse_accepts: "fst sample_parse"
  by code_simp

lemma zero_manifest_shape: "manifest_shape zero_manifest"
  by (simp add: manifest_shape_def common_shape_def zero_manifest_def zero_common_def)

theorem accepted_manifest_in_bounds_witness:
  "man_version (snd sample_parse) = 1 \<and> n_components (man_common (snd sample_parse)) \<le> 8"
  using accepted_manifest_in_bounds [of "mem_of 0x1000 sample_manifest"
      "range_at 0x1000 sample_manifest" zero_manifest "snd sample_parse"]
    sample_parse_accepts zero_manifest_shape
  by (simp add: sample_parse_def prod_eq_iff)

text \<open>
  C26. The parser looks at nothing but the bytes of the manifest: two memories that agree on them
  give the same verdict and the same structure.
\<close>

theorem manifest_parser_reads_manifest_only:
  assumes "bytes_of m r = bytes_of m' r"
  shows "suit_manifest_parse m r ret = suit_manifest_parse m' r ret"
  using assms by (intro manifest_parse_local) (simp add: agree_def)

lemma sample_manifest_elsewhere:
  "bytes_of (mem_of 0x1000 sample_manifest) (range_at 0x1000 sample_manifest) =
   bytes_of ((mem_of 0x1000 sample_manifest)(0x100D := 0xFF)) (range_at 0x1000 sample_manifest)"
  by code_simp

theorem manifest_parser_reads_manifest_only_witness:
  "fst (suit_manifest_parse ((mem_of 0x1000 sample_manifest)(0x100D := 0xFF))
     (range_at 0x1000 sample_manifest) zero_manifest)"
  using manifest_parser_reads_manifest_only [OF sample_manifest_elsewhere, of zero_manifest]
    sample_parse_accepts
  by (simp add: sample_parse_def)


definition sample_user :: agent_user where
  "sample_user =
     \<lparr>fetch_uri = tcbor_range_null, fetch_component_path = no_path,
      user_fs = \<lparr>fs_files = Map.empty, fs_opens = (\<lambda>_. True), fs_room = 1000\<rparr>\<rparr>"

definition sample_runner :: agent_runner where
  "sample_runner =
     \<lparr>run_context = suit_context_init, run_user = sample_user,
      run_sequence = SUIT_COMMAND_SEQUENCE_INSTALL,
      selected_components = tcbor_range_null, selected_dependencies = tcbor_range_null,
      n_binder = 0, bindings = replicate SUIT_BINDER_MAX zero_binder,
      program_counter = \<lparr>pc_manifest = None, pc_next = SUIT_NEXT_EXIT\<rparr>,
      n_stack = 0, stack = replicate SUIT_STACK_MAX zero_continuation,
      has_error = False, suspended = False, on_resume = None\<rparr>"



text \<open>
  C25. The lookup in a well-formed envelope finds the last byte string under the key, fails when a
  value under the key is no byte string, and delivers the null range when there is no such entry.
\<close>

theorem lookup_finds_last_entry:
  assumes "bytes_of m env = encode (CTag 107 (CMap ps)) @ rest"
    and "\<forall>(k, v) \<in> set ps. envelope_key k \<and> wf_cbor v" and "addressable env"
    and "key \<in> {SUIT_DELEGATION, SUIT_AUTHENTICATION_WRAPPER, SUIT_MANIFEST,
      SUIT_DEPENDENCY_RESOLUTION, SUIT_PAYLOAD_FETCH, SUIT_INSTALL, SUIT_TEXT, SUIT_COSWID}"
  shows "map_option (abs_field m) (suit_envelope_get_field_by_key m env key) =
    find_field (\<lambda>k. k = CUint (unat key)) ps None"
proof -
  have "key_hit m False key tcbor_range_null = (\<lambda>k. k = CUint (unat key))"
    by (simp add: fun_eq_iff key_hit_def)
  then show ?thesis
    using get_field_encoded [OF assms(1-3), where use_tstr = False and key_tstr = tcbor_range_null and key = key]
      assms(4)
    by (simp add: suit_envelope_get_field_by_key_def)
qed

definition sample_fields :: "(cbor \<times> cbor) list" where
  "sample_fields =
     [(CUint 3, CBstr [0x01]), (CTstr [0x23], CArray []), (CUint 3, CBstr [0xA0])]"

definition sample_envelope :: "(cbor \<times> cbor) list \<Rightarrow> u8 list" where
  "sample_envelope ps = encode (CTag 107 (CMap ps))"

lemma sample_envelope_facts:
  assumes "length (sample_envelope ps) \<le> 2 ^ 32"
  shows "bytes_of (mem_of 0x1000 (sample_envelope ps)) (range_at 0x1000 (sample_envelope ps)) =
      encode (CTag 107 (CMap ps)) @ []"
    and "addressable (range_at 0x1000 (sample_envelope ps))"
  using assms bytes_range_at [of "sample_envelope ps" "0x1000"]
  by (simp_all add: addressable_range_at sample_envelope_def)

lemma sample_fields_facts:
  "length (sample_envelope sample_fields) \<le> 2 ^ 32"
  "\<forall>(k, v) \<in> set sample_fields. envelope_key k \<and> wf_cbor v"
  by (simp_all add: sample_envelope_def sample_fields_def encode_head_def be_bytes_numeral)

theorem lookup_finds_last_entry_witness:
  "map_option (abs_field (mem_of 0x1000 (sample_envelope sample_fields)))
     (suit_envelope_get_field_by_key (mem_of 0x1000 (sample_envelope sample_fields))
       (range_at 0x1000 (sample_envelope sample_fields)) SUIT_MANIFEST) = Some (Some [0xA0])"
  by (subst lookup_finds_last_entry [OF sample_envelope_facts(1) _ sample_envelope_facts(2)])
    (simp_all only: sample_fields_facts, simp_all add: sample_fields_def)

text \<open>
  What the lookup delivers is null or lies inside of the envelope, whatever the bytes are, by
  name as by key.
\<close>

theorem looked_up_field_inside:
  assumes "suit_envelope_get_field m env use_tstr key key_tstr = Some field"
  shows "field = tcbor_range_null \<or> inside field env"
  using get_field_inside [OF assms] by (simp add: null_or_inside_def)

definition short_envelope :: "u8 list" where
  "short_envelope = [0xD8, 0x6B, 0xA1, 0x03, 0x41, 0xA0]"

lemma short_envelope_found:
  "suit_envelope_get_field (mem_of 0x1000 short_envelope) (range_at 0x1000 short_envelope) False
     SUIT_MANIFEST tcbor_range_null = Some \<lparr>rbegin = 0x1005, rend = 0x1006\<rparr>"
  by code_simp

theorem looked_up_field_inside_witness:
  "\<lparr>rbegin = 0x1005, rend = 0x1006\<rparr> = tcbor_range_null \<or>
   inside \<lparr>rbegin = 0x1005, rend = 0x1006\<rparr> (range_at 0x1000 short_envelope)"
  by (rule looked_up_field_inside [OF short_envelope_found])

text \<open>
  A command the sequence reader delivers is the number in the sequence, and not negative.
\<close>

theorem read_command_is_exact:
  assumes "suit_command_sequence_read_command m r = (Some cmd, r')"
  shows "tcbor_read_uint m r = (Some (ucast cmd), r') \<and> 0 \<le> sint cmd"
  by (rule read_command_value [OF assms])

lemma sample_command:
  "suit_command_sequence_read_command (mem_of 0x1000 [0x15]) (sample_context [0x15]) =
   (Some 21, \<lparr>ctx_r = \<lparr>rbegin = 0x1001, rend = 0x1001\<rparr>, ctx_index = 1, ctx_count = 1, ctx_error = tcbor_OK\<rparr>)"
  by code_simp

theorem read_command_is_exact_witness:
  "fst (tcbor_read_uint (mem_of 0x1000 [0x15]) (sample_context [0x15])) = Some SUIT_DIRECTIVE_FETCH \<and>
   0 \<le> sint (21 :: i32)"
  using read_command_is_exact [OF sample_command] by simp

section \<open>Authentication\<close>

text \<open>
  The bytes the code puts before the manifest when it computes the digest are the CBOR head of
  a byte string of that length, for every length.
\<close>

theorem digest_header_is_cbor_head:
  "bstr_header (rend r - rbegin r) @ bytes_of m r = encode (CBstr (bytes_of m r))"
  by (rule header_and_body)

text \<open>
  C2. An envelope that passes the authentication carries at least one signature block, every block
  is a COSE_Sign1 that the library accepts for the given key over the digest structure, the digest
  structure names SHA-256, and its bytes are the digest of the manifest of this very envelope
  wrapped as a byte string.
\<close>

theorem authenticated_manifest_is_signed:
  assumes "suit_authenticate_envelope cr m env pem" and "addressable env"
  shows "\<exists>pk d blks man n out.
      pk_parse cr pem = Some pk \<and> blks \<noteq> [] \<and> inside d env \<and>
      (\<forall>b \<in> set blks. inside b env \<and> read_tag m b = Some (sign1_tag cr) \<and>
         cose_verify cr pk (Some (bytes_of m b)) (Some (bytes_of m d))) \<and>
      suit_envelope_get_field_by_key m env SUIT_MANIFEST = Some man \<and> md_size cr = Some n \<and>
      (\<exists>hdr. md cr [hdr, bytes_of m man] = Some out \<and> hdr @ bytes_of m man = encode (CBstr (bytes_of m man))) \<and>
      (\<exists>c h. read_digest m (tcbor_toplevel d) \<lparr>algorithm_id = 0, digest_bytes = tcbor_range_null\<rparr> =
        (True, c, \<lparr>algorithm_id = SUIT_DIGEST_ALG_SHA256, digest_bytes = h\<rparr>) \<and> bytes_of m h = take n out)"
  by (rule authenticated_envelope [OF assms])

definition sample_crypto :: "unit crypto" where
  "sample_crypto =
     \<lparr>sign1_tag = 18, pk_parse = (\<lambda>pem. Some ()), cose_verify = (\<lambda>pk msg dig. msg = Some [0xD2]),
      md_size = Some 1, md = (\<lambda>chunks. Some [of_nat (length (concat chunks))])\<rparr>"

definition sample_signed :: "u8 list \<Rightarrow> (cbor \<times> cbor) list" where
  "sample_signed h =
     [(CUint 2, CBstr (encode (CArray (CBstr (encode (CArray [CNint 15, CBstr h])) # map CBstr [[0xD2]])))),
      (CUint 3, CBstr [0xA0])]"

lemma sample_signed_facts:
  "length (sample_envelope (sample_signed [b])) \<le> 2 ^ 32"
  "\<forall>(k, v) \<in> set (sample_signed h). envelope_key k \<and> wf_cbor v"
  "find_field (\<lambda>k. k = CUint 2) (sample_signed h) None =
     Some (Some (encode (CArray (CBstr (encode (CArray [CNint 15, CBstr h])) # map CBstr [[0xD2]]))))"
  "find_field (\<lambda>k. k = CUint 3) (sample_signed h) None = Some (Some [0xA0])"
  by (simp_all add: sample_envelope_def sample_signed_def encode_head_def be_bytes_numeral)

lemma sample_crypto_facts:
  "block_valid sample_crypto pem dig [0xD2]"
  "digest_valid sample_crypto h [0xA0] \<longleftrightarrow> h = [2]"
  by (auto simp: block_valid_def digest_valid_def sample_crypto_def tag_of_def spec_read_def encode_head_def)

abbreviation sample_memory :: "u8 list \<Rightarrow> memory" where
  "sample_memory h \<equiv> mem_of 0x1000 (sample_envelope (sample_signed h))"

abbreviation sample_range :: "u8 list \<Rightarrow> tcbor_range" where
  "sample_range h \<equiv> range_at 0x1000 (sample_envelope (sample_signed h))"

lemma sample_authenticated: "suit_authenticate_envelope sample_crypto (sample_memory [2]) (sample_range [2]) []"
  by (subst authenticate_encoded [OF sample_envelope_facts(1) _ sample_envelope_facts(2)
        sample_signed_facts(3) sample_signed_facts(4)])
    (rule sample_signed_facts, rule sample_signed_facts, simp add: sample_crypto_facts)

theorem authenticated_manifest_is_signed_witness:
  "\<exists>man. suit_envelope_get_field_by_key (sample_memory [2]) (sample_range [2]) SUIT_MANIFEST = Some man"
  using authenticated_manifest_is_signed [OF sample_authenticated sample_envelope_facts(2)]
    sample_signed_facts(1)
  by auto

text \<open>
  C7. On a well-formed envelope with a wrapper of a SHA-256 digest and signature blocks the
  verdict is exact: there is a block, every block is a valid signature over the digest structure, and
  the digest is that of the manifest.
\<close>

theorem authentication_is_exact:
  assumes "bytes_of m env = encode (CTag 107 (CMap ps)) @ rest"
    and "\<forall>(k, v) \<in> set ps. envelope_key k \<and> wf_cbor v" and "addressable env"
    and "find_field (\<lambda>k. k = CUint 2) ps None =
      Some (Some (encode (CArray (CBstr (encode (CArray [CNint 15, CBstr h])) # map CBstr blks))))"
    and "find_field (\<lambda>k. k = CUint 3) ps None = Some (Some man)"
  shows "suit_authenticate_envelope cr m env pem \<longleftrightarrow>
    blks \<noteq> [] \<and> (\<forall>b \<in> set blks. block_valid cr pem (encode (CArray [CNint 15, CBstr h])) b) \<and>
    digest_valid cr h man"
  by (simp only: authenticate_encoded [OF assms])

theorem authentication_is_exact_witness:
  "\<not> suit_authenticate_envelope sample_crypto (sample_memory [3]) (sample_range [3]) []"
  by (subst authentication_is_exact [OF sample_envelope_facts(1) _ sample_envelope_facts(2)
        sample_signed_facts(3) sample_signed_facts(4)])
    (rule sample_signed_facts, rule sample_signed_facts, simp add: sample_crypto_facts)

section \<open>The table of manifests\<close>

text \<open>
  C9. Adding an envelope keeps the invariant of the table - at most eight manifests, each accepted -
  counts the manifest exactly when it is accepted, and leaves the earlier ones alone.
\<close>

theorem add_envelope_keeps_table:
  assumes "context_ok p" and "suit_context_add_envelope m p env = (ok, p')"
  shows "context_ok p' \<and> n_manifest p' \<le> 8 \<and> n_manifest p' = (if ok then n_manifest p + 1 else n_manifest p) \<and>
    (\<forall>i < n_manifest p. manifests p' ! i = manifests p ! i)"
  using add_envelope_ok [OF assms(2,1)] by (auto simp: context_ok_def SUIT_MANIFEST_MAX_def)

definition small_envelope :: "u8 list" where
  "small_envelope = [0xD8, 0x6B, 0xA1, 0x03, 0x4D] @ sample_manifest"

definition small_context :: suit_context where
  "small_context =
     snd (suit_context_add_envelope (mem_of 0x1000 small_envelope) suit_context_init
       (range_at 0x1000 small_envelope))"

lemma small_envelope_added:
  "fst (suit_context_add_envelope (mem_of 0x1000 small_envelope) suit_context_init
     (range_at 0x1000 small_envelope))"
  by code_simp

lemma small_context_facts: "context_ok small_context" "n_manifest small_context \<noteq> 0"
  using add_envelope_ok [OF _ context_init_ok, of "mem_of 0x1000 small_envelope"
      "range_at 0x1000 small_envelope" True small_context] small_envelope_added
  by (simp_all add: small_context_def prod_eq_iff)

theorem add_envelope_keeps_table_witness: "context_ok small_context \<and> n_manifest small_context = 1"
  using add_envelope_keeps_table [OF context_init_ok, of "mem_of 0x1000 small_envelope"
      "range_at 0x1000 small_envelope" True small_context] small_envelope_added
  by (simp add: small_context_def prod_eq_iff suit_context_init_def)

section \<open>The command interpreter\<close>

text \<open>
  C18. For keys of 32 bits the parameter table is a map: setting a parameter adds it, overrides it
  only when asked to, and fails exactly when the parameter is new and 32 are set.
\<close>

theorem parameters_form_a_map:
  assumes "set_parameter r t k v over = (ok, r')" and "binder_ok r" and "unat k < 2 ^ 32"
  shows "parameters r' =
      (if parameters r (t, k) \<noteq> None \<and> \<not> over \<or> \<not> ok then parameters r
       else (parameters r)((t, k) \<mapsto> v)) \<and>
    (\<not> ok \<longleftrightarrow> parameters r (t, k) = None \<and> n_binder r = 32)"
  using set_parameter_refines [OF assms] by (simp add: SUIT_BINDER_MAX_def)

lemma sample_runner_binder: "binder_ok sample_runner"
  by (simp add: binder_ok_def sample_runner_def)

theorem parameters_form_a_map_witness:
  "parameters (snd (set_parameter sample_runner 0x20 21 (range_at 0x1000 [0x60]) False)) (0x20, 21) =
   Some (range_at 0x1000 [0x60])"
  using parameters_form_a_map [of sample_runner "0x20" 21 "range_at 0x1000 [0x60]" False
      "fst (set_parameter sample_runner 0x20 21 (range_at 0x1000 [0x60]) False)"
      "snd (set_parameter sample_runner 0x20 21 (range_at 0x1000 [0x60]) False)"] sample_runner_binder
  by (simp add: parameters_def suit_runner_get_parameter_def lookup_binder_def sample_runner_def)

text \<open>
  A key of more than 32 bits is cut when it is stored: it sets the parameter of its low half.
\<close>

theorem wide_key_sets_other_parameter:
  assumes "binder_ok r" and "n_binder r < 32" and "lookup_binder r t k = None"
    and "parameters r (t, ucast (ucast k :: u32)) = None"
  shows "\<exists>r'. set_parameter r t k v over = (True, r') \<and> parameters r' (t, ucast (ucast k :: u32)) = Some v"
  using wide_key_aliases [OF assms(1) _ assms(3,4)] assms(2) by (simp add: SUIT_BINDER_MAX_def)

theorem wide_key_sets_other_parameter_witness:
  "\<exists>r'. set_parameter sample_runner 0x20 0x100000015 (range_at 0x1000 [0x60]) False = (True, r') \<and>
     parameters r' (0x20, SUIT_PARAMETER_URI) = Some (range_at 0x1000 [0x60])"
  using wide_key_sets_other_parameter [OF sample_runner_binder, of "0x20" "0x100000015" "range_at 0x1000 [0x60]" False]
  by (simp add: parameters_def suit_runner_get_parameter_def lookup_binder_def sample_runner_def)

text \<open>
  C33. The parameters are kept under the address of the local variable that holds the object. A
  parameter set for one component is found for every other one handled at the same place.
\<close>

theorem parameter_leaks_to_other_component:
  assumes "get_object r (target_at im place) i component = Some (Some a)"
    and "get_object r (target_at im place) j component' = Some (Some b)"
    and "set_parameter r (obj_addr a) key value True = (True, r')"
    and "binder_ok r" and "unat key < 2 ^ 32"
  shows "suit_runner_get_parameter r' (obj_addr b) key = Some value"
proof -
  have same: "obj_addr b = obj_addr a"
    using assms(1,2) by (auto simp: get_object_def Let_def split: option.splits if_splits)
  have "parameters r' (obj_addr a, key) = Some value"
    using set_parameter_refines(1) [OF assms(3-5)] by simp
  then show ?thesis by (simp add: parameters_def same)
qed

definition sample_image :: image where
  "sample_image = \<lparr>empty_array_at = 0x10, cbor_true_at = 0x11, target_at = (\<lambda>_. 0x20)\<rparr>"

definition two_components :: agent_runner where
  "two_components = sample_runner
     \<lparr>run_context := \<lparr>n_manifest = 1, manifests =
        [zero_manifest\<lparr>man_common := zero_common\<lparr>n_components := 2\<rparr>\<rparr>]\<rparr>,
      program_counter := \<lparr>pc_manifest = Some 0, pc_next = SUIT_NEXT_EXIT\<rparr>\<rparr>"

definition two_objects :: "nat \<Rightarrow> suit_object" where
  "two_objects i = \<lparr>obj_addr = 0x20, is_component = True, obj_manifest = 0, obj_index = i\<rparr>"

lemma two_components_facts:
  "get_object two_components (target_at sample_image Array_target) 0 True = Some (Some (two_objects 0))"
  "get_object two_components (target_at sample_image Array_target) 1 True = Some (Some (two_objects 1))"
  "fst (set_parameter two_components (obj_addr (two_objects 0)) 21 (range_at 0x1000 [0x60]) True)"
  "binder_ok two_components"
  by (code_simp, code_simp, code_simp) (simp add: two_components_def sample_runner_def binder_ok_def)

theorem parameter_leaks_to_other_component_witness:
  "suit_runner_get_parameter
     (snd (set_parameter two_components (obj_addr (two_objects 0)) 21 (range_at 0x1000 [0x60]) True))
     (obj_addr (two_objects 1)) SUIT_PARAMETER_URI = Some (range_at 0x1000 [0x60])"
  by (rule parameter_leaks_to_other_component [OF two_components_facts(1,2) _ two_components_facts(4)])
    (use two_components_facts(3) in \<open>simp_all add: prod_eq_iff\<close>)

text \<open>
  The interpreter can be started unless the table is empty; on an empty table the code uses
  the null pointer it gets for the root manifest.
\<close>

theorem start_needs_a_manifest:
  "(suit_runner_init im m context sequence user :: ('u, 'f) suit_runner option) = None \<longleftrightarrow>
   n_manifest context = 0"
  by (rule runner_init_defined)

text \<open>
  C5. Started by the agent on a table that satisfies the invariant, the interpreter always returns,
  without using a null pointer: it has finished, is suspended or has an error, its invariant
  holds, and its program counter stack holds at most two entries.
\<close>

theorem agent_run_returns:
  assumes "context_ok context" and "n_manifest context \<noteq> 0"
  shows "\<exists>r r'. suit_runner_init im m context sequence user = Some r \<and>
    suit_runner_run im m (suit_callbacks lit m) r = Some (Some r') \<and> runner_ok r' \<and> n_stack r' \<le> 2 \<and>
    (has_error r' \<or> suspended r' \<or> pc_next (program_counter r') = SUIT_NEXT_EXIT)"
proof -
  obtain r :: agent_runner where r: "suit_runner_init im m context sequence user = Some r"
    using assms(2) start_defined by metis
  from runner_init_ok(1) [OF r assms(1)] obtain r' where r': "suit_runner_run im m (suit_callbacks lit m) r = Some (Some r')"
    "runner_ok r'" "has_error r' \<or> suspended r' \<or> pc_next (program_counter r') = SUIT_NEXT_EXIT"
    using agent.run_ends by blast
  have "n_stack r' \<le> 2" using r'(2) by (rule runner_ok_stack)
  then show ?thesis using r r' by blast
qed

theorem agent_run_returns_witness:
  "\<exists>r r'. suit_runner_init sample_image (mem_of 0x10 [0x80]) small_context SUIT_COMMAND_SEQUENCE_INSTALL sample_user = Some r \<and>
     suit_runner_run sample_image (mem_of 0x10 [0x80]) (suit_callbacks (\<lambda>_. 0x100) (mem_of 0x10 [0x80])) r = Some (Some r')"
  using agent_run_returns [of small_context] small_context_facts by blast

text \<open>
  An install sequence that is not an array is not reported: the runner starts at its exit, and
  the run counts as finished.
\<close>

theorem malformed_install_succeeds:
  assumes "suit_context_get_root_manifest context = Some i"
    and "\<not> tcbor_range_is_null (sev_body (man_install (manifests context ! i)))"
    and "fst (tcbor_read_array m (tcbor_toplevel (sev_body (man_install (manifests context ! i))))) = None"
  shows "\<exists>r. suit_runner_init im m context SUIT_COMMAND_SEQUENCE_INSTALL user = Some r \<and>
    suit_runner_run im m cb r = Some (Some r) \<and> suit_runner_finished r"
  by (rule malformed_install_finishes [OF assms])

definition malformed_context :: suit_context where
  "malformed_context =
     \<lparr>n_manifest = 1, manifests =
        [zero_manifest\<lparr>man_install := sev_put_body (range_at 0x1000 [0x01]) zero_severable\<rparr>]\<rparr>"

lemma malformed_context_facts:
  "suit_context_get_root_manifest malformed_context = Some 0"
  "\<not> tcbor_range_is_null (sev_body (man_install (manifests malformed_context ! 0)))"
  "fst (tcbor_read_array (mem_of 0x1000 [0x01])
     (tcbor_toplevel (sev_body (man_install (manifests malformed_context ! 0))))) = None"
  by code_simp+

theorem malformed_install_succeeds_witness:
  "\<exists>r. suit_runner_init sample_image (mem_of 0x1000 [0x01]) malformed_context SUIT_COMMAND_SEQUENCE_INSTALL
       sample_user = Some r \<and> suit_runner_finished (r :: agent_runner)"
  using malformed_install_succeeds [OF malformed_context_facts, where im = sample_image and
      user = sample_user and cb = "suit_callbacks (\<lambda>_. 0) (mem_of 0x1000 [0x01])"] by blast

section \<open>Storing components\<close>

text \<open>
  C19. On a well-formed component identifier of four byte strings, none longer than the literal it is
  compared with and its NUL, the parser accepts exactly when each text is a prefix of its literal - the
  empty text included - and the UUID has sixteen bytes; it then fills in the whole path.
\<close>

theorem component_id_acceptance:
  assumes "bytes_of m (id_cbor c) = encode (CArray [CBstr device, CBstr storage, CBstr uuid, CBstr name])"
    and "literals_at lit m"
    and "length device \<le> 12" and "length storage \<le> 9" and "length name \<le> 3"
  shows "fst (parse_component_id lit m c dst) = id_accepted device storage uuid name \<and>
    (id_accepted device storage uuid name \<longrightarrow> snd (parse_component_id lit m c dst) = uuid_path uuid)"
  by (rule parse_component_id_encoded [OF assms, of dst]) simp

definition sample_uuid :: "u8 list" where
  "sample_uuid = [0x8D, 0x82, 0x57, 0x3A, 0x92, 0x6D, 0x47, 0x54, 0x93, 0x53, 0x32, 0xDC, 0x29, 0x99, 0x7F, 0x74]"

definition sample_id :: "u8 list" where
  "sample_id = [0x84, 0x40, 0x40, 0x50] @ sample_uuid @ [0x40]"

definition literals :: "u8 list" where
  "literals = ascii ''TEEP-Device'' @ [0] @ ascii ''SecureFS'' @ [0] @ ascii ''ta'' @ [0]"

definition literal_address :: "string \<Rightarrow> ptr" where
  "literal_address s = (if s = ''TEEP-Device'' then 0x1000 else if s = ''SecureFS'' then 0x100C else 0x1015)"

definition id_memory :: memory where
  "id_memory = mem_of 0x1000 (literals @ sample_id)"

lemma id_memory_facts:
  "literals_at literal_address id_memory"
  "bytes_of id_memory \<lparr>rbegin = 0x1018, rend = 0x102D\<rparr> = sample_id"
  by code_simp+

lemma sample_id_encoded: "sample_id = encode (CArray [CBstr [], CBstr [], CBstr sample_uuid, CBstr []])"
  by (simp add: sample_id_def sample_uuid_def encode_head_def)

theorem component_id_acceptance_witness:
  "fst (parse_component_id literal_address id_memory \<lparr>id_cbor = \<lparr>rbegin = 0x1018, rend = 0x102D\<rparr>\<rparr> no_path)"
  using component_id_acceptance [of id_memory "\<lparr>id_cbor = \<lparr>rbegin = 0x1018, rend = 0x102D\<rparr>\<rparr>"
      "[]" "[]" sample_uuid "[]" literal_address no_path] id_memory_facts
  by (simp add: sample_id_encoded id_accepted_def id_prefix_def sample_uuid_def)

text \<open>
  The name of the file of a component determines its UUID, and with its NUL it fits into the
  64 bytes of the field.
\<close>

theorem component_files_are_distinct:
  assumes "length a = 16" and "length b = 16" and "a \<noteq> b"
  shows "uuid_filename a \<noteq> uuid_filename b \<and> length (uuid_filename a) + 1 \<le> 64"
  using uuid_filename_inj [OF _ assms(1,2)] assms(3) by (auto simp: length_uuid_filename)

lemma sample_uuid_facts: "length sample_uuid = 16" "sample_uuid \<noteq> replicate 16 0"
  by code_simp+

theorem component_files_are_distinct_witness:
  "uuid_filename sample_uuid \<noteq> uuid_filename (replicate 16 0)"
  using component_files_are_distinct [of sample_uuid "replicate 16 0"] sample_uuid_facts by simp

text \<open>
  What storing a component does to the files, on every branch: nothing when the file cannot be
  opened; otherwise the file holds as much of the image as there is room for, and the result is
  whether that is all of it. No other file changes.
\<close>

theorem stored_component_file:
  "store_component fs path content = (ok, fs') \<Longrightarrow>
     ok = (fs_opens fs (path_filename path) \<and> length content \<le> fs_room fs) \<and>
     fs_files fs' = (if fs_opens fs (path_filename path)
       then (fs_files fs)(path_filename path \<mapsto> take (fs_room fs) content) else fs_files fs)"
  by (auto simp: store_component_def install_ta_def Let_def min_def split: if_splits)

theorem stored_component_file_witness:
  "fs_files (snd (store_component (user_fs sample_user) (uuid_path sample_uuid) [1, 2]))
     (uuid_filename sample_uuid) = Some [1, 2]"
  using stored_component_file [of "user_fs sample_user" "uuid_path sample_uuid" "[1, 2]"
      "fst (store_component (user_fs sample_user) (uuid_path sample_uuid) [1, 2])"
      "snd (store_component (user_fs sample_user) (uuid_path sample_uuid) [1, 2])"]
  by (simp add: sample_user_def uuid_path_def)

text \<open>
  The callback that stores an image reports success for every component whose identifier is
  accepted, whether or not the image could be stored.
\<close>

theorem store_callback_ignores_failure:
  assumes "is_component target"
    and "parse_component_id lit m (target_component runner target) no_path = (True, path)"
  shows "fst (store lit m runner target body) \<and>
    user_fs (run_user (snd (store lit m runner target body))) =
      snd (store_component (user_fs (run_user runner)) path (bytes_of m body))"
  using assms by (simp add: store_def split: prod.splits)

definition id_runner :: agent_runner where
  "id_runner = sample_runner
     \<lparr>run_user := sample_user\<lparr>user_fs := \<lparr>fs_files = Map.empty, fs_opens = (\<lambda>_. False), fs_room = 0\<rparr>\<rparr>,
      run_context := \<lparr>n_manifest = 1, manifests =
        [zero_manifest\<lparr>man_common := zero_common
          \<lparr>n_components := 1, components := [\<lparr>id_cbor = \<lparr>rbegin = 0x1018, rend = 0x102D\<rparr>\<rparr>]\<rparr>\<rparr>]\<rparr>\<rparr>"

lemma id_runner_parses:
  "parse_component_id literal_address id_memory (target_component id_runner (two_objects 0)) no_path =
   (True, uuid_path sample_uuid)"
  by code_simp

theorem store_callback_ignores_failure_witness:
  "fst (store literal_address id_memory id_runner (two_objects 0) \<lparr>rbegin = 0x1000, rend = 0x1001\<rparr>)"
  using store_callback_ignores_failure [OF _ id_runner_parses] by (simp add: two_objects_def)

section \<open>String functions of the enclave\<close>

text \<open>The substring search gives the offset of the first occurrence, and nothing when there is none.\<close>

theorem strstr_finds_first:
  "local_strstr x y =
    (if \<exists>k. take (length y) (drop k x) = y then Some (LEAST k. take (length y) (drop k x) = y) else None)"
proof (cases "y = []")
  case True
  then have "(LEAST k. take (length y) (drop k x) = y) = 0" by (intro Least_equality) auto
  then show ?thesis using True by (simp add: local_strstr_def)
next
  case False
  then show ?thesis using strstr_from_eq [OF False, of x 0] by (simp add: local_strstr_def)
qed

text \<open>
  The copy function of the enclave always ends the destination with a NUL and copies at most
  \<open>n\<close> bytes of the string, but only when the destination has more than \<open>n\<close> bytes: with a size of
  \<open>n\<close>, which its comment asks for, it writes behind the end.
\<close>

theorem enclave_strncpy_terminates:
  assumes "0 \<notin> set src"
  shows "(n < length dst \<longrightarrow> (\<exists>b. tools_strncpy dst src n = Some b \<and> length b = length dst \<and> c_string b = Some (take n src))) \<and>
    (n = length dst \<longrightarrow> tools_strncpy dst src n = None)"
  using tools_strncpy_string [of n dst src] assms by (simp add: tools_strncpy_def)

theorem enclave_strncpy_terminates_witness:
  "tools_strncpy [7, 7, 7] [0x61, 0x62, 0x63, 0x64] 3 = None"
  using enclave_strncpy_terminates [of "[0x61, 0x62, 0x63, 0x64]" 3 "[7, 7, 7]"] by simp

end
